theory Spec2Isabelle
  imports Main "HOL-Library.Word"
begin

unbundle bit_operations_syntax

section \<open>Data model of \<open>adapter-neofoxx.c\<close>\<close>

type_synonym byte = "8 word"
type_synonym u16 = "16 word"
type_synonym u32 = "32 word"
type_synonym u64 = "64 word"

text \<open>
  The serial line of \<open>serial.h\<close> (\<open>serial_write\<close>, \<open>serial_read\<close>) is not part
  of \<open>adapter-neofoxx.c\<close>; it is global state behind the adapter.

  Modelled from the spec: the transport collaborator
  \<open>write(bytes) -> count | Error\<close>, \<open>read(buffer, max, timeout_ms) -> count\<close>.
  The line is a script: \<open>wr_result p i\<close> is what the \<open>i\<close>-th call of \<open>serial_write\<close>
  answers (negative: an error; otherwise the number of bytes it is ready to take),
  \<open>rx p\<close> is the stream of bytes the adapter sends back and \<open>rd_avail p i\<close> is how
  many of them the \<open>i\<close>-th call of \<open>serial_read\<close> can deliver before its timeout.
  \<open>tx p\<close> collects every byte the line has accepted.
\<close>

record port =
  tx :: "byte list"
  wr_result :: "nat \<Rightarrow> int"
  wr_calls :: nat
  rx :: "nat \<Rightarrow> byte"
  rx_pos :: nat
  rd_avail :: "nat \<Rightarrow> nat"
  rd_calls :: nat

definition serial_write :: "port \<Rightarrow> byte list \<Rightarrow> int \<times> port" where
  "serial_write p bs =
     (let r = wr_result p (wr_calls p) in
      if r < 0 then (r, p\<lparr>wr_calls := Suc (wr_calls p)\<rparr>)
      else (let c = min (nat r) (length bs) in
            (int c, p\<lparr>tx := tx p @ take c bs, wr_calls := Suc (wr_calls p)\<rparr>)))"

definition serial_read :: "port \<Rightarrow> nat \<Rightarrow> byte list \<times> port" where
  "serial_read p maxlen =
     (let c = min (rd_avail p (rd_calls p)) maxlen in
      (map (rx p) [rx_pos p ..< rx_pos p + c],
       p\<lparr>rx_pos := rx_pos p + c, rd_calls := Suc (rd_calls p)\<rparr>))"

text \<open>
  Modelled from the spec: the interface mode (one of default, JTAG, ICSP) and the family
  (one of MX1, MX3, MK, MZ, MM); the constants \<open>INTERFACE_*\<close> and \<open>FAMILY_*\<close> are
  declared in \<open>adapter.h\<close> and \<open>pic32.h\<close>.
\<close>

datatype iface = INTERFACE_DEFAULT | INTERFACE_JTAG | INTERFACE_ICSP

datatype family = FAMILY_MX1 | FAMILY_MX3 | FAMILY_MK | FAMILY_MZ | FAMILY_MM

text \<open>
  The unconditional messages the code prints on the error stream, one constructor for
  each \<open>fprintf(stderr, ...)\<close> that is not guarded by \<open>debug_level\<close>.
\<close>

datatype diag =
    Less_than_4_bytes
  | Error_during_writing
  | Invalid_mode
  | Invalid_command u32
  | PrACC_not_set
  | Xfer_instruction_ctl u32
  | Processor_still_not_ready
  | CPS_bit_is_SET u32
  | Failed_to_enter_serial_execution u32
  | Trying_to_recover
  | Only_recovery_is_power_cycle
  | Couldnt_enter_serial_execution
  | Workaround_active string
  | Bad_READ_response u32
  | Program_word_not_available_on_MM
  | Program_quad_word_only_on_MK_MZ
  | Slow_flash_write_not_implemented
  | Failed_to_program_word u32
  | Failed_to_program_quad_words u32
  | Slow_verify_not_implemented
  | Failed_to_verify u32
  | Checksum_failed u32 u32
  | WAY_NEW_not_implemented string

text \<open>
  \<open>neofoxx_adapter_t\<close>. The two buffers are the arrays \<open>output[2048]\<close> and
  \<open>input[2048]\<close>, read and written by index; the code never checks an index against
  the capacity, and the model does not either. The \<open>int\<close> counters never go below
  zero and are natural numbers here. The serial line and the error stream are carried
  along with the adapter.
\<close>

record neofoxx_adapter =
  output_buf :: "nat \<Rightarrow> byte"
  bytes_to_write :: nat
  input_buf :: "nat \<Rightarrow> byte"
  bytes_to_read :: nat
  bytes_in_buffer :: nat
  current_pos_input :: nat
  interface :: iface
  family_name_short :: family
  use_executive :: u32
  serial_execution_mode :: u32
  way :: u32
  port :: port
  stderr :: "diag list"

text \<open>A call either returns a value or ends the process with \<open>exit(-1)\<close>.\<close>

datatype 'a res = Ok 'a neofoxx_adapter | Exit neofoxx_adapter

section \<open>Bytes in memory\<close>

definition store_bytes :: "(nat \<Rightarrow> byte) \<Rightarrow> nat \<Rightarrow> byte list \<Rightarrow> nat \<Rightarrow> byte" where
  "store_bytes m off bs = (\<lambda>i. if off \<le> i \<and> i < off + length bs then bs ! (i - off) else m i)"

definition load_bytes :: "(nat \<Rightarrow> byte) \<Rightarrow> nat \<Rightarrow> nat \<Rightarrow> byte list" where
  "load_bytes m off n = map m [off ..< off + n]"

text \<open>\<open>memcpy\<close> of a 32-bit and of a 64-bit integer on the little-endian host.\<close>

definition le32 :: "u32 \<Rightarrow> byte list" where
  "le32 w = map (\<lambda>i. ucast (drop_bit (8 * i) w)) [0 ..< 4]"

definition le64 :: "u64 \<Rightarrow> byte list" where
  "le64 w = map (\<lambda>i. ucast (drop_bit (8 * i) w)) [0 ..< 8]"

definition word64_of :: "byte list \<Rightarrow> u64" where
  "word64_of bs = foldr (\<lambda>b w. ucast b OR push_bit 8 w) bs 0"

section \<open>Packet transport\<close>

definition PACKET_BYTE :: byte where
  "PACKET_BYTE = 0x70"

text \<open>
  In the C structure \<open>output\<close> is an array of 2048 bytes, followed by
  \<open>bytes_to_write\<close>. Neither \<open>add_to_packet\<close> nor \<open>bulk_write\<close> checks the
  capacity. The model keeps the buffer as a function on all indices, so it is the buffer
  of the code only while the packet fits the array: the three header bytes, the payload
  and the checksum byte that \<open>bulk_write\<close> adds are at most 2048 bytes, that is, the
  payload is at most 2044 bytes. Past that the code writes beyond the array, and the
  model does not describe what it does then.
\<close>

definition add_to_packet :: "byte list \<Rightarrow> neofoxx_adapter \<Rightarrow> neofoxx_adapter" where
  "add_to_packet data a =
     (let a1 = (if bytes_to_write a = 0
                then a\<lparr>output_buf := (output_buf a)(0 := PACKET_BYTE, 1 := 0, 2 := 0),
                       bytes_to_write := 3\<rparr>
                else a)
      in a1\<lparr>output_buf := store_bytes (output_buf a1) (bytes_to_write a1) data,
             bytes_to_write := bytes_to_write a1 + length data\<rparr>)"

text \<open>
  \<open>bulk_write\<close> in three parts: the sum over the buffer from index 2
  (\<open>packet_sum\<close>), the checksum byte and the length field (\<open>seal_packet\<close>), and
  the loop that hands the buffer to the serial line (\<open>write_loop\<close>). The loop runs
  until the line has taken every byte; a line that never does keeps it running, which
  is the value \<open>None\<close>. The parameters \<open>output\<close> and \<open>nbytes\<close> of the C function
  are not used by its body.
\<close>

partial_function (option) write_loop :: "nat \<Rightarrow> neofoxx_adapter \<Rightarrow> neofoxx_adapter option" where
  "write_loop position a =
     (if 0 < bytes_to_write a then
        (case serial_write (port a) (load_bytes (output_buf a) position (bytes_to_write a)) of
           (temp, p) \<Rightarrow>
             if temp < 0
             then write_loop position (a\<lparr>port := p, stderr := stderr a @ [Error_during_writing]\<rparr>)
             else write_loop (position + nat temp)
                    (a\<lparr>port := p, bytes_to_write := bytes_to_write a - nat temp\<rparr>))
      else Some a)"

declare write_loop.simps [code]

definition packet_sum :: "neofoxx_adapter \<Rightarrow> u32" where
  "packet_sum a = fold (\<lambda>counter crc. crc + ucast (output_buf a counter)) [2 ..< bytes_to_write a] 0"

definition seal_packet :: "neofoxx_adapter \<Rightarrow> neofoxx_adapter" where
  "seal_packet a =
     (let crc = packet_sum a;
          a1 = a\<lparr>output_buf := (output_buf a)(bytes_to_write a := ucast (crc AND 0xFF)),
                 bytes_to_write := bytes_to_write a + 1\<rparr>;
          shortTemp = (of_nat (bytes_to_write a1) - 3 :: u16)
      in a1\<lparr>output_buf := (output_buf a1)(2 := ucast (drop_bit 8 shortTemp),
                                   1 := ucast (shortTemp AND 0xFF))\<rparr>)"

definition bulk_write :: "neofoxx_adapter \<Rightarrow> neofoxx_adapter option" where
  "bulk_write a =
     (if bytes_to_write a < 4 then Some (a\<lparr>stderr := stderr a @ [Less_than_4_bytes]\<rparr>)
      else write_loop 0 (seal_packet a))"

text \<open>
  The loop of \<open>neofoxx_flush_output\<close> that waits for the reply; it has no bound on
  the number of reads, so a silent adapter is the value \<open>None\<close>.
\<close>

partial_function (option) read_loop :: "neofoxx_adapter \<Rightarrow> neofoxx_adapter option" where
  "read_loop a =
     (if bytes_in_buffer a < bytes_to_read a then
        (case serial_read (port a) (bytes_to_read a - bytes_in_buffer a) of
           (bs, p) \<Rightarrow>
             read_loop (a\<lparr>input_buf := store_bytes (input_buf a) (bytes_in_buffer a) bs,
                          bytes_in_buffer := bytes_in_buffer a + length bs,
                          port := p\<rparr>))
      else Some a)"

declare read_loop.simps [code]

definition neofoxx_flush_output :: "neofoxx_adapter \<Rightarrow> neofoxx_adapter option" where
  "neofoxx_flush_output a =
     (if bytes_to_write a = 0 then Some a
      else (case bulk_write a of
              None \<Rightarrow> None
            | Some a1 \<Rightarrow>
                (let a2 = a1\<lparr>bytes_to_write := 0\<rparr> in
                 if bytes_to_read a2 = 0 then Some a2
                 else (case read_loop (a2\<lparr>bytes_in_buffer := 0\<rparr>) of
                         None \<Rightarrow> None
                       | Some a3 \<Rightarrow> Some (a3\<lparr>bytes_to_read := 0, current_pos_input := 0\<rparr>)))))"

section \<open>Sequencing calls\<close>

definition bind_res :: "'a res option \<Rightarrow> ('a \<Rightarrow> neofoxx_adapter \<Rightarrow> 'b res option) \<Rightarrow> 'b res option" where
  "bind_res m f = (case m of None \<Rightarrow> None | Some r \<Rightarrow> (case r of Ok v a \<Rightarrow> f v a | Exit a \<Rightarrow> Some (Exit a)))"

definition ret :: "'a \<Rightarrow> neofoxx_adapter \<Rightarrow> 'a res option" where
  "ret v a = Some (Ok v a)"

definition exit_with :: "diag \<Rightarrow> neofoxx_adapter \<Rightarrow> 'a res option" where
  "exit_with d a = Some (Exit (a\<lparr>stderr := stderr a @ [d]\<rparr>))"

definition fprintf_stderr :: "diag \<Rightarrow> neofoxx_adapter \<Rightarrow> neofoxx_adapter" where
  "fprintf_stderr d a = a\<lparr>stderr := stderr a @ [d]\<rparr>"

definition flushed :: "neofoxx_adapter option \<Rightarrow> unit res option" where
  "flushed m = map_option (Ok ()) m"

definition ignore :: "(neofoxx_adapter \<Rightarrow> 'a res option) \<Rightarrow> neofoxx_adapter \<Rightarrow> unit res option" where
  "ignore c a = bind_res (c a) (\<lambda>_. ret ())"

definition say :: "diag \<Rightarrow> neofoxx_adapter \<Rightarrow> unit res option" where
  "say d a = ret () (fprintf_stderr d a)"

definition flush :: "neofoxx_adapter \<Rightarrow> unit res option" where
  "flush a = flushed (neofoxx_flush_output a)"

primrec run :: "(neofoxx_adapter \<Rightarrow> unit res option) list \<Rightarrow> neofoxx_adapter \<Rightarrow> unit res option" where
  "run [] a = ret () a"
| "run (c # cs) a = bind_res (c a) (\<lambda>_. run cs)"

lemma bind_res_cong [fundef_cong]:
  "m = m' \<Longrightarrow> (\<And>v a. m' = Some (Ok v a) \<Longrightarrow> f v a = f' v a) \<Longrightarrow> bind_res m f = bind_res m' f'"
  by (auto simp: bind_res_def split: option.splits res.splits)

section \<open>JTAG encoder and TAP controller\<close>

abbreviation (input) "COMMAND_SET_PIN_IO_MODE \<equiv> (3 :: byte)"
abbreviation (input) "COMMAND_SEND \<equiv> (6 :: byte)"
abbreviation (input) "SET_MODE_TAP_RESET \<equiv> (0 :: u32)"
abbreviation (input) "SET_MODE_EXIT \<equiv> (1 :: u32)"
abbreviation (input) "SET_MODE_ICSP_SYNC \<equiv> (2 :: u32)"
abbreviation (input) "PIN_MCLR \<equiv> (4 :: int)"
abbreviation (input) "PIN_DIR_OUTPUT \<equiv> (0 :: int)"
abbreviation (input) "PIN_DIR_INPUT \<equiv> (1 :: int)"
abbreviation (input) "PIN_VAL_LOW \<equiv> (0 :: int)"
abbreviation (input) "PIN_VAL_HIGH \<equiv> (1 :: int)"
abbreviation (input) "PIN_SET_OUTPUT_LOW \<equiv> (0 :: byte)"
abbreviation (input) "PIN_SET_OUTPUT_HIGH \<equiv> (1 :: byte)"
abbreviation (input) "PIN_SET_INPUT \<equiv> (2 :: byte)"

text \<open>
  The constants of \<open>pic32.h\<close>, which is not part of the source at hand, are taken as a
  parameter \<open>k\<close> of every function that uses one.
\<close>

record pic32_h =
  MTAP_COMMAND :: u32
  TAP_SW_MTAP :: u32
  TAP_SW_ETAP :: u32
  MTAP_IDCODE :: u32
  ETAP_ADDRESS :: u32
  ETAP_DATA :: u32
  ETAP_CONTROL :: u32
  ETAP_EJTAGBOOT :: u32
  ETAP_FASTDATA :: u32
  ETAP_NORMALBOOT :: u32
  MTAP_COMMAND_NBITS :: u32
  ETAP_COMMAND_NBITS :: u32
  MTAP_COMMAND_DR_NBITS :: u32
  MCHP_STATUS :: u32
  MCHP_ASSERT_RST :: u32
  MCHP_DEASSERT_RST :: u32
  MCHP_FLASH_ENABLE :: u32
  MCHP_STATUS_CPS :: u32
  CONTROL_PRACC :: u32
  CONTROL_PROBEN :: u32
  CONTROL_PROBTRAP :: u32
  CONTROL_EJTAGBRK :: u32
  PE_READ :: u32
  PE_WORD_PROGRAM :: u32
  PE_QUAD_WORD_PGRM :: u32
  PE_GET_CRC :: u32

definition neofoxx_setPins :: "int \<Rightarrow> int \<Rightarrow> int \<Rightarrow> int \<Rightarrow> int \<Rightarrow> neofoxx_adapter \<Rightarrow> unit res option" where
  "neofoxx_setPins preset pin pin_dir pin_val immediate a =
     (let data = [COMMAND_SET_PIN_IO_MODE, of_int pin,
                  (if PIN_DIR_INPUT = pin_dir then PIN_SET_INPUT
                   else if PIN_VAL_LOW = pin_val then PIN_SET_OUTPUT_LOW
                   else PIN_SET_OUTPUT_HIGH)];
          a1 = add_to_packet data a
      in if immediate \<noteq> 0 then flushed (neofoxx_flush_output a1) else ret () a1)"

definition neofoxx_send ::
  "u32 \<Rightarrow> u32 \<Rightarrow> u32 \<Rightarrow> u64 \<Rightarrow> u32 \<Rightarrow> u32 \<Rightarrow> u32 \<Rightarrow> neofoxx_adapter \<Rightarrow> neofoxx_adapter" where
  "neofoxx_send tms_prolog_nbits tms_prolog tdi_nbits tdi tms_epilog_nbits tms_epilog read_flag a =
     (let data = [COMMAND_SEND] @ le32 tms_prolog_nbits @ le32 tms_prolog
                 @ le32 tdi_nbits @ le64 tdi
                 @ le32 tms_epilog_nbits @ le32 tms_epilog
                 @ le32 read_flag;
          a1 = add_to_packet data a
      in if read_flag \<noteq> 0 then a1\<lparr>bytes_to_read := bytes_to_read a1 + 8\<rparr> else a1)"

definition neofoxx_recv :: "neofoxx_adapter \<Rightarrow> u64 res option" where
  "neofoxx_recv a =
     (case neofoxx_flush_output a of
        None \<Rightarrow> None
      | Some a1 \<Rightarrow>
          (let word = word64_of (load_bytes (input_buf a1) (current_pos_input a1) 8)
           in ret word (a1\<lparr>current_pos_input := current_pos_input a1 + 8\<rparr>)))"

definition neofoxx_bitReversal :: "u32 \<Rightarrow> u32" where
  "neofoxx_bitReversal inp =
     fold (\<lambda>counter outp. if inp AND push_bit counter 1 \<noteq> 0
                            then outp OR push_bit (31 - counter) 1 else outp) [0 ..< 32] 0"

definition neofoxx_setMode :: "u32 \<Rightarrow> u32 \<Rightarrow> neofoxx_adapter \<Rightarrow> unit res option" where
  "neofoxx_setMode mode immediate a =
     bind_res
       (if SET_MODE_TAP_RESET = mode then ret () (neofoxx_send 6 0b011111 0 0 0 0 0 a)
        else if SET_MODE_EXIT = mode then ret () (neofoxx_send 5 0x1F 0 0 0 0 0 a)
        else if SET_MODE_ICSP_SYNC = mode
                \<and> (INTERFACE_JTAG = interface a \<or> INTERFACE_DEFAULT = interface a) then
          (let entryCode = neofoxx_bitReversal 0x4D434850 in
           ret ()
             (neofoxx_send 8 (drop_bit 24 entryCode AND 0xFF) 0 0 0 0 0
               (neofoxx_send 8 (drop_bit 16 entryCode AND 0xFF) 0 0 0 0 0
                 (neofoxx_send 8 (drop_bit 8 entryCode AND 0xFF) 0 0 0 0 0
                   (neofoxx_send 8 (entryCode AND 0xFF) 0 0 0 0 0 a)))))
        else exit_with Invalid_mode a)
       (\<lambda>_ a1. if immediate \<noteq> 0 then flushed (neofoxx_flush_output a1) else ret () a1)"

definition neofoxx_sendCommand :: "pic32_h \<Rightarrow> u32 \<Rightarrow> u32 \<Rightarrow> neofoxx_adapter \<Rightarrow> unit res option" where
  "neofoxx_sendCommand k command immediate a =
     (if MTAP_COMMAND k \<noteq> command \<and> TAP_SW_MTAP k \<noteq> command
         \<and> TAP_SW_ETAP k \<noteq> command \<and> MTAP_IDCODE k \<noteq> command
         \<and> ETAP_ADDRESS k \<noteq> command \<and> ETAP_DATA k \<noteq> command
         \<and> ETAP_CONTROL k \<noteq> command \<and> ETAP_EJTAGBOOT k \<noteq> command
         \<and> ETAP_FASTDATA k \<noteq> command \<and> ETAP_NORMALBOOT k \<noteq> command
      then exit_with (Invalid_command command) a
      else
        (let a1 =
           (if MTAP_COMMAND k \<noteq> command \<and> TAP_SW_MTAP k \<noteq> command
               \<and> TAP_SW_ETAP k \<noteq> command \<and> MTAP_IDCODE k \<noteq> command
            then neofoxx_send 4 0b0011 (MTAP_COMMAND_NBITS k) (ucast command) 2 0b01 0 a
            else if ETAP_ADDRESS k \<noteq> command \<and> ETAP_DATA k \<noteq> command
                    \<and> ETAP_CONTROL k \<noteq> command \<and> ETAP_EJTAGBOOT k \<noteq> command
                    \<and> ETAP_FASTDATA k \<noteq> command \<and> ETAP_NORMALBOOT k \<noteq> command
            then neofoxx_send 4 0b0011 (ETAP_COMMAND_NBITS k) (ucast command) 2 0b01 0 a
            else a)
         in if immediate \<noteq> 0 then flushed (neofoxx_flush_output a1) else ret () a1))"

section \<open>EJTAG register layer\<close>

definition neofoxx_xferData :: "u32 \<Rightarrow> u32 \<Rightarrow> u32 \<Rightarrow> u32 \<Rightarrow> neofoxx_adapter \<Rightarrow> u64 res option" where
  "neofoxx_xferData nBits iData readFlag immediate a =
     (let a1 = neofoxx_send 3 0b001 nBits (ucast iData) 2 0b01 readFlag a in
      if readFlag \<noteq> 0 then neofoxx_recv a1
      else if immediate \<noteq> 0 then bind_res (flushed (neofoxx_flush_output a1)) (\<lambda>_. ret 0)
      else ret 0 a1)"

definition neofoxx_xferFastData_PC_slow :: "u32 \<Rightarrow> u32 \<Rightarrow> neofoxx_adapter \<Rightarrow> u64 res option" where
  "neofoxx_xferFastData_PC_slow word readFlag a =
     bind_res (neofoxx_recv (neofoxx_send 3 0b001 33 (push_bit 1 (ucast word)) 2 0b01 1 a))
       (\<lambda>temp a1.
          (let a2 = (if temp AND 0x01 = 0 then fprintf_stderr PrACC_not_set a1 else a1)
           in if readFlag \<noteq> 0 then ret temp a2 else ret 0 a2))"

lemma word_pred_less: "1 < (c :: u32) \<Longrightarrow> unat (c - 1) < unat c"
proof -
  assume "1 < c"
  then have nz: "c \<noteq> 0" by auto
  then have "unat (c - 1) = unat c - 1" by (rule unat_minus_one)
  moreover have "0 < unat c" using nz by (simp add: unat_gt_0)
  ultimately show ?thesis by simp
qed

section \<open>Instruction injector\<close>




section \<open>Serial-execution bootstrap\<close>

text \<open>
  \<open>serial_execution\<close> in parts: the steps of one pass of the outer loop up to the
  selection of the control register (\<open>se_attempt\<close>), the inner loop that reads the
  control register (\<open>se_read_control\<close>, \<open>counterPre\<close> from 11), the branch taken when
  ProbEn is not set (\<open>se_failed\<close>), and the outer loop (\<open>se_loop\<close>, \<open>counter\<close> from
  20), which returns the last status and the final value of \<open>counter\<close>.
\<close>

definition jtag_or_default :: "neofoxx_adapter \<Rightarrow> bool" where
  "jtag_or_default a = (INTERFACE_JTAG = interface a \<or> INTERFACE_DEFAULT = interface a)"

definition mx1_or_mx3 :: "neofoxx_adapter \<Rightarrow> bool" where
  "mx1_or_mx3 a = (FAMILY_MX1 = family_name_short a \<or> FAMILY_MX3 = family_name_short a)"

definition se_attempt :: "pic32_h \<Rightarrow> neofoxx_adapter \<Rightarrow> unit res option" where
  "se_attempt k =
     run [(\<lambda>a. if INTERFACE_ICSP = interface a
                then ignore (neofoxx_xferData (MTAP_COMMAND_DR_NBITS k) (MCHP_ASSERT_RST k) 0 1) a
                else ret () a),
          (\<lambda>a. if jtag_or_default a
                then run [neofoxx_setPins (-1) PIN_MCLR PIN_DIR_OUTPUT PIN_VAL_LOW 1, flush] a
                else ret () a),
          neofoxx_sendCommand k (TAP_SW_ETAP k) 1,
          neofoxx_setMode SET_MODE_TAP_RESET 1,
          neofoxx_sendCommand k (ETAP_EJTAGBOOT k) 1,
          (\<lambda>a. if jtag_or_default a
                then run [neofoxx_setPins (-1) PIN_MCLR PIN_DIR_OUTPUT PIN_VAL_HIGH 1, flush] a
                else run [neofoxx_sendCommand k (TAP_SW_MTAP k) 1,
                          neofoxx_setMode SET_MODE_TAP_RESET 1,
                          neofoxx_sendCommand k (MTAP_COMMAND k) 1,
                          ignore (neofoxx_xferData (MTAP_COMMAND_DR_NBITS k) (MCHP_DEASSERT_RST k) 0 1),
                          (\<lambda>a. if mx1_or_mx3 a
                                then ignore (neofoxx_xferData (MTAP_COMMAND_DR_NBITS k)
                                               (MCHP_FLASH_ENABLE k) 0 1) a
                                else ret () a),
                          neofoxx_sendCommand k (TAP_SW_ETAP k) 1,
                          neofoxx_setMode SET_MODE_TAP_RESET 1] a),
          neofoxx_setMode SET_MODE_TAP_RESET 1,
          neofoxx_sendCommand k (TAP_SW_ETAP k) 1,
          neofoxx_setMode SET_MODE_TAP_RESET 1,
          neofoxx_sendCommand k (ETAP_CONTROL k) 1]"

function se_read_control :: "pic32_h \<Rightarrow> u32 \<Rightarrow> neofoxx_adapter \<Rightarrow> u64 res option" where
  "se_read_control k counterPre a =
     bind_res
       (neofoxx_xferData 32 (CONTROL_PRACC k OR CONTROL_PROBEN k OR CONTROL_PROBTRAP k) 1 1 a)
       (\<lambda>status a1.
          if status AND ucast (CONTROL_PROBEN k) = 0 \<and> counterPre > 1
          then se_read_control k (counterPre - 1) a1
          else ret status a1)"
  by pat_completeness auto
termination
  by (relation "measure (\<lambda>(k, counterPre, a). unat counterPre)")
     (auto intro: word_pred_less)

declare se_read_control.simps [simp del]

definition se_failed :: "u64 \<Rightarrow> neofoxx_adapter \<Rightarrow> unit res option" where
  "se_failed status a =
     (let a1 = fprintf_stderr (Failed_to_enter_serial_execution (ucast status)) a in
      if jtag_or_default a1 then
        (if mx1_or_mx3 a1 then
           run [say Trying_to_recover,
                neofoxx_setPins (-1) PIN_MCLR PIN_DIR_OUTPUT PIN_VAL_LOW 1, flush,
                neofoxx_setMode SET_MODE_ICSP_SYNC 1,
                neofoxx_setPins (-1) PIN_MCLR PIN_DIR_OUTPUT PIN_VAL_HIGH 1, flush] a1
         else exit_with Only_recovery_is_power_cycle a1)
      else ret () a1)"

function se_loop :: "pic32_h \<Rightarrow> u32 \<Rightarrow> neofoxx_adapter \<Rightarrow> (u64 \<times> u32) res option" where
  "se_loop k counter a =
     bind_res (se_attempt k a) (\<lambda>_ a1.
     bind_res (se_read_control k 11 a1) (\<lambda>status a2.
     bind_res (if status AND ucast (CONTROL_PROBEN k) = 0 then se_failed status a2 else ret () a2)
       (\<lambda>_ a3.
          if status AND ucast (CONTROL_PROBEN k) = 0 then
            (if counter > 1 then se_loop k (counter - 1) a3 else ret (status, counter - 1) a3)
          else ret (status, counter) a3)))"
  by pat_completeness auto
termination
  by (relation "measure (\<lambda>(k, counter, a). unat counter)")
     (auto intro: word_pred_less)

declare se_loop.simps [simp del]

definition serial_execution :: "pic32_h \<Rightarrow> neofoxx_adapter \<Rightarrow> unit res option" where
  "serial_execution k a =
     (if serial_execution_mode a \<noteq> 0 then ret () a
      else
        bind_res (run [neofoxx_sendCommand k (TAP_SW_MTAP k) 0,
                       neofoxx_setMode SET_MODE_TAP_RESET 1,
                       neofoxx_sendCommand k (MTAP_COMMAND k) 0]
                    (a\<lparr>serial_execution_mode := 1\<rparr>)) (\<lambda>_ a1.
        bind_res (neofoxx_xferData (MTAP_COMMAND_DR_NBITS k) (MCHP_STATUS k) 1 1 a1) (\<lambda>status a2.
          if status AND ucast (MCHP_STATUS_CPS k) = 0
          then exit_with (CPS_bit_is_SET (ucast status)) a2
          else bind_res (se_loop k 20 a2) (\<lambda>(status, counter) a3.
                 if counter = 0 then say Couldnt_enter_serial_execution a3 else ret () a3))))"

section \<open>PE command client\<close>

text \<open>
  The first loop of \<open>get_pe_response\<close> has no counter: it reads the control register
  until PrACC is set, so a target that never sets it is the value \<open>None\<close>.
\<close>

partial_function (option) pe_wait :: "pic32_h \<Rightarrow> neofoxx_adapter \<Rightarrow> u32 res option" where
  "pe_wait k a =
     (case neofoxx_xferData 32
             (CONTROL_PRACC k OR CONTROL_PROBEN k OR CONTROL_PROBTRAP k OR CONTROL_EJTAGBRK k) 1 1 a of
        None \<Rightarrow> None
      | Some r \<Rightarrow>
          (case r of
             Exit a1 \<Rightarrow> Some (Exit a1)
           | Ok w a1 \<Rightarrow>
               if (ucast w :: u32) AND CONTROL_PRACC k = 0 then pe_wait k a1
               else Some (Ok (ucast w) a1)))"

declare pe_wait.simps [code]

definition get_pe_response :: "pic32_h \<Rightarrow> neofoxx_adapter \<Rightarrow> u32 res option" where
  "get_pe_response k a =
     bind_res (neofoxx_sendCommand k (ETAP_CONTROL k) 1 a) (\<lambda>_ a1.
     bind_res (pe_wait k a1) (\<lambda>ctl a2.
     bind_res (neofoxx_sendCommand k (ETAP_DATA k) 1 a2) (\<lambda>_ a3.
     bind_res (neofoxx_xferData 32 0 1 1 a3) (\<lambda>w a4.
     bind_res (run [neofoxx_sendCommand k (ETAP_CONTROL k) 1,
                    ignore (neofoxx_xferData 32 (CONTROL_PROBEN k OR CONTROL_PROBTRAP k) 0 1)] a4)
       (\<lambda>_. ret (ucast w :: u32))))))"




abbreviation (input) "WAY_OLD \<equiv> (0 :: u32)"




fun get_pe_words :: "pic32_h \<Rightarrow> nat \<Rightarrow> u32 list \<Rightarrow> neofoxx_adapter \<Rightarrow> u32 list res option" where
  "get_pe_words k 0 data a = ret data a"
| "get_pe_words k (Suc n) data a =
     bind_res (get_pe_response k a) (\<lambda>w a1. get_pe_words k n (data @ [w]) a1)"

definition pe_read_burst :: "pic32_h \<Rightarrow> u32 \<Rightarrow> u32 list \<Rightarrow> neofoxx_adapter \<Rightarrow> u32 list res option" where
  "pe_read_burst k addr data a =
     bind_res (run [neofoxx_sendCommand k (ETAP_FASTDATA k) 1,
                    ignore (neofoxx_xferFastData_PC_slow (push_bit 16 (PE_READ k) OR 32) 0),
                    ignore (neofoxx_xferFastData_PC_slow addr 0)] a) (\<lambda>_ a1.
     bind_res (get_pe_response k a1) (\<lambda>response a2.
       if response \<noteq> push_bit 16 (PE_READ k)
       then exit_with (Bad_READ_response response) a2
       else get_pe_words k 32 data a2))"




definition neofoxx_program_word :: "pic32_h \<Rightarrow> u32 \<Rightarrow> u32 \<Rightarrow> neofoxx_adapter \<Rightarrow> unit res option" where
  "neofoxx_program_word k addr word a =
     (let workaround = (1 :: u32);
          a1 = (if FAMILY_MM = family_name_short a
                then fprintf_stderr Program_word_not_available_on_MM a else a)
      in if use_executive a1 = 0 then exit_with Slow_flash_write_not_implemented a1
         else if WAY_OLD = way a1 \<or> workaround \<noteq> 0 then
           bind_res (run [(\<lambda>a. if workaround \<noteq> 0
                                 then say (Workaround_active ''neofoxx_program_word'') a
                                 else ret () a),
                          neofoxx_sendCommand k (ETAP_FASTDATA k) 1,
                          ignore (neofoxx_xferFastData_PC_slow (push_bit 16 (PE_WORD_PROGRAM k) OR 2) 0),
                          ignore (neofoxx_xferFastData_PC_slow addr 0),
                          ignore (neofoxx_xferFastData_PC_slow word 0)] a1) (\<lambda>_ a2.
           bind_res (get_pe_response k a2) (\<lambda>response a3.
             if response \<noteq> push_bit 16 (PE_WORD_PROGRAM k)
             then exit_with (Failed_to_program_word response) a3
             else ret () a3))
         else say (WAY_NEW_not_implemented ''neofoxx_program_word'') a1)"

definition neofoxx_program_quad_word ::
  "pic32_h \<Rightarrow> u32 \<Rightarrow> u32 \<Rightarrow> u32 \<Rightarrow> u32 \<Rightarrow> u32 \<Rightarrow> neofoxx_adapter \<Rightarrow> unit res option" where
  "neofoxx_program_quad_word k addr word0 word1 word2 word3 a =
     (let workaround = (1 :: u32);
          a1 = (if FAMILY_MK \<noteq> family_name_short a \<and> FAMILY_MZ \<noteq> family_name_short a
                then fprintf_stderr Program_quad_word_only_on_MK_MZ a else a)
      in if use_executive a1 = 0 then exit_with Slow_flash_write_not_implemented a1
         else if WAY_OLD = way a1 \<or> workaround \<noteq> 0 then
           bind_res (run [(\<lambda>a. if workaround \<noteq> 0
                                 then say (Workaround_active ''neofoxx_program_quad_word'') a
                                 else ret () a),
                          neofoxx_sendCommand k (ETAP_FASTDATA k) 1,
                          ignore (neofoxx_xferFastData_PC_slow (push_bit 16 (PE_QUAD_WORD_PGRM k)) 0),
                          ignore (neofoxx_xferFastData_PC_slow addr 0),
                          ignore (neofoxx_xferFastData_PC_slow word0 0),
                          ignore (neofoxx_xferFastData_PC_slow word1 0),
                          ignore (neofoxx_xferFastData_PC_slow word2 0),
                          ignore (neofoxx_xferFastData_PC_slow word3 0)] a1) (\<lambda>_ a2.
           bind_res (get_pe_response k a2) (\<lambda>response a3.
             if response \<noteq> push_bit 16 (PE_QUAD_WORD_PGRM k)
             then exit_with (Failed_to_program_quad_words response) a3
             else ret () a3))
         else say (WAY_NEW_not_implemented ''neofoxx_program_quad_word'') a1)"

section \<open>CRC16 and verification\<close>

definition crc_table :: "u32 list" where
  "crc_table = [0x0000, 0x1021, 0x2042, 0x3063, 0x4084, 0x50a5, 0x60c6, 0x70e7,
                0x8108, 0x9129, 0xa14a, 0xb16b, 0xc18c, 0xd1ad, 0xe1ce, 0xf1ef]"

fun calculate_crc :: "u32 \<Rightarrow> byte list \<Rightarrow> u32" where
  "calculate_crc crc [] = crc AND 0xffff"
| "calculate_crc crc (d # data) =
     (let i = drop_bit 12 crc XOR drop_bit 4 (ucast d);
          crc1 = crc_table ! unat (i AND 0x0F) XOR push_bit 4 crc;
          i1 = drop_bit 12 crc1 XOR drop_bit 0 (ucast d);
          crc2 = crc_table ! unat (i1 AND 0x0F) XOR push_bit 4 crc1
      in calculate_crc crc2 data)"

text \<open>
  \<open>neofoxx_verify_data\<close>. The array \<open>data\<close> is read as the bytes of its words on the
  little-endian host, \<open>nwords * 4\<close> of them (an \<open>unsigned\<close> product).
\<close>

definition bytes_of_words :: "u32 list \<Rightarrow> byte list" where
  "bytes_of_words ws = concat (map le32 ws)"

definition neofoxx_verify_data :: "pic32_h \<Rightarrow> u32 \<Rightarrow> u32 \<Rightarrow> u32 list \<Rightarrow> neofoxx_adapter \<Rightarrow> unit res option" where
  "neofoxx_verify_data k addr nwords data a =
     (let workaround = (1 :: u32) in
      if use_executive a = 0 then exit_with Slow_verify_not_implemented a
      else if WAY_OLD = way a \<or> workaround \<noteq> 0 then
        bind_res (run [(\<lambda>a. if workaround \<noteq> 0
                              then say (Workaround_active ''neofoxx_verify_data'') a
                              else ret () a),
                       neofoxx_sendCommand k (ETAP_FASTDATA k) 1,
                       ignore (neofoxx_xferFastData_PC_slow (push_bit 16 (PE_GET_CRC k)) 0),
                       ignore (neofoxx_xferFastData_PC_slow addr 0),
                       ignore (neofoxx_xferFastData_PC_slow (nwords * 4) 0)] a) (\<lambda>_ a1.
        bind_res (get_pe_response k a1) (\<lambda>response a2.
          if response \<noteq> push_bit 16 (PE_GET_CRC k)
          then exit_with (Failed_to_verify response) a2
          else
            bind_res (get_pe_response k a2) (\<lambda>r a3.
              (let flash_crc = r AND 0xffff;
                   data_crc = calculate_crc 0xffff (take (unat (nwords * 4)) (bytes_of_words data))
               in if flash_crc \<noteq> data_crc
                  then say (Checksum_failed flash_crc data_crc) a3
                  else ret () a3))))
      else say (WAY_NEW_not_implemented ''neofoxx_verify_data'') a)"

section \<open>What the two transport loops do, on any serial line\<close>

lemma upt_split3: "c \<le> n \<Longrightarrow> [pos ..< pos + n] = [pos ..< pos + c] @ [pos + c ..< pos + n]"
  using upt_add_eq_append [of pos "pos + c" "n - c"] by simp

lemma load_bytes_split:
  "c \<le> n \<Longrightarrow> load_bytes m pos n = take c (load_bytes m pos n) @ load_bytes m (pos + c) (n - c)"
  by (simp add: load_bytes_def take_map upt_split3 [of c n pos])

lemma store_bytes_append:
  "store_bytes (store_bytes m off bs) (off + length bs) cs = store_bytes m off (bs @ cs)"
  by (auto simp: store_bytes_def fun_eq_iff nth_append)

lemma store_bytes_Nil: "store_bytes m off [] = m"
  by (auto simp: store_bytes_def fun_eq_iff)

definition write_post :: "nat \<Rightarrow> neofoxx_adapter \<Rightarrow> neofoxx_adapter \<Rightarrow> bool" where
  "write_post position a a' =
     (\<exists>j n. a' = a\<lparr>bytes_to_write := 0,
                   port := (port a)\<lparr>tx := tx (port a) @ load_bytes (output_buf a) position (bytes_to_write a),
                                     wr_calls := j\<rparr>,
                   stderr := stderr a @ replicate n Error_during_writing\<rparr>)"

lemma write_loop_frame:
  assumes "write_loop position a = Some a'"
  shows "write_post position a a'"
proof (rule write_loop.raw_induct [where P = write_post, OF _ assms])
  fix wl :: "nat \<Rightarrow> neofoxx_adapter \<Rightarrow> neofoxx_adapter option" and position a a'
  assume IH: "\<And>p b y. wl p b = Some y \<Longrightarrow> write_post p b y"
  assume step: "(if 0 < bytes_to_write a
      then case serial_write (port a) (load_bytes (output_buf a) position (bytes_to_write a)) of
           (temp, p) \<Rightarrow>
             if temp < 0
             then wl position (a\<lparr>port := p, stderr := stderr a @ [Error_during_writing]\<rparr>)
             else wl (position + nat temp) (a\<lparr>port := p, bytes_to_write := bytes_to_write a - nat temp\<rparr>)
      else Some a) = Some a'"
  show "write_post position a a'"
  proof (cases "0 < bytes_to_write a")
    case False
    with step have "a' = a" and "bytes_to_write a = 0" by simp_all
    then have "a' = a\<lparr>bytes_to_write := 0,
                   port := (port a)\<lparr>tx := tx (port a) @ load_bytes (output_buf a) position (bytes_to_write a),
                                     wr_calls := wr_calls (port a)\<rparr>,
                   stderr := stderr a @ replicate 0 Error_during_writing\<rparr>"
      by (simp add: load_bytes_def)
    then show ?thesis unfolding write_post_def by blast
  next
    case True
    let ?r = "wr_result (port a) (wr_calls (port a))"
    show ?thesis
    proof (cases "?r < 0")
      case neg: True
      with step True
      have "wl position (a\<lparr>port := (port a)\<lparr>wr_calls := Suc (wr_calls (port a))\<rparr>,
                             stderr := stderr a @ [Error_during_writing]\<rparr>) = Some a'"
        by (simp add: serial_write_def)
      from IH [OF this] obtain j n where
        "a' = a\<lparr>bytes_to_write := 0,
                 port := (port a)\<lparr>tx := tx (port a) @ load_bytes (output_buf a) position (bytes_to_write a),
                                   wr_calls := j\<rparr>,
                 stderr := stderr a @ replicate (Suc n) Error_during_writing\<rparr>"
        unfolding write_post_def by auto
      then show ?thesis unfolding write_post_def by blast
    next
      case pos: False
      let ?c = "min (nat ?r) (bytes_to_write a)"
      have len: "length (load_bytes (output_buf a) position (bytes_to_write a)) = bytes_to_write a"
        by (simp add: load_bytes_def)
      from step True pos
      have "wl (position + ?c)
               (a\<lparr>port := (port a)\<lparr>tx := tx (port a) @ take ?c (load_bytes (output_buf a) position (bytes_to_write a)),
                                    wr_calls := Suc (wr_calls (port a))\<rparr>,
                   bytes_to_write := bytes_to_write a - ?c\<rparr>) = Some a'"
        by (simp add: serial_write_def Let_def len)
      from IH [OF this] obtain j n where
        "a' = a\<lparr>bytes_to_write := 0,
                 port := (port a)\<lparr>tx := tx (port a) @ (take ?c (load_bytes (output_buf a) position (bytes_to_write a))
                                          @ load_bytes (output_buf a) (position + ?c) (bytes_to_write a - ?c)),
                                   wr_calls := j\<rparr>,
                 stderr := stderr a @ replicate n Error_during_writing\<rparr>"
        unfolding write_post_def by auto
      moreover have "take ?c (load_bytes (output_buf a) position (bytes_to_write a))
                       @ load_bytes (output_buf a) (position + ?c) (bytes_to_write a - ?c)
                     = load_bytes (output_buf a) position (bytes_to_write a)"
        by (rule load_bytes_split [symmetric]) simp
      ultimately show ?thesis unfolding write_post_def by auto
    qed
  qed
qed

definition reply :: "port \<Rightarrow> nat \<Rightarrow> byte list" where
  "reply p n = map (rx p) [rx_pos p ..< rx_pos p + n]"

definition read_post :: "neofoxx_adapter \<Rightarrow> neofoxx_adapter \<Rightarrow> bool" where
  "read_post a a' =
     (\<exists>j. a' = a\<lparr>input_buf := store_bytes (input_buf a) (bytes_in_buffer a)
                                 (reply (port a) (bytes_to_read a - bytes_in_buffer a)),
                 bytes_in_buffer := bytes_in_buffer a + (bytes_to_read a - bytes_in_buffer a),
                 port := (port a)\<lparr>rx_pos := rx_pos (port a) + (bytes_to_read a - bytes_in_buffer a),
                                   rd_calls := j\<rparr>\<rparr>)"

lemma reply_split:
  "c \<le> n \<Longrightarrow> reply p n = reply p c @ reply (p\<lparr>rx_pos := rx_pos p + c, rd_calls := j\<rparr>) (n - c)"
  by (simp add: reply_def upt_split3 [of c n "rx_pos p"])

lemma read_loop_frame:
  assumes "read_loop a = Some a'"
  shows "read_post a a'"
proof (rule read_loop.raw_induct [where P = read_post, OF _ assms])
  fix rl :: "neofoxx_adapter \<Rightarrow> neofoxx_adapter option" and a a'
  assume IH: "\<And>b y. rl b = Some y \<Longrightarrow> read_post b y"
  assume step: "(if bytes_in_buffer a < bytes_to_read a
      then case serial_read (port a) (bytes_to_read a - bytes_in_buffer a) of
           (bs, p) \<Rightarrow>
             rl (a\<lparr>input_buf := store_bytes (input_buf a) (bytes_in_buffer a) bs,
                   bytes_in_buffer := bytes_in_buffer a + length bs,
                   port := p\<rparr>)
      else Some a) = Some a'"
  show "read_post a a'"
  proof (cases "bytes_in_buffer a < bytes_to_read a")
    case False
    with step have "a' = a" and "bytes_to_read a - bytes_in_buffer a = 0" by simp_all
    then have "a' = a\<lparr>input_buf := store_bytes (input_buf a) (bytes_in_buffer a)
                                 (reply (port a) (bytes_to_read a - bytes_in_buffer a)),
                 bytes_in_buffer := bytes_in_buffer a + (bytes_to_read a - bytes_in_buffer a),
                 port := (port a)\<lparr>rx_pos := rx_pos (port a) + (bytes_to_read a - bytes_in_buffer a),
                                   rd_calls := rd_calls (port a)\<rparr>\<rparr>"
      by (simp add: reply_def store_bytes_Nil)
    then show ?thesis unfolding read_post_def by blast
  next
    case True
    let ?n = "bytes_to_read a - bytes_in_buffer a"
    let ?c = "min (rd_avail (port a) (rd_calls (port a))) ?n"
    let ?p = "(port a)\<lparr>rx_pos := rx_pos (port a) + ?c, rd_calls := Suc (rd_calls (port a))\<rparr>"
    have rd: "serial_read (port a) ?n = (reply (port a) ?c, ?p)"
      by (simp add: serial_read_def reply_def Let_def)
    have len: "length (reply (port a) ?c) = ?c"
      by (simp add: reply_def)
    from step True rd
    have "rl (a\<lparr>input_buf := store_bytes (input_buf a) (bytes_in_buffer a) (reply (port a) ?c),
                 bytes_in_buffer := bytes_in_buffer a + ?c,
                 port := ?p\<rparr>) = Some a'"
      by (simp add: len)
    from IH [OF this] obtain j where
      eq: "a' = a\<lparr>input_buf := store_bytes (store_bytes (input_buf a) (bytes_in_buffer a) (reply (port a) ?c))
                        (bytes_in_buffer a + ?c) (reply ?p (bytes_to_read a - (bytes_in_buffer a + ?c))),
                   bytes_in_buffer := bytes_in_buffer a + ?c + (bytes_to_read a - (bytes_in_buffer a + ?c)),
                   port := (port a)\<lparr>rx_pos := rx_pos (port a) + ?c + (bytes_to_read a - (bytes_in_buffer a + ?c)),
                                     rd_calls := j\<rparr>\<rparr>"
      unfolding read_post_def by auto
    have n2: "bytes_to_read a - (bytes_in_buffer a + ?c) = ?n - ?c"
      by simp
    have sp: "reply (port a) ?n = reply (port a) ?c @ reply ?p (?n - ?c)"
      by (rule reply_split) simp
    have st: "store_bytes (store_bytes (input_buf a) (bytes_in_buffer a) (reply (port a) ?c))
                (bytes_in_buffer a + ?c) (reply ?p (?n - ?c))
              = store_bytes (input_buf a) (bytes_in_buffer a) (reply (port a) ?n)"
      using store_bytes_append [of "input_buf a" "bytes_in_buffer a" "reply (port a) ?c" "reply ?p (?n - ?c)"]
      by (simp only: len sp)
    have le: "?c + (?n - ?c) = ?n" by simp
    have "a' = a\<lparr>input_buf := store_bytes (input_buf a) (bytes_in_buffer a) (reply (port a) ?n),
                 bytes_in_buffer := bytes_in_buffer a + ?n,
                 port := (port a)\<lparr>rx_pos := rx_pos (port a) + ?n, rd_calls := j\<rparr>\<rparr>"
      by (subst eq, simp only: n2 st add.assoc le)
    then show ?thesis unfolding read_post_def by blast
  qed
qed

section \<open>Arithmetic of the length field and of the checksum\<close>

lemma and255: "(x::nat) AND 255 = x mod 256"
proof -
  have "x AND mask 8 = x mod 256"
    by (simp add: take_bit_eq_mod flip: take_bit_eq_mask)
  then show ?thesis by (simp add: mask_eq_exp_minus_1)
qed

lemma lo_byte: "unat (ucast (w AND 0xFF) :: byte) = unat w mod 256" for w :: u16
  by (simp add: unsigned_ucast_eq unsigned_and_eq take_bit_eq_mod and255)

lemma hi_byte: "unat (ucast (drop_bit 8 w) :: byte) = unat w div 256" for w :: u16
proof -
  have "unat w < 2 ^ LENGTH(16)" by (rule unsigned_less)
  then have "unat w div 256 < 256" by simp
  then show ?thesis
    by (simp add: unsigned_ucast_eq take_bit_eq_mod drop_bit_eq_div unat_div)
qed

lemma lohi: "unat (ucast (w AND 0xFF) :: byte) + 256 * unat (ucast (drop_bit 8 w) :: byte) = unat (w :: u16)"
  by (simp add: lo_byte hi_byte)

lemma fold_add: "fold (\<lambda>c (crc :: u32). crc + f c) xs s = s + sum_list (map f xs)"
  by (induction xs arbitrary: s) (simp_all add: add.assoc)

lemma unat_sum_u32: "unat (sum_list (map ucast (bs :: byte list)) :: u32) = sum_list (map unat bs) mod 2 ^ 32"
proof (induction bs)
  case Nil
  show ?case by simp
next
  case (Cons b bs)
  have "unat b < 2 ^ LENGTH(8)" by (rule unsigned_less)
  then have "unat (ucast b :: u32) = unat b"
    by (simp add: unsigned_ucast_eq take_bit_eq_mod)
  with Cons show ?case
    by (simp add: unat_word_ariths mod_add_right_eq)
qed

lemma cks_byte: "unat (ucast (s AND 0xFF) :: byte) = unat s mod 256" for s :: u32
  by (simp add: unsigned_ucast_eq unsigned_and_eq take_bit_eq_mod and255)

section \<open>What a flush does\<close>

definition packet_of :: "neofoxx_adapter \<Rightarrow> byte list" where
  "packet_of a = load_bytes (output_buf (seal_packet a)) 0 (bytes_to_write a + 1)"

definition flush_post :: "neofoxx_adapter \<Rightarrow> neofoxx_adapter \<Rightarrow> bool" where
  "flush_post a a' =
     (\<exists>j j' n.
        a' = a\<lparr>output_buf := output_buf (seal_packet a),
               bytes_to_write := 0,
               input_buf := (if bytes_to_read a = 0 then input_buf a
                             else store_bytes (input_buf a) 0 (reply (port a) (bytes_to_read a))),
               bytes_to_read := 0,
               bytes_in_buffer := (if bytes_to_read a = 0 then bytes_in_buffer a else bytes_to_read a),
               current_pos_input := (if bytes_to_read a = 0 then current_pos_input a else 0),
               port := (port a)\<lparr>tx := tx (port a) @ packet_of a, wr_calls := j,
                                 rx_pos := rx_pos (port a) + bytes_to_read a, rd_calls := j'\<rparr>,
               stderr := stderr a @ replicate n Error_during_writing\<rparr>)"

lemma reply_tx [simp]: "reply (p\<lparr>tx := t, wr_calls := j\<rparr>) n = reply p n"
  by (simp add: reply_def)

lemma flush_frame:
  assumes fl: "neofoxx_flush_output a = Some a'" and big: "4 \<le> bytes_to_write a"
  shows "flush_post a a'"
proof -
  from fl big obtain a1 where w: "write_loop 0 (seal_packet a) = Some a1"
    by (auto simp: neofoxx_flush_output_def bulk_write_def split: option.splits if_splits)
  from write_loop_frame [OF w] obtain j n where
    a1: "a1 = (seal_packet a)\<lparr>bytes_to_write := 0,
                 port := (port (seal_packet a))\<lparr>tx := tx (port (seal_packet a)) @ packet_of a, wr_calls := j\<rparr>,
                 stderr := stderr (seal_packet a) @ replicate n Error_during_writing\<rparr>"
    unfolding write_post_def packet_of_def by (auto simp: seal_packet_def Let_def)
  have sp: "seal_packet a = a\<lparr>output_buf := output_buf (seal_packet a), bytes_to_write := bytes_to_write a + 1\<rparr>"
    by (simp add: seal_packet_def Let_def)
  show ?thesis
  proof (cases "bytes_to_read a = 0")
    case True
    with fl big w have "a' = a1\<lparr>bytes_to_write := 0\<rparr>"
      by (simp add: neofoxx_flush_output_def bulk_write_def a1 seal_packet_def Let_def)
    then have "a' = a\<lparr>output_buf := output_buf (seal_packet a),
               bytes_to_write := 0,
               input_buf := (if bytes_to_read a = 0 then input_buf a
                             else store_bytes (input_buf a) 0 (reply (port a) (bytes_to_read a))),
               bytes_to_read := 0,
               bytes_in_buffer := (if bytes_to_read a = 0 then bytes_in_buffer a else bytes_to_read a),
               current_pos_input := (if bytes_to_read a = 0 then current_pos_input a else 0),
               port := (port a)\<lparr>tx := tx (port a) @ packet_of a, wr_calls := j,
                                 rx_pos := rx_pos (port a) + bytes_to_read a, rd_calls := rd_calls (port a)\<rparr>,
               stderr := stderr a @ replicate n Error_during_writing\<rparr>"
      using True by (subst (asm) a1, subst (asm) sp) (simp add: seal_packet_def Let_def)
    then show ?thesis unfolding flush_post_def by blast
  next
    case False
    with fl big w obtain a3 where r: "read_loop (a1\<lparr>bytes_to_write := 0, bytes_in_buffer := 0\<rparr>) = Some a3"
      and a': "a' = a3\<lparr>bytes_to_read := 0, current_pos_input := 0\<rparr>"
      by (auto simp: neofoxx_flush_output_def bulk_write_def a1 seal_packet_def Let_def split: option.splits)
    from read_loop_frame [OF r] obtain j' where
      "a3 = (a1\<lparr>bytes_to_write := 0, bytes_in_buffer := 0\<rparr>)
              \<lparr>input_buf := store_bytes (input_buf a) 0 (reply (port a) (bytes_to_read a)),
               bytes_in_buffer := bytes_to_read a,
               port := (port a1)\<lparr>rx_pos := rx_pos (port a) + bytes_to_read a, rd_calls := j'\<rparr>\<rparr>"
      unfolding read_post_def by (auto simp: a1 seal_packet_def Let_def)
    with a' False have "a' = a\<lparr>output_buf := output_buf (seal_packet a),
               bytes_to_write := 0,
               input_buf := (if bytes_to_read a = 0 then input_buf a
                             else store_bytes (input_buf a) 0 (reply (port a) (bytes_to_read a))),
               bytes_to_read := 0,
               bytes_in_buffer := (if bytes_to_read a = 0 then bytes_in_buffer a else bytes_to_read a),
               current_pos_input := (if bytes_to_read a = 0 then current_pos_input a else 0),
               port := (port a)\<lparr>tx := tx (port a) @ packet_of a, wr_calls := j,
                                 rx_pos := rx_pos (port a) + bytes_to_read a, rd_calls := j'\<rparr>,
               stderr := stderr a @ replicate n Error_during_writing\<rparr>"
      by (simp add: a1 seal_packet_def Let_def)
    then show ?thesis unfolding flush_post_def by blast
  qed
qed

text \<open>
  A prompt line takes every packet in one \<open>serial_write\<close> and delivers every reply in
  one \<open>serial_read\<close>. On such a line both loops end after one pass.
\<close>

definition prompt :: "port \<Rightarrow> bool" where
  "prompt p = ((\<forall>i. 2048 \<le> wr_result p i) \<and> (\<forall>i. 2048 \<le> rd_avail p i))"

lemma write_loop_prompt:
  assumes "prompt (port a)" "0 < bytes_to_write a" "bytes_to_write a \<le> 2048"
  shows "write_loop position a =
           Some (a\<lparr>port := (port a)\<lparr>tx := tx (port a) @ load_bytes (output_buf a) position (bytes_to_write a),
                                   wr_calls := Suc (wr_calls (port a))\<rparr>,
                   bytes_to_write := 0\<rparr>)"
proof -
  have r: "2048 \<le> wr_result (port a) (wr_calls (port a))"
    using assms(1) by (simp add: prompt_def)
  have len: "length (load_bytes (output_buf a) position (bytes_to_write a)) = bytes_to_write a"
    by (simp add: load_bytes_def)
  from r assms(3) have m: "min (nat (wr_result (port a) (wr_calls (port a)))) (bytes_to_write a) = bytes_to_write a"
    by simp
  from r have nn: "\<not> wr_result (port a) (wr_calls (port a)) < 0" by simp
  have sw: "serial_write (port a) (load_bytes (output_buf a) position (bytes_to_write a))
            = (int (bytes_to_write a),
               (port a)\<lparr>tx := tx (port a) @ load_bytes (output_buf a) position (bytes_to_write a),
                        wr_calls := Suc (wr_calls (port a))\<rparr>)"
    by (simp add: serial_write_def Let_def nn len m)
  show ?thesis
    by (subst write_loop.simps, simp add: assms(2) sw, subst write_loop.simps, simp)
qed

lemma read_loop_prompt:
  assumes "prompt (port a)" "bytes_in_buffer a < bytes_to_read a" "bytes_to_read a - bytes_in_buffer a \<le> 2048"
  shows "read_loop a =
           Some (a\<lparr>input_buf := store_bytes (input_buf a) (bytes_in_buffer a)
                                 (reply (port a) (bytes_to_read a - bytes_in_buffer a)),
                   bytes_in_buffer := bytes_to_read a,
                   port := (port a)\<lparr>rx_pos := rx_pos (port a) + (bytes_to_read a - bytes_in_buffer a),
                                     rd_calls := Suc (rd_calls (port a))\<rparr>\<rparr>)"
proof -
  have r: "2048 \<le> rd_avail (port a) (rd_calls (port a))"
    using assms(1) by (simp add: prompt_def)
  with assms(3) have m: "min (rd_avail (port a) (rd_calls (port a))) (bytes_to_read a - bytes_in_buffer a)
                         = bytes_to_read a - bytes_in_buffer a"
    by simp
  have sr: "serial_read (port a) (bytes_to_read a - bytes_in_buffer a)
            = (reply (port a) (bytes_to_read a - bytes_in_buffer a),
               (port a)\<lparr>rx_pos := rx_pos (port a) + (bytes_to_read a - bytes_in_buffer a),
                        rd_calls := Suc (rd_calls (port a))\<rparr>)"
    by (simp add: serial_read_def Let_def m reply_def)
  have len: "length (reply (port a) (bytes_to_read a - bytes_in_buffer a)) = bytes_to_read a - bytes_in_buffer a"
    by (simp add: reply_def)
  from assms(2) have s: "bytes_in_buffer a + (bytes_to_read a - bytes_in_buffer a) = bytes_to_read a"
    by simp
  show ?thesis
    by (subst read_loop.simps, simp add: assms(2) sr len s, subst read_loop.simps, simp)
qed

definition flushed_state :: "neofoxx_adapter \<Rightarrow> neofoxx_adapter" where
  "flushed_state a =
     a\<lparr>output_buf := output_buf (seal_packet a),
       bytes_to_write := 0,
       input_buf := (if bytes_to_read a = 0 then input_buf a
                     else store_bytes (input_buf a) 0 (reply (port a) (bytes_to_read a))),
       bytes_to_read := 0,
       bytes_in_buffer := (if bytes_to_read a = 0 then bytes_in_buffer a else bytes_to_read a),
       current_pos_input := (if bytes_to_read a = 0 then current_pos_input a else 0),
       port := (port a)\<lparr>tx := tx (port a) @ packet_of a,
                         wr_calls := Suc (wr_calls (port a)),
                         rx_pos := rx_pos (port a) + bytes_to_read a,
                         rd_calls := (if bytes_to_read a = 0 then rd_calls (port a)
                                      else Suc (rd_calls (port a)))\<rparr>\<rparr>"

lemma flush_prompt:
  assumes "prompt (port a)" "4 \<le> bytes_to_write a" "bytes_to_write a < 2048" "bytes_to_read a \<le> 2048"
  shows "neofoxx_flush_output a = Some (flushed_state a)"
proof -
  let ?s = "seal_packet a"
  have ps: "prompt (port ?s)" "0 < bytes_to_write ?s" "bytes_to_write ?s \<le> 2048"
    using assms by (simp_all add: seal_packet_def Let_def)
  note w = write_loop_prompt [OF ps, of 0]
  show ?thesis
  proof (cases "bytes_to_read a = 0")
    case True
    with assms w show ?thesis
      by (simp add: neofoxx_flush_output_def bulk_write_def flushed_state_def packet_of_def)
         (simp add: seal_packet_def Let_def)
  next
    case False
    let ?b = "?s\<lparr>port := (port ?s)\<lparr>tx := tx (port ?s) @ load_bytes (output_buf ?s) 0 (bytes_to_write ?s),
                                   wr_calls := Suc (wr_calls (port ?s))\<rparr>,
                   bytes_to_write := 0, bytes_to_write := 0, bytes_in_buffer := 0\<rparr>"
    have pb: "prompt (port ?b)" "bytes_in_buffer ?b < bytes_to_read ?b"
             "bytes_to_read ?b - bytes_in_buffer ?b \<le> 2048"
      using assms False by (simp_all add: seal_packet_def Let_def prompt_def)
    note r = read_loop_prompt [OF pb]
    from assms False w r show ?thesis
      by (simp add: neofoxx_flush_output_def bulk_write_def flushed_state_def packet_of_def Let_def)
         (simp add: seal_packet_def Let_def)
  qed
qed

text \<open>
  Concrete inputs for evaluation: the values that Microchip's programming specification
  gives to the constants of \<open>pic32.h\<close>, and a zero-initialised adapter (as
  \<open>calloc\<close> leaves it) on a prompt line with a given reply stream.
\<close>

definition pic32_values :: pic32_h where
  "pic32_values =
     \<lparr>MTAP_COMMAND = 7, TAP_SW_MTAP = 4, TAP_SW_ETAP = 5, MTAP_IDCODE = 1,
      ETAP_ADDRESS = 8, ETAP_DATA = 9, ETAP_CONTROL = 10, ETAP_EJTAGBOOT = 12,
      ETAP_FASTDATA = 14, ETAP_NORMALBOOT = 13,
      MTAP_COMMAND_NBITS = 5, ETAP_COMMAND_NBITS = 5, MTAP_COMMAND_DR_NBITS = 8,
      MCHP_STATUS = 0x00, MCHP_ASSERT_RST = 0xd1, MCHP_DEASSERT_RST = 0xd0,
      MCHP_FLASH_ENABLE = 0xfe, MCHP_STATUS_CPS = 0x80,
      CONTROL_PRACC = 0x40000, CONTROL_PROBEN = 0x8000, CONTROL_PROBTRAP = 0x4000,
      CONTROL_EJTAGBRK = 0x1000,
      PE_READ = 1, PE_WORD_PROGRAM = 3, PE_QUAD_WORD_PGRM = 13, PE_GET_CRC = 8\<rparr>"

definition prompt_line :: "(nat \<Rightarrow> byte) \<Rightarrow> port" where
  "prompt_line r = \<lparr>tx = [], wr_result = (\<lambda>_. 4096), wr_calls = 0, rx = r, rx_pos = 0,
                    rd_avail = (\<lambda>_. 4096), rd_calls = 0\<rparr>"

definition bench :: "iface \<Rightarrow> family \<Rightarrow> (nat \<Rightarrow> byte) \<Rightarrow> neofoxx_adapter" where
  "bench i f r =
     \<lparr>output_buf = (\<lambda>_. 0), bytes_to_write = 0, input_buf = (\<lambda>_. 0), bytes_to_read = 0,
      bytes_in_buffer = 0, current_pos_input = 0, interface = i, family_name_short = f,
      use_executive = 0, serial_execution_mode = 0, way = 0, port = prompt_line r, stderr = []\<rparr>"

lemma prompt_bench [simp]: "prompt (port (bench i f r))"
  by (simp add: bench_def prompt_line_def prompt_def)

lemma flush_short:
  assumes fl: "neofoxx_flush_output a = Some a'" and nz: "bytes_to_write a \<noteq> 0" and short: "bytes_to_write a < 4"
  shows "bytes_to_write a' = 0 \<and> bytes_to_read a' = 0 \<and>
         (if bytes_to_read a = 0
          then current_pos_input a' = current_pos_input a \<and> input_buf a' = input_buf a
          else current_pos_input a' = 0)"
proof (cases "bytes_to_read a = 0")
  case True
  with fl nz short show ?thesis
    by (auto simp: neofoxx_flush_output_def bulk_write_def)
next
  case False
  with fl nz short obtain a3 where a': "a' = a3\<lparr>bytes_to_read := 0, current_pos_input := 0\<rparr>"
    and "read_loop (a\<lparr>stderr := stderr a @ [Less_than_4_bytes], bytes_to_write := 0, bytes_in_buffer := 0\<rparr>) = Some a3"
    by (auto simp: neofoxx_flush_output_def bulk_write_def split: option.splits)
  from read_loop_frame [OF this(2)] have "bytes_to_write a3 = 0"
    unfolding read_post_def by auto
  with a' False show ?thesis by simp
qed

text \<open>
  Claim C5, as the code has it. A flush of an empty outbound buffer changes no field. A
  flush of a non-empty outbound buffer that returns leaves the outbound buffer empty and
  the expected-reply length zero; the read cursor is reset to zero when a reply was
  expected, and when no reply was expected (\<open>bytes_to_read\<close> was zero) the function
  returns before the reset, so the cursor and the inbound buffer are as they were.
\<close>

theorem flush_output_effect:
  "neofoxx_flush_output (a\<lparr>bytes_to_write := 0\<rparr>) = Some (a\<lparr>bytes_to_write := 0\<rparr>) \<and>
   (bytes_to_write a \<noteq> 0 \<and> neofoxx_flush_output a = Some a' \<longrightarrow>
      bytes_to_write a' = 0 \<and> bytes_to_read a' = 0 \<and>
      (if bytes_to_read a = 0
       then current_pos_input a' = current_pos_input a \<and> input_buf a' = input_buf a
       else current_pos_input a' = 0))"
proof (rule conjI [OF _ impI])
  show "neofoxx_flush_output (a\<lparr>bytes_to_write := 0\<rparr>) = Some (a\<lparr>bytes_to_write := 0\<rparr>)"
    by (simp add: neofoxx_flush_output_def)
next
  assume h: "bytes_to_write a \<noteq> 0 \<and> neofoxx_flush_output a = Some a'"
  show "bytes_to_write a' = 0 \<and> bytes_to_read a' = 0 \<and>
      (if bytes_to_read a = 0
       then current_pos_input a' = current_pos_input a \<and> input_buf a' = input_buf a
       else current_pos_input a' = 0)"
  proof (cases "4 \<le> bytes_to_write a")
    case True
    from flush_frame [OF conjunct2 [OF h] True] show ?thesis
      unfolding flush_post_def by auto
  next
    case False
    with h flush_short [of a a'] show ?thesis by simp
  qed
qed

text \<open>
  A pin request queued on an adapter whose cursor stands at 8, as it does after one
  64-bit reply has been consumed: no reply is expected.
\<close>

definition pin_request :: "neofoxx_adapter" where
  "pin_request =
     add_to_packet [COMMAND_SET_PIN_IO_MODE, 4, PIN_SET_OUTPUT_LOW]
       ((bench INTERFACE_JTAG FAMILY_MX1 (\<lambda>_. 0))\<lparr>current_pos_input := 8\<rparr>)"

lemma pin_request_fields:
  "bytes_to_write pin_request = 6" "bytes_to_read pin_request = 0"
  "current_pos_input pin_request = 8" "prompt (port pin_request)"
  by (simp_all add: pin_request_def add_to_packet_def bench_def prompt_line_def prompt_def)

lemma pin_request_flush: "neofoxx_flush_output pin_request = Some (flushed_state pin_request)"
  by (rule flush_prompt) (simp_all add: pin_request_fields)

theorem flush_output_effect_witness:
  "bytes_to_write pin_request = 6 \<and>
   neofoxx_flush_output pin_request = Some (flushed_state pin_request) \<and>
   bytes_to_write (flushed_state pin_request) = 0 \<and>
   bytes_to_read (flushed_state pin_request) = 0 \<and>
   current_pos_input (flushed_state pin_request) = current_pos_input pin_request"
  using flush_output_effect [of pin_request "flushed_state pin_request"] pin_request_flush
  by (simp add: pin_request_fields)

text \<open>
  The claim as stated has the cursor reset to zero also when no reply was expected; on
  the pin request the flush leaves it at 8.
\<close>

theorem flush_cursor_counterexample:
  "bytes_to_write pin_request \<noteq> 0 \<and>
   map_option current_pos_input (neofoxx_flush_output pin_request) = Some 8"
  by (simp add: pin_request_flush pin_request_fields flushed_state_def)

section \<open>The packet on the wire\<close>

text \<open>
  The outbound buffer is filled by \<open>add_to_packet\<close> only: \<open>queue chunks\<close> is a
  sequence of such calls, and \<open>holds a payload\<close> says that the buffer consists of the
  sync byte, the two length bytes still zero, and the payload.
\<close>

definition queue :: "byte list list \<Rightarrow> neofoxx_adapter \<Rightarrow> neofoxx_adapter" where
  "queue chunks a = fold add_to_packet chunks a"

definition holds :: "neofoxx_adapter \<Rightarrow> byte list \<Rightarrow> bool" where
  "holds a payload =
     (bytes_to_write a = 3 + length payload
      \<and> load_bytes (output_buf a) 0 (3 + length payload) = [PACKET_BYTE, 0, 0] @ payload)"

lemma load_store_bytes:
  "load_bytes (store_bytes m n d) 0 (n + length d) = load_bytes m 0 n @ d"
proof (rule nth_equalityI)
  show "length (load_bytes (store_bytes m n d) 0 (n + length d)) = length (load_bytes m 0 n @ d)"
    by (simp add: load_bytes_def)
next
  fix i
  assume "i < length (load_bytes (store_bytes m n d) 0 (n + length d))"
  then have i: "i < n + length d" by (simp add: load_bytes_def)
  show "load_bytes (store_bytes m n d) 0 (n + length d) ! i = (load_bytes m 0 n @ d) ! i"
  proof (cases "i < n")
    case True
    with i show ?thesis by (simp add: load_bytes_def store_bytes_def nth_append)
  next
    case False
    with i show ?thesis by (simp add: load_bytes_def store_bytes_def nth_append)
  qed
qed

lemma load_bytes_upd:
  "load_bytes (m(i := v)) 0 n = (load_bytes m 0 n)[i := v]"
proof (rule nth_equalityI)
  show "length (load_bytes (m(i := v)) 0 n) = length ((load_bytes m 0 n)[i := v])"
    by (simp add: load_bytes_def)
next
  fix j
  assume "j < length (load_bytes (m(i := v)) 0 n)"
  then have "j < n" by (simp add: load_bytes_def)
  then show "load_bytes (m(i := v)) 0 n ! j = (load_bytes m 0 n)[i := v] ! j"
    by (simp add: load_bytes_def nth_list_update)
qed

lemma holds_first: "bytes_to_write a = 0 \<Longrightarrow> holds (add_to_packet d a) d"
proof -
  assume z: "bytes_to_write a = 0"
  have "load_bytes ((output_buf a)(0 := PACKET_BYTE, 1 := 0, 2 := 0)) 0 3 = [PACKET_BYTE, 0, 0]"
    by (simp add: load_bytes_def upt_rec)
  with z load_store_bytes [of "(output_buf a)(0 := PACKET_BYTE, 1 := 0, 2 := 0)" 3 d]
  show ?thesis
    by (simp add: holds_def add_to_packet_def Let_def)
qed

lemma holds_next: "holds a payload \<Longrightarrow> holds (add_to_packet d a) (payload @ d)"
proof -
  assume h: "holds a payload"
  then have nz: "bytes_to_write a \<noteq> 0" and n: "bytes_to_write a = 3 + length payload"
    by (simp_all add: holds_def)
  from h load_store_bytes [of "output_buf a" "3 + length payload" d]
  show ?thesis
    by (simp add: holds_def add_to_packet_def Let_def nz n add.assoc)
qed

lemma holds_fold: "holds a payload \<Longrightarrow> holds (fold add_to_packet chunks a) (payload @ concat chunks)"
proof (induction chunks arbitrary: a payload)
  case Nil
  then show ?case by simp
next
  case (Cons d chunks)
  from Cons.IH [OF holds_next [OF Cons.prems, of d]] show ?case by simp
qed

lemma holds_queue:
  "bytes_to_write a = 0 \<Longrightarrow> chunks \<noteq> [] \<Longrightarrow> holds (queue chunks a) (concat chunks)"
proof -
  assume z: "bytes_to_write a = 0" and ne: "chunks \<noteq> []"
  then obtain d ds where c: "chunks = d # ds" by (cases chunks) auto
  from holds_fold [OF holds_first [OF z, of d], of ds] show ?thesis
    by (simp add: queue_def c)
qed

lemma add_to_packet_rest:
  "bytes_to_read (add_to_packet d a) = bytes_to_read a"
  "port (add_to_packet d a) = port a"
  "stderr (add_to_packet d a) = stderr a"
  by (simp_all add: add_to_packet_def Let_def)

lemma queue_rest:
  "bytes_to_read (queue chunks a) = bytes_to_read a \<and> port (queue chunks a) = port a"
  unfolding queue_def by (induction chunks arbitrary: a) (simp_all add: add_to_packet_rest)

text \<open>The packet that a flush hands to the line, for a buffer that holds a payload.\<close>

lemma packet_sum_holds:
  assumes "holds a payload"
  shows "packet_sum a = sum_list (map ucast payload)"
proof -
  from assms have n: "bytes_to_write a = 3 + length payload"
    and l: "load_bytes (output_buf a) 0 (3 + length payload) = [PACKET_BYTE, 0, 0] @ payload"
    by (simp_all add: holds_def)
  have "map (output_buf a) [2 ..< 3 + length payload] = drop 2 (load_bytes (output_buf a) 0 (3 + length payload))"
    by (simp add: load_bytes_def drop_map numeral_2_eq_2)
  also have "\<dots> = 0 # payload" by (simp add: l)
  finally have "map (\<lambda>c. (ucast (output_buf a c) :: u32)) [2 ..< 3 + length payload] = map ucast (0 # payload)"
    by (simp flip: map_map [of ucast "output_buf a", unfolded comp_def])
  then show ?thesis
    by (simp add: packet_sum_def fold_add n)
qed

lemma packet_of_holds:
  assumes "holds a payload"
  shows "packet_of a =
           [PACKET_BYTE,
            ucast ((of_nat (length payload + 1) :: u16) AND 0xFF),
            ucast (drop_bit 8 (of_nat (length payload + 1) :: u16))]
           @ payload @ [ucast ((sum_list (map ucast payload) :: u32) AND 0xFF)]"
proof -
  define n where "n = 3 + length payload"
  define lo :: byte where "lo = ucast ((of_nat (length payload + 1) :: u16) AND 0xFF)"
  define hi :: byte where "hi = ucast (drop_bit 8 (of_nat (length payload + 1) :: u16))"
  define c :: byte where "c = ucast ((sum_list (map ucast payload) :: u32) AND 0xFF)"
  from assms have btw: "bytes_to_write a = n"
    and l: "load_bytes (output_buf a) 0 n = [PACKET_BYTE, 0, 0] @ payload"
    by (simp_all add: holds_def n_def)
  have st: "(of_nat (Suc n) - 3 :: u16) = of_nat (Suc (length payload))"
    by (simp add: n_def)
  have ob: "output_buf (seal_packet a) = (output_buf a)(n := c, 2 := hi, 1 := lo)"
    unfolding seal_packet_def Let_def
    by (simp add: btw packet_sum_holds [OF assms] c_def hi_def lo_def st del: of_nat_add of_nat_Suc)
  have "[0 ..< Suc n] = [0 ..< n] @ [n]"
    by (rule upt_Suc_append) simp
  then have "load_bytes (output_buf a) 0 (Suc n) = load_bytes (output_buf a) 0 n @ [output_buf a n]"
    by (simp only: load_bytes_def add_0 map_append list.map)
  then have l1: "load_bytes (output_buf a) 0 (Suc n) = ([PACKET_BYTE, 0, 0] @ payload) @ [output_buf a n]"
    by (simp only: l)
  have len: "length ([PACKET_BYTE, 0, 0] @ payload) = n"
    by (simp add: n_def)
  have "packet_of a = (load_bytes (output_buf a) 0 (Suc n))[n := c, 2 := hi, 1 := lo]"
    unfolding packet_of_def ob btw by (simp only: load_bytes_upd Suc_eq_plus1)
  also have "\<dots> = (([PACKET_BYTE, 0, 0] @ payload) @ [c])[2 := hi, 1 := lo]"
  proof -
    have "(([PACKET_BYTE, 0, 0] @ payload) @ [output_buf a n])[n := c] = ([PACKET_BYTE, 0, 0] @ payload) @ [c]"
      using list_update_length [of "[PACKET_BYTE, 0, 0] @ payload" "output_buf a n" "[]" c]
      unfolding len .
    then show ?thesis by (simp only: l1)
  qed
  also have "\<dots> = [PACKET_BYTE, lo, hi] @ payload @ [c]"
    by (simp add: numeral_2_eq_2)
  finally show ?thesis
    by (simp only: lo_def hi_def c_def)
qed

text \<open>The bytes a call has added to what the line has accepted.\<close>

definition written :: "neofoxx_adapter \<Rightarrow> neofoxx_adapter \<Rightarrow> byte list" where
  "written a a' = drop (length (tx (port a))) (tx (port a'))"

lemma flush_queue_written:
  assumes z: "bytes_to_write a = 0" and ne: "chunks \<noteq> []" and pl: "concat chunks \<noteq> []"
    and fl: "neofoxx_flush_output (queue chunks a) = Some a'"
  shows "written a a' =
           [PACKET_BYTE,
            ucast ((of_nat (length (concat chunks) + 1) :: u16) AND 0xFF),
            ucast (drop_bit 8 (of_nat (length (concat chunks) + 1) :: u16))]
           @ concat chunks @ [ucast ((sum_list (map ucast (concat chunks)) :: u32) AND 0xFF)]"
proof -
  note h = holds_queue [OF z ne]
  from pl have "1 \<le> length (concat chunks)"
    by (cases "concat chunks") simp_all
  with h have big: "4 \<le> bytes_to_write (queue chunks a)"
    unfolding holds_def by linarith
  from flush_frame [OF fl big] have "tx (port a') = tx (port (queue chunks a)) @ packet_of (queue chunks a)"
    unfolding flush_post_def by auto
  then have "written a a' = packet_of (queue chunks a)"
    by (simp add: written_def queue_rest)
  then show ?thesis
    by (simp only: packet_of_holds [OF h])
qed

text \<open>
  Claim C6. In every packet written by a flush (a packet queued by \<open>add_to_packet\<close>
  on an empty buffer, flushed, the flush returning), the byte at offset 1 is the low byte
  and the byte at offset 2 is the high byte of the total length minus 3, and that value
  is the number of bytes that follow the length field: the payload and the checksum
  byte. The packet fits the array \<open>output\<close>: header, payload and checksum byte are at
  most 2048 bytes.
\<close>

theorem length_field_little_endian:
  assumes "bytes_to_write a = 0" and "chunks \<noteq> []" and "concat chunks \<noteq> []"
    and "3 + length (concat chunks) + 1 \<le> 2048"
    and "neofoxx_flush_output (queue chunks a) = Some a'"
  shows "length (written a a') = 3 + (length (concat chunks) + 1)
         \<and> unat (written a a' ! 1) + 256 * unat (written a a' ! 2) = length (written a a') - 3
         \<and> drop 3 (written a a') = concat chunks @ [last (written a a')]"
proof -
  note w = flush_queue_written [OF assms(1-3) assms(5)]
  from assms(4) have "length (concat chunks) + 1 < 65536" by simp
  then have "unat (of_nat (length (concat chunks) + 1) :: u16) = length (concat chunks) + 1"
    by (simp only: unat_of_nat) simp
  with lohi [of "of_nat (length (concat chunks) + 1)"]
  have "unat (ucast ((of_nat (length (concat chunks) + 1) :: u16) AND 0xFF) :: byte)
        + 256 * unat (ucast (drop_bit 8 (of_nat (length (concat chunks) + 1) :: u16)) :: byte)
        = length (concat chunks) + 1"
    by simp
  then show ?thesis
    by (simp add: w numeral_2_eq_2 del: of_nat_add of_nat_Suc)
qed

text \<open>
  Claim C7. In every packet written by a flush, the bytes between the length field and
  the last byte are the payload, and the last byte is the sum of the payload bytes
  modulo 256. (The loop of \<open>bulk_write\<close> starts at index 2, the second length byte,
  which is still zero when the sum is taken.) The packet fits the array \<open>output\<close>:
  header, payload and checksum byte are at most 2048 bytes.
\<close>

theorem checksum_is_payload_sum:
  assumes "bytes_to_write a = 0" and "chunks \<noteq> []" and "concat chunks \<noteq> []"
    and "3 + length (concat chunks) + 1 \<le> 2048"
    and "neofoxx_flush_output (queue chunks a) = Some a'"
  shows "butlast (drop 3 (written a a')) = concat chunks
         \<and> unat (last (written a a')) = sum_list (map unat (concat chunks)) mod 256"
proof -
  note w = flush_queue_written [OF assms(1-3) assms(5)]
  have "unat (ucast ((sum_list (map ucast (concat chunks)) :: u32) AND 0xFF) :: byte)
        = (sum_list (map unat (concat chunks)) mod 2 ^ 32) mod 256"
    by (simp only: cks_byte unat_sum_u32)
  also have "\<dots> = sum_list (map unat (concat chunks)) mod 256"
    by (rule mod_mod_cancel) simp
  finally show ?thesis
    by (simp add: w butlast_append del: of_nat_add of_nat_Suc)
qed

text \<open>A payload of three bytes, queued in two calls.\<close>

definition three_bytes :: neofoxx_adapter where
  "three_bytes = queue [[1], [2, 255]] (bench INTERFACE_JTAG FAMILY_MX1 (\<lambda>_. 0))"

lemma three_bytes_fields:
  "bytes_to_write three_bytes = 6" "bytes_to_read three_bytes = 0" "prompt (port three_bytes)"
  "tx (port three_bytes) = []"
  by (simp_all add: three_bytes_def queue_def add_to_packet_def bench_def prompt_line_def prompt_def)

lemma three_bytes_flush: "neofoxx_flush_output three_bytes = Some (flushed_state three_bytes)"
  by (rule flush_prompt) (simp_all add: three_bytes_fields)

theorem length_field_little_endian_witness:
  "length (written (bench INTERFACE_JTAG FAMILY_MX1 (\<lambda>_. 0)) (flushed_state three_bytes)) = 7
   \<and> written (bench INTERFACE_JTAG FAMILY_MX1 (\<lambda>_. 0)) (flushed_state three_bytes) ! 1 = 4
   \<and> written (bench INTERFACE_JTAG FAMILY_MX1 (\<lambda>_. 0)) (flushed_state three_bytes) ! 2 = 0"
proof -
  have b: "bytes_to_write (bench INTERFACE_JTAG FAMILY_MX1 (\<lambda>_. 0)) = 0"
    by (simp add: bench_def)
  have f: "neofoxx_flush_output (queue [[1], [2, 255]] (bench INTERFACE_JTAG FAMILY_MX1 (\<lambda>_. 0)))
           = Some (flushed_state three_bytes)"
    using three_bytes_flush by (simp add: three_bytes_def)
  have w: "written (bench INTERFACE_JTAG FAMILY_MX1 (\<lambda>_. 0)) (flushed_state three_bytes)
           = [PACKET_BYTE, 4, 0, 1, 2, 255, 2]"
    using flush_queue_written [OF b _ _ f] by simp
  from length_field_little_endian [OF b _ _ _ f] show ?thesis
    by (simp add: w)
qed

theorem checksum_is_payload_sum_witness:
  "butlast (drop 3 (written (bench INTERFACE_JTAG FAMILY_MX1 (\<lambda>_. 0)) (flushed_state three_bytes))) = [1, 2, 255]
   \<and> unat (last (written (bench INTERFACE_JTAG FAMILY_MX1 (\<lambda>_. 0)) (flushed_state three_bytes))) = 2"
proof -
  have b: "bytes_to_write (bench INTERFACE_JTAG FAMILY_MX1 (\<lambda>_. 0)) = 0"
    by (simp add: bench_def)
  have f: "neofoxx_flush_output (queue [[1], [2, 255]] (bench INTERFACE_JTAG FAMILY_MX1 (\<lambda>_. 0)))
           = Some (flushed_state three_bytes)"
    using three_bytes_flush by (simp add: three_bytes_def)
  from checksum_is_payload_sum [OF b _ _ _ f] show ?thesis
    by simp
qed

section \<open>The adapter on a prompt line\<close>

text \<open>
  An adapter is \<open>idle\<close> when nothing is queued and no reply is expected, and \<open>ready\<close>
  when what is queued fits the buffer. \<open>after n msgs a a'\<close> says that \<open>a'\<close> is an
  idle adapter that differs from \<open>a\<close> by an exchange on the line: \<open>n\<close> reply bytes
  consumed, \<open>msgs\<close> printed, the interface, the family and the flags as they were.
  \<open>reply_word p j\<close> is the \<open>j\<close>-th 64-bit reply still to come on the line.
\<close>

definition idle :: "neofoxx_adapter \<Rightarrow> bool" where
  "idle a = (prompt (port a) \<and> bytes_to_read a = 0 \<and> bytes_to_write a = 0)"

definition ready :: "neofoxx_adapter \<Rightarrow> bool" where
  "ready a = (prompt (port a) \<and> bytes_to_read a = 0
              \<and> (bytes_to_write a = 0 \<or> 4 \<le> bytes_to_write a) \<and> bytes_to_write a \<le> 1024)"

definition reply_word :: "port \<Rightarrow> nat \<Rightarrow> u64" where
  "reply_word p j = word64_of (map (rx p) [rx_pos p + 8 * j ..< rx_pos p + 8 * j + 8])"

definition after :: "nat \<Rightarrow> diag list \<Rightarrow> neofoxx_adapter \<Rightarrow> neofoxx_adapter \<Rightarrow> bool" where
  "after n msgs a a' =
     (idle a'
      \<and> interface a' = interface a \<and> family_name_short a' = family_name_short a
      \<and> use_executive a' = use_executive a \<and> serial_execution_mode a' = serial_execution_mode a
      \<and> way a' = way a \<and> stderr a' = stderr a @ msgs
      \<and> rx (port a') = rx (port a) \<and> rx_pos (port a') = rx_pos (port a) + n
      \<and> (\<exists>bs. tx (port a') = tx (port a) @ bs))"

lemma idle_ready: "idle a \<Longrightarrow> ready a"
  by (simp add: idle_def ready_def)

lemma after_idle: "after n msgs a a' \<Longrightarrow> idle a'"
  by (simp add: after_def)

lemma after_ready: "after n msgs a a' \<Longrightarrow> ready a'"
  by (simp add: after_def idle_ready)

lemma after_trans:
  "after n1 m1 a a1 \<Longrightarrow> after n2 m2 a1 a2 \<Longrightarrow> after (n1 + n2) (m1 @ m2) a a2"
  by (auto simp: after_def)

lemma after_refl: "idle a \<Longrightarrow> after 0 [] a a"
  by (simp add: after_def)

lemma after_reply_word:
  "after (8 * i) msgs a a' \<Longrightarrow> reply_word (port a') j = reply_word (port a) (i + j)"
  by (simp add: after_def reply_word_def distrib_left add.assoc)

lemma length_le32 [simp]: "length (le32 w) = 4"
  by (simp add: le32_def)

lemma length_le64 [simp]: "length (le64 w) = 8"
  by (simp add: le64_def)

lemma add_to_packet_fields:
  "bytes_to_write (add_to_packet d a) = (if bytes_to_write a = 0 then 3 else bytes_to_write a) + length d"
  "bytes_to_read (add_to_packet d a) = bytes_to_read a"
  "port (add_to_packet d a) = port a"
  "stderr (add_to_packet d a) = stderr a"
  "interface (add_to_packet d a) = interface a"
  "family_name_short (add_to_packet d a) = family_name_short a"
  "use_executive (add_to_packet d a) = use_executive a"
  "serial_execution_mode (add_to_packet d a) = serial_execution_mode a"
  "way (add_to_packet d a) = way a"
  "input_buf (add_to_packet d a) = input_buf a"
  "current_pos_input (add_to_packet d a) = current_pos_input a"
  by (simp_all add: add_to_packet_def Let_def)

lemma neofoxx_send_eq:
  "neofoxx_send pn p tn t en e rf a =
     (add_to_packet ([COMMAND_SEND] @ le32 pn @ le32 p @ le32 tn @ le64 t @ le32 en @ le32 e @ le32 rf) a)
       \<lparr>bytes_to_read := bytes_to_read a + (if rf \<noteq> 0 then 8 else 0)\<rparr>"
  by (simp add: neofoxx_send_def Let_def add_to_packet_def)

lemma neofoxx_send_fields:
  "bytes_to_write (neofoxx_send pn p tn t en e rf a) = (if bytes_to_write a = 0 then 3 else bytes_to_write a) + 33"
  "bytes_to_read (neofoxx_send pn p tn t en e rf a) = bytes_to_read a + (if rf \<noteq> 0 then 8 else 0)"
  "port (neofoxx_send pn p tn t en e rf a) = port a"
  "stderr (neofoxx_send pn p tn t en e rf a) = stderr a"
  "interface (neofoxx_send pn p tn t en e rf a) = interface a"
  "family_name_short (neofoxx_send pn p tn t en e rf a) = family_name_short a"
  "use_executive (neofoxx_send pn p tn t en e rf a) = use_executive a"
  "serial_execution_mode (neofoxx_send pn p tn t en e rf a) = serial_execution_mode a"
  "way (neofoxx_send pn p tn t en e rf a) = way a"
  "input_buf (neofoxx_send pn p tn t en e rf a) = input_buf a"
  "current_pos_input (neofoxx_send pn p tn t en e rf a) = current_pos_input a"
  unfolding neofoxx_send_eq by (simp_all add: add_to_packet_fields)

lemma flushed_state_fields:
  "bytes_to_write (flushed_state a) = 0"
  "bytes_to_read (flushed_state a) = 0"
  "stderr (flushed_state a) = stderr a"
  "interface (flushed_state a) = interface a"
  "family_name_short (flushed_state a) = family_name_short a"
  "use_executive (flushed_state a) = use_executive a"
  "serial_execution_mode (flushed_state a) = serial_execution_mode a"
  "way (flushed_state a) = way a"
  "rx (port (flushed_state a)) = rx (port a)"
  "rx_pos (port (flushed_state a)) = rx_pos (port a) + bytes_to_read a"
  "tx (port (flushed_state a)) = tx (port a) @ packet_of a"
  "prompt (port (flushed_state a)) = prompt (port a)"
  by (simp_all add: flushed_state_def prompt_def)

text \<open>
  \<open>pending n a b\<close>: \<open>b\<close> is \<open>a\<close> with more bytes queued and \<open>n\<close> more reply bytes
  expected, nothing else changed.
\<close>

definition pending :: "nat \<Rightarrow> neofoxx_adapter \<Rightarrow> neofoxx_adapter \<Rightarrow> bool" where
  "pending n a b =
     (port b = port a \<and> prompt (port a)
      \<and> 4 \<le> bytes_to_write b \<and> bytes_to_write b < 2048 \<and> bytes_to_read b = n
      \<and> interface b = interface a \<and> family_name_short b = family_name_short a
      \<and> use_executive b = use_executive a \<and> serial_execution_mode b = serial_execution_mode a
      \<and> way b = way a \<and> stderr b = stderr a)"

lemma flush_pending:
  assumes "pending n a b" and "n \<le> 2048"
  shows "neofoxx_flush_output b = Some (flushed_state b) \<and> after n [] a (flushed_state b)"
proof
  from assms show "neofoxx_flush_output b = Some (flushed_state b)"
    by (intro flush_prompt) (simp_all add: pending_def)
  from assms show "after n [] a (flushed_state b)"
    by (auto simp: pending_def after_def idle_def flushed_state_fields)
qed

lemma send_pending:
  "ready a \<Longrightarrow> pending (if rf \<noteq> 0 then 8 else 0) a (neofoxx_send pn p tn t en e rf a)"
  by (auto simp: ready_def pending_def neofoxx_send_fields)

lemma pending_send:
  "pending 0 a b \<Longrightarrow> bytes_to_write b \<le> 1500
   \<Longrightarrow> pending (if rf \<noteq> 0 then 8 else 0) a (neofoxx_send pn p tn t en e rf b)"
  by (auto simp: pending_def neofoxx_send_fields)

lemma add_pending:
  "ready a \<Longrightarrow> 1 \<le> length d \<Longrightarrow> length d \<le> 64 \<Longrightarrow> pending 0 a (add_to_packet d a)"
  by (auto simp: ready_def pending_def add_to_packet_fields)

definition quiet :: "(neofoxx_adapter \<Rightarrow> unit res option) \<Rightarrow> bool" where
  "quiet c = (\<forall>a. idle a \<longrightarrow> (\<exists>a'. c a = Some (Ok () a') \<and> after 0 [] a a'))"

lemma quietD: "quiet c \<Longrightarrow> idle a \<Longrightarrow> \<exists>a'. c a = Some (Ok () a') \<and> after 0 [] a a'"
  by (simp add: quiet_def)

lemma flush_ready:
  assumes "ready a"
  shows "\<exists>a'. neofoxx_flush_output a = Some a' \<and> after 0 [] a a'"
proof (cases "bytes_to_write a = 0")
  case True
  with assms have "neofoxx_flush_output a = Some a" and "idle a"
    by (simp_all add: neofoxx_flush_output_def ready_def idle_def)
  then show ?thesis using after_refl by blast
next
  case False
  with assms have "pending 0 a a" by (simp add: ready_def pending_def)
  from flush_pending [OF this] show ?thesis by blast
qed

lemma quiet_flush: "quiet flush"
  unfolding quiet_def flush_def flushed_def using flush_ready idle_ready by fastforce

lemma quiet_ret: "quiet (ret ())"
  unfolding quiet_def ret_def using after_refl by blast

lemma quiet_if: "quiet c \<Longrightarrow> quiet d \<Longrightarrow> quiet (\<lambda>a. if P a then c a else d a)"
  by (simp add: quiet_def)

lemma quiet_run: "(\<And>c. c \<in> set cs \<Longrightarrow> quiet c) \<Longrightarrow> quiet (run cs)"
proof (induction cs)
  case Nil
  show ?case using quiet_ret by (simp add: quiet_def)
next
  case (Cons c cs)
  have qc: "quiet c" and qr: "quiet (run cs)"
    using Cons by simp_all
  show ?case
    unfolding quiet_def
  proof (intro allI impI)
    fix a assume "idle a"
    from quietD [OF qc this] obtain a1 where c: "c a = Some (Ok () a1)" and a1: "after 0 [] a a1"
      by blast
    from quietD [OF qr after_idle [OF a1]] obtain a2 where r: "run cs a1 = Some (Ok () a2)"
      and a2: "after 0 [] a1 a2"
      by blast
    from after_trans [OF a1 a2] c r
    show "\<exists>a'. run (c # cs) a = Some (Ok () a') \<and> after 0 [] a a'"
      by (simp add: bind_res_def)
  qed
qed

lemma setPins_ready:
  assumes "ready a" and "immediate \<noteq> 0"
  shows "\<exists>a'. neofoxx_setPins preset pin pin_dir pin_val immediate a = Some (Ok () a') \<and> after 0 [] a a'"
proof -
  let ?d = "[COMMAND_SET_PIN_IO_MODE, of_int pin,
             (if PIN_DIR_INPUT = pin_dir then PIN_SET_INPUT
              else if PIN_VAL_LOW = pin_val then PIN_SET_OUTPUT_LOW else PIN_SET_OUTPUT_HIGH)]"
  have "pending 0 a (add_to_packet ?d a)"
    by (rule add_pending [OF assms(1)]) simp_all
  from flush_pending [OF this] assms(2) show ?thesis
    by (simp add: neofoxx_setPins_def Let_def flushed_def)
qed

lemma quiet_setPins: "immediate \<noteq> 0 \<Longrightarrow> quiet (neofoxx_setPins preset pin pin_dir pin_val immediate)"
  unfolding quiet_def using setPins_ready idle_ready by blast

lemma setMode_reset_ready:
  assumes "ready a" and "immediate \<noteq> 0"
  shows "\<exists>a'. neofoxx_setMode SET_MODE_TAP_RESET immediate a = Some (Ok () a') \<and> after 0 [] a a'"
proof -
  note p = send_pending [OF assms(1), of 0 6 "0b011111" 0 0 0 0]
  from flush_pending [of 0 a, OF p [simplified]] assms(2) show ?thesis
    by (simp add: neofoxx_setMode_def bind_res_def ret_def flushed_def)
qed

lemma quiet_setMode_reset: "immediate \<noteq> 0 \<Longrightarrow> quiet (neofoxx_setMode SET_MODE_TAP_RESET immediate)"
  unfolding quiet_def using setMode_reset_ready idle_ready by blast

lemma setMode_icsp_ready:
  assumes "ready a" and "immediate \<noteq> 0" and "jtag_or_default a"
  shows "\<exists>a'. neofoxx_setMode SET_MODE_ICSP_SYNC immediate a = Some (Ok () a') \<and> after 0 [] a a'"
proof -
  let ?e = "neofoxx_bitReversal 0x4D434850"
  let ?a1 = "neofoxx_send 8 (?e AND 0xFF) 0 0 0 0 0 a"
  let ?a2 = "neofoxx_send 8 (drop_bit 8 ?e AND 0xFF) 0 0 0 0 0 ?a1"
  let ?a3 = "neofoxx_send 8 (drop_bit 16 ?e AND 0xFF) 0 0 0 0 0 ?a2"
  let ?a4 = "neofoxx_send 8 (drop_bit 24 ?e AND 0xFF) 0 0 0 0 0 ?a3"
  have "pending 0 a ?a4"
    using assms(1) by (auto simp: ready_def pending_def neofoxx_send_fields)
  from flush_pending [OF this] assms(2,3) show ?thesis
    by (simp add: neofoxx_setMode_def bind_res_def ret_def flushed_def Let_def jtag_or_default_def)
qed

definition known_command :: "pic32_h \<Rightarrow> u32 \<Rightarrow> bool" where
  "known_command k c =
     (c = MTAP_COMMAND k \<or> c = TAP_SW_MTAP k \<or> c = TAP_SW_ETAP k \<or> c = MTAP_IDCODE k
      \<or> c = ETAP_ADDRESS k \<or> c = ETAP_DATA k \<or> c = ETAP_CONTROL k \<or> c = ETAP_EJTAGBOOT k
      \<or> c = ETAP_FASTDATA k \<or> c = ETAP_NORMALBOOT k)"

lemma sendCommand_ready:
  assumes "ready a" and "immediate \<noteq> 0" and "known_command k c"
  shows "\<exists>a'. neofoxx_sendCommand k c immediate a = Some (Ok () a') \<and> after 0 [] a a'"
proof -
  have v: "\<not> (MTAP_COMMAND k \<noteq> c \<and> TAP_SW_MTAP k \<noteq> c
         \<and> TAP_SW_ETAP k \<noteq> c \<and> MTAP_IDCODE k \<noteq> c
         \<and> ETAP_ADDRESS k \<noteq> c \<and> ETAP_DATA k \<noteq> c
         \<and> ETAP_CONTROL k \<noteq> c \<and> ETAP_EJTAGBOOT k \<noteq> c
         \<and> ETAP_FASTDATA k \<noteq> c \<and> ETAP_NORMALBOOT k \<noteq> c)"
    using assms(3) unfolding known_command_def by blast
  let ?m = "neofoxx_send 4 0b0011 (MTAP_COMMAND_NBITS k) (ucast c) 2 0b01 0 a"
  let ?e = "neofoxx_send 4 0b0011 (ETAP_COMMAND_NBITS k) (ucast c) 2 0b01 0 a"
  from flush_pending [of 0 a ?m, OF send_pending [OF assms(1), of 0, simplified]]
  have m: "neofoxx_flush_output ?m = Some (flushed_state ?m) \<and> after 0 [] a (flushed_state ?m)" by simp
  from flush_pending [of 0 a ?e, OF send_pending [OF assms(1), of 0, simplified]]
  have e: "neofoxx_flush_output ?e = Some (flushed_state ?e) \<and> after 0 [] a (flushed_state ?e)" by simp
  from flush_ready [OF assms(1)] obtain a0 where n: "neofoxx_flush_output a = Some a0" "after 0 [] a a0"
    by blast
  show ?thesis
    unfolding neofoxx_sendCommand_def Let_def
    using v m e n assms(2) by (auto simp: flushed_def)
qed

lemma quiet_sendCommand:
  "immediate \<noteq> 0 \<Longrightarrow> known_command k c \<Longrightarrow> quiet (neofoxx_sendCommand k c immediate)"
  unfolding quiet_def using sendCommand_ready idle_ready by blast

lemma after_cursor: "after n m a a' \<Longrightarrow> after n m a (a'\<lparr>current_pos_input := c\<rparr>)"
  by (simp add: after_def idle_def)

lemma after_say: "after n m a a' \<Longrightarrow> after n (m @ [d]) a (fprintf_stderr d a')"
  by (simp add: after_def idle_def fprintf_stderr_def)

lemma xferData_write_ready:
  assumes "ready a" and "immediate \<noteq> 0"
  shows "\<exists>a'. neofoxx_xferData nBits iData 0 immediate a = Some (Ok 0 a') \<and> after 0 [] a a'"
proof -
  note p = send_pending [OF assms(1), of 0 3 "0b001" nBits "ucast iData" 2 "0b01"]
  from flush_pending [of 0 a, OF p [simplified]] assms(2) show ?thesis
    by (simp add: neofoxx_xferData_def bind_res_def ret_def flushed_def)
qed

lemma quiet_xferData:
  "immediate \<noteq> 0 \<Longrightarrow> quiet (ignore (neofoxx_xferData nBits iData 0 immediate))"
  unfolding quiet_def ignore_def
proof (intro allI impI)
  fix a assume i: "immediate \<noteq> 0" and "idle a"
  from xferData_write_ready [OF idle_ready [OF this(2)] i, of nBits iData]
  show "\<exists>a'. bind_res (neofoxx_xferData nBits iData 0 immediate a) (\<lambda>_. ret ()) = Some (Ok () a')
             \<and> after 0 [] a a'"
    by (auto simp: bind_res_def ret_def)
qed

lemma load_store_8: "length bs = 8 \<Longrightarrow> load_bytes (store_bytes m 0 bs) 0 8 = bs"
  using load_store_bytes [of m 0 bs] by (simp add: load_bytes_def)

lemma recv_pending:
  assumes "pending 8 a b"
  shows "\<exists>a'. neofoxx_recv b = Some (Ok (reply_word (port a) 0) a') \<and> after 8 [] a a'"
proof -
  from flush_pending [OF assms] have f: "neofoxx_flush_output b = Some (flushed_state b)"
    and af: "after 8 [] a (flushed_state b)" by simp_all
  from assms have r: "bytes_to_read b = 8" and pb: "port b = port a" by (simp_all add: pending_def)
  have w: "word64_of (load_bytes (input_buf (flushed_state b)) (current_pos_input (flushed_state b)) 8)
           = reply_word (port a) 0"
    by (simp add: flushed_state_def r pb reply_def reply_word_def load_store_8)
  from f w after_cursor [OF af] show ?thesis
    by (simp add: neofoxx_recv_def ret_def Let_def)
qed

lemma xferData_read_ready:
  assumes "ready a" and "readFlag \<noteq> 0"
  shows "\<exists>a'. neofoxx_xferData nBits iData readFlag immediate a = Some (Ok (reply_word (port a) 0) a')
              \<and> after 8 [] a a'"
proof -
  from send_pending [OF assms(1), of readFlag 3 "0b001" nBits "ucast iData" 2 "0b01"] assms(2)
  have "pending 8 a (neofoxx_send 3 0b001 nBits (ucast iData) 2 0b01 readFlag a)" by simp
  from recv_pending [OF this] assms(2) show ?thesis
    by (simp add: neofoxx_xferData_def)
qed

lemma xferFastData_ready:
  assumes "ready a"
  shows "\<exists>a'. neofoxx_xferFastData_PC_slow word readFlag a
               = Some (Ok (if readFlag \<noteq> 0 then reply_word (port a) 0 else 0) a')
              \<and> after 8 (if reply_word (port a) 0 AND 0x01 = 0 then [PrACC_not_set] else []) a a'"
proof -
  from send_pending [OF assms(1), of 1 3 "0b001" 33 "push_bit 1 (ucast word)" 2 "0b01"]
  have "pending 8 a (neofoxx_send 3 0b001 33 (push_bit 1 (ucast word)) 2 0b01 1 a)" by simp
  from recv_pending [OF this] obtain a1 where
    r: "neofoxx_recv (neofoxx_send 3 0b001 33 (push_bit 1 (ucast word)) 2 0b01 1 a)
        = Some (Ok (reply_word (port a) 0) a1)" and a1: "after 8 [] a a1"
    by blast
  from after_say [OF a1, of PrACC_not_set] a1 r show ?thesis
    by (auto simp: neofoxx_xferFastData_PC_slow_def bind_res_def ret_def Let_def)
qed

lemma known_commands [simp]:
  "known_command k (MTAP_COMMAND k)" "known_command k (TAP_SW_MTAP k)"
  "known_command k (TAP_SW_ETAP k)" "known_command k (MTAP_IDCODE k)"
  "known_command k (ETAP_ADDRESS k)" "known_command k (ETAP_DATA k)"
  "known_command k (ETAP_CONTROL k)" "known_command k (ETAP_EJTAGBOOT k)"
  "known_command k (ETAP_FASTDATA k)" "known_command k (ETAP_NORMALBOOT k)"
  by (simp_all add: known_command_def)

lemma quiet_se_attempt: "quiet (se_attempt k)"
  unfolding se_attempt_def
  by (intro quiet_run) (auto intro!: quiet_if quiet_run quiet_ret quiet_flush quiet_setPins
         quiet_setMode_reset quiet_sendCommand quiet_xferData)

section \<open>Data transfers that read\<close>

text \<open>What a call returned, and the adapter it left (returning or exiting).\<close>

definition value_of :: "'a res option \<Rightarrow> 'a option" where
  "value_of m = (case m of None \<Rightarrow> None | Some r \<Rightarrow> (case r of Ok v a \<Rightarrow> Some v | Exit a \<Rightarrow> None))"

definition state_of :: "'a res \<Rightarrow> neofoxx_adapter" where
  "state_of r = (case r of Ok v a \<Rightarrow> a | Exit a \<Rightarrow> a)"

lemma state_of_simps [simp]: "state_of (Ok v a) = a" "state_of (Exit a) = a"
  by (simp_all add: state_of_def)

lemma recv_any_line:
  assumes r: "neofoxx_recv b = Some (Ok w a')" and big: "4 \<le> bytes_to_write b" and rd: "bytes_to_read b = 8"
  shows "w = reply_word (port b) 0 \<and> bytes_to_write a' = 0 \<and> bytes_to_read a' = 0"
proof -
  from r obtain f where f: "neofoxx_flush_output b = Some f"
    and w: "w = word64_of (load_bytes (input_buf f) (current_pos_input f) 8)"
    and a': "a' = f\<lparr>current_pos_input := current_pos_input f + 8\<rparr>"
    by (auto simp: neofoxx_recv_def ret_def Let_def split: option.splits)
  from flush_frame [OF f big] rd
  have "input_buf f = store_bytes (input_buf b) 0 (reply (port b) 8)" and "current_pos_input f = 0"
    and "bytes_to_write f = 0" and "bytes_to_read f = 0"
    unfolding flush_post_def by auto
  with w a' show ?thesis
    by (simp add: reply_def reply_word_def load_store_8)
qed

text \<open>
  Claim C4, as the code has it. With the read flag set and no earlier reply outstanding,
  \<open>neofoxx_xferData\<close> flushes the session (nothing is left queued or expected) and
  returns the 64-bit reply word as the adapter sent it, for every \<open>nBits\<close> and every
  input word: the value of \<open>neofoxx_recv\<close> is returned as it is, and nothing masks it
  to \<open>nBits\<close>. On a prompt line the call does return.
\<close>

theorem xferData_read_returns_reply_word:
  assumes "readFlag \<noteq> 0" and "bytes_to_read a = 0"
  shows "(neofoxx_xferData nBits iData readFlag immediate a = Some (Ok w a')
            \<longrightarrow> w = reply_word (port a) 0 \<and> bytes_to_write a' = 0 \<and> bytes_to_read a' = 0)
         \<and> (ready a \<longrightarrow> value_of (neofoxx_xferData nBits iData readFlag immediate a)
                            = Some (reply_word (port a) 0))"
proof (rule conjI [OF impI impI])
  assume x: "neofoxx_xferData nBits iData readFlag immediate a = Some (Ok w a')"
  let ?b = "neofoxx_send 3 0b001 nBits (ucast iData) 2 0b01 readFlag a"
  from x assms(1) have r: "neofoxx_recv ?b = Some (Ok w a')"
    by (simp add: neofoxx_xferData_def)
  have "4 \<le> bytes_to_write ?b" and "bytes_to_read ?b = 8" and "port ?b = port a"
    using assms by (simp_all add: neofoxx_send_fields)
  with recv_any_line [OF r] show "w = reply_word (port a) 0 \<and> bytes_to_write a' = 0 \<and> bytes_to_read a' = 0"
    by simp
next
  assume "ready a"
  from xferData_read_ready [OF this assms(1), of nBits iData immediate]
  show "value_of (neofoxx_xferData nBits iData readFlag immediate a) = Some (reply_word (port a) 0)"
    by (auto simp: value_of_def)
qed

lemma ready_bench [simp]: "ready (bench i f r)"
  by (simp add: ready_def bench_def prompt_line_def prompt_def)

lemma idle_bench [simp]: "idle (bench i f r)"
  by (simp add: idle_def bench_def prompt_line_def prompt_def)

lemma word64_of_8:
  "word64_of [b0, b1, b2, b3, b4, b5, b6, b7] =
     ucast b0 OR push_bit 8 (ucast b1 OR push_bit 8 (ucast b2 OR push_bit 8 (ucast b3 OR push_bit 8
       (ucast b4 OR push_bit 8 (ucast b5 OR push_bit 8 (ucast b6 OR push_bit 8 (ucast b7)))))))"
  by (simp add: word64_of_def)

lemma upt_8: "[n ..< n + 8] = [n, n + 1, n + 2, n + 3, n + 4, n + 5, n + 6, n + 7]"
  by (simp add: upt_rec [of n] upt_rec [of "Suc n"] upt_rec [of "Suc (Suc n)"]
        upt_rec [of "Suc (Suc (Suc n))"] upt_rec [of "Suc (Suc (Suc (Suc n)))"]
        upt_rec [of "Suc (Suc (Suc (Suc (Suc n))))"] upt_rec [of "Suc (Suc (Suc (Suc (Suc (Suc n)))))"]
        upt_rec [of "Suc (Suc (Suc (Suc (Suc (Suc (Suc n))))))"]
        upt_rec [of "Suc (Suc (Suc (Suc (Suc (Suc (Suc (Suc n)))))))"])

lemma reply_word_bytes:
  "reply_word p j =
     word64_of [rx p (rx_pos p + 8 * j), rx p (rx_pos p + 8 * j + 1), rx p (rx_pos p + 8 * j + 2),
                rx p (rx_pos p + 8 * j + 3), rx p (rx_pos p + 8 * j + 4), rx p (rx_pos p + 8 * j + 5),
                rx p (rx_pos p + 8 * j + 6), rx p (rx_pos p + 8 * j + 7)]"
  by (simp add: reply_word_def upt_8)

lemma all_ones_reply: "reply_word (port (bench i f (\<lambda>_. 0xFF))) j = 0xFFFFFFFFFFFFFFFF"
  by (simp add: reply_word_bytes word64_of_8 bench_def prompt_line_def)

theorem xferData_read_returns_reply_word_witness:
  "value_of (neofoxx_xferData 8 0 1 1 (bench INTERFACE_JTAG FAMILY_MX1 (\<lambda>_. 0xFF)))
     = Some (reply_word (port (bench INTERFACE_JTAG FAMILY_MX1 (\<lambda>_. 0xFF))) 0)"
proof -
  have h1: "(1 :: u32) \<noteq> 0" by simp
  have h2: "bytes_to_read (bench INTERFACE_JTAG FAMILY_MX1 (\<lambda>_. 0xFF)) = 0" by (simp add: bench_def)
  have h3: "ready (bench INTERFACE_JTAG FAMILY_MX1 (\<lambda>_. 0xFF))" by simp
  from xferData_read_returns_reply_word [OF h1 h2, THEN conjunct2, THEN mp, OF h3]
  show ?thesis .
qed

text \<open>
  The claim as stated has every bit above \<open>nBits - 1\<close> zero; with \<open>nBits = 8\<close> and an
  adapter that answers with bytes \<open>0xFF\<close> the call returns all 64 bits set.
\<close>

theorem xferData_unmasked_counterexample:
  "value_of (neofoxx_xferData 8 0 1 1 (bench INTERFACE_JTAG FAMILY_MX1 (\<lambda>_. 0xFF)))
     = Some 0xFFFFFFFFFFFFFFFF"
  using xferData_read_ready [of "bench INTERFACE_JTAG FAMILY_MX1 (\<lambda>_. 0xFF)" 1 8 0 1]
  by (auto simp: value_of_def all_ones_reply)

section \<open>Serial execution on a prompt line\<close>

text \<open>
  \<open>queued a b\<close>: \<open>b\<close> is \<open>a\<close> with a command queued and not yet sent, as a call
  with \<open>immediate = 0\<close> leaves it.
\<close>

definition queued :: "neofoxx_adapter \<Rightarrow> neofoxx_adapter \<Rightarrow> bool" where
  "queued a b =
     (port b = port a \<and> ready b
      \<and> interface b = interface a \<and> family_name_short b = family_name_short a
      \<and> use_executive b = use_executive a \<and> serial_execution_mode b = serial_execution_mode a
      \<and> way b = way a \<and> stderr b = stderr a)"

lemma sendCommand_queued:
  assumes "idle a" and "known_command k c"
  shows "\<exists>b. neofoxx_sendCommand k c 0 a = Some (Ok () b) \<and> queued a b"
proof -
  have v: "\<not> (MTAP_COMMAND k \<noteq> c \<and> TAP_SW_MTAP k \<noteq> c
         \<and> TAP_SW_ETAP k \<noteq> c \<and> MTAP_IDCODE k \<noteq> c
         \<and> ETAP_ADDRESS k \<noteq> c \<and> ETAP_DATA k \<noteq> c
         \<and> ETAP_CONTROL k \<noteq> c \<and> ETAP_EJTAGBOOT k \<noteq> c
         \<and> ETAP_FASTDATA k \<noteq> c \<and> ETAP_NORMALBOOT k \<noteq> c)"
    using assms(2) unfolding known_command_def by blast
  have q: "queued a (neofoxx_send pn p tn t en e 0 a)" for pn p tn t en e
    using assms(1) by (simp add: queued_def idle_def ready_def neofoxx_send_fields)
  have q0: "queued a a"
    using assms(1) by (simp add: queued_def idle_def ready_def)
  show ?thesis
    unfolding neofoxx_sendCommand_def Let_def ret_def
    using v q q0 by auto
qed

lemma after_queued: "queued a b \<Longrightarrow> after n m b a' \<Longrightarrow> after n m a a'"
  by (simp add: queued_def after_def)

lemma queued_idle: "idle a \<Longrightarrow> queued a a"
  by (simp add: queued_def idle_def ready_def)

text \<open>A target on which no reply still to come has the ProbEn bit.\<close>

definition never_proben :: "pic32_h \<Rightarrow> port \<Rightarrow> bool" where
  "never_proben k p = (\<forall>j. reply_word p j AND ucast (CONTROL_PROBEN k) = 0)"

lemma never_proben_after:
  "never_proben k (port a) \<Longrightarrow> after (8 * i) m a a' \<Longrightarrow> never_proben k (port a')"
  by (simp add: never_proben_def after_reply_word)

lemma se_read_control_ready:
  "ready a \<Longrightarrow>
     \<exists>status a' j. se_read_control k counterPre a = Some (Ok status a') \<and> after (8 * Suc j) [] a a'
        \<and> status = reply_word (port a) j"
proof (induction k counterPre a rule: se_read_control.induct)
  case (1 k counterPre a)
  from xferData_read_ready [OF "1.prems", of 1 32
         "CONTROL_PRACC k OR CONTROL_PROBEN k OR CONTROL_PROBTRAP k" 1]
  obtain a1 where x: "neofoxx_xferData 32 (CONTROL_PRACC k OR CONTROL_PROBEN k OR CONTROL_PROBTRAP k) 1 1 a
                      = Some (Ok (reply_word (port a) 0) a1)"
    and a1: "after 8 [] a a1"
    by auto
  let ?s = "reply_word (port a) 0"
  show ?case
  proof (cases "?s AND ucast (CONTROL_PROBEN k) = 0 \<and> counterPre > 1")
    case False
    then have "se_read_control k counterPre a = Some (Ok ?s a1)"
      by (subst se_read_control.simps) (auto simp: x bind_res_def ret_def)
    with a1 show ?thesis
      by (intro exI [of _ ?s] exI [of _ a1] exI [of _ 0]) simp
  next
    case True
    from "1.IH" [OF x _ after_ready [OF a1]] True
    obtain status a' j where r: "se_read_control k (counterPre - 1) a1 = Some (Ok status a')"
      and a': "after (8 * Suc j) [] a1 a'" and s: "status = reply_word (port a1) j"
      by auto
    from True have "se_read_control k counterPre a = Some (Ok status a')"
      by (subst se_read_control.simps) (simp add: x bind_res_def r)
    moreover from after_trans [OF a1 a'] have "after (8 * Suc (Suc j)) [] a a'"
      by simp
    moreover from s after_reply_word [of 1 "[]" a a1 j] a1 have "status = reply_word (port a) (Suc j)"
      by simp
    ultimately show ?thesis by blast
  qed
qed

text \<open>
  The branch of a failed pass: without shared pins (JTAG or default interface, family
  other than MX1 and MX3) the process ends there.
\<close>

definition gives_up :: "neofoxx_adapter \<Rightarrow> bool" where
  "gives_up a = (jtag_or_default a \<and> \<not> mx1_or_mx3 a)"

definition se_failed_msgs :: "u64 \<Rightarrow> neofoxx_adapter \<Rightarrow> diag list" where
  "se_failed_msgs status a =
     Failed_to_enter_serial_execution (ucast status)
       # (if jtag_or_default a
          then (if mx1_or_mx3 a then [Trying_to_recover] else [Only_recovery_is_power_cycle])
          else [])"

lemma after_fprintf:
  "idle a \<Longrightarrow> after 0 [d] a (fprintf_stderr d a)"
  by (simp add: after_def idle_def fprintf_stderr_def)

lemma rig_fprintf [simp]:
  "jtag_or_default (fprintf_stderr d a) = jtag_or_default a"
  "mx1_or_mx3 (fprintf_stderr d a) = mx1_or_mx3 a"
  by (simp_all add: jtag_or_default_def mx1_or_mx3_def fprintf_stderr_def)

lemma rig_after:
  "after n m a a' \<Longrightarrow> jtag_or_default a' = jtag_or_default a"
  "after n m a a' \<Longrightarrow> mx1_or_mx3 a' = mx1_or_mx3 a"
  "after n m a a' \<Longrightarrow> gives_up a' = gives_up a"
  by (simp_all add: jtag_or_default_def mx1_or_mx3_def gives_up_def after_def)

lemma exit_with_eq: "exit_with d a = Some (Exit (fprintf_stderr d a))"
  by (simp add: exit_with_def fprintf_stderr_def)

lemma run_step:
  "c a = Some (Ok () a1) \<Longrightarrow> run (c # cs) a = run cs a1"
  by (simp add: bind_res_def)

lemma se_failed_idle:
  assumes "idle a"
  shows "\<exists>a'. se_failed status a = Some (if gives_up a then Exit a' else Ok () a')
              \<and> after 0 (se_failed_msgs status a) a a'"
proof -
  let ?a1 = "fprintf_stderr (Failed_to_enter_serial_execution (ucast status)) a"
  note a1 = after_fprintf [OF assms, of "Failed_to_enter_serial_execution (ucast status)"]
  show ?thesis
  proof (cases "jtag_or_default a")
    case False
    with a1 show ?thesis
      by (auto simp: se_failed_def Let_def gives_up_def se_failed_msgs_def ret_def)
  next
    case j: True
    show ?thesis
    proof (cases "mx1_or_mx3 a")
      case False
      from after_say [OF a1, of Only_recovery_is_power_cycle] j False show ?thesis
        by (auto simp: se_failed_def Let_def gives_up_def se_failed_msgs_def exit_with_eq)
    next
      case True
      let ?a2 = "fprintf_stderr Trying_to_recover ?a1"
      from after_say [OF a1, of Trying_to_recover]
      have a2: "after 0 [Failed_to_enter_serial_execution (ucast status), Trying_to_recover] a ?a2"
        by simp
      have s0: "say Trying_to_recover ?a1 = Some (Ok () ?a2)"
        by (simp add: say_def ret_def)
      from setPins_ready [OF after_ready [OF a2], of 1 "-1" PIN_MCLR PIN_DIR_OUTPUT PIN_VAL_LOW]
      obtain a3 where s1: "neofoxx_setPins (-1) PIN_MCLR PIN_DIR_OUTPUT PIN_VAL_LOW 1 ?a2 = Some (Ok () a3)"
        and a3: "after 0 [] ?a2 a3" by auto
      from quietD [OF quiet_flush after_idle [OF a3]]
      obtain a4 where s2: "flush a3 = Some (Ok () a4)" and a4: "after 0 [] a3 a4" by auto
      have "jtag_or_default a4"
        using j rig_after(1) [OF a4] rig_after(1) [OF a3] rig_after(1) [OF a2] by simp
      from setMode_icsp_ready [OF after_ready [OF a4] _ this, of 1]
      obtain a5 where s3: "neofoxx_setMode SET_MODE_ICSP_SYNC 1 a4 = Some (Ok () a5)"
        and a5: "after 0 [] a4 a5" by auto
      from setPins_ready [OF after_ready [OF a5], of 1 "-1" PIN_MCLR PIN_DIR_OUTPUT PIN_VAL_HIGH]
      obtain a6 where s4: "neofoxx_setPins (-1) PIN_MCLR PIN_DIR_OUTPUT PIN_VAL_HIGH 1 a5 = Some (Ok () a6)"
        and a6: "after 0 [] a5 a6" by auto
      from quietD [OF quiet_flush after_idle [OF a6]]
      obtain a7 where s5: "flush a6 = Some (Ok () a7)" and a7: "after 0 [] a6 a7" by auto
      have r: "se_failed status a = Some (Ok () a7)"
        using j True s0 s1 s2 s3 s4 s5
        by (simp add: se_failed_def Let_def bind_res_def ret_def)
      from after_trans [OF after_trans [OF after_trans [OF after_trans [OF after_trans [OF a2 a3] a4] a5] a6] a7]
      have "after 0 [Failed_to_enter_serial_execution (ucast status), Trying_to_recover] a a7"
        by simp
      with r j True show ?thesis
        by (auto simp: gives_up_def se_failed_msgs_def)
    qed
  qed
qed

text \<open>
  Each pass of the outer loop in which ProbEn was not seen prints one
  \<open>Failed_to_enter_serial_execution\<close>; \<open>attempts\<close> counts them in a list of messages.
\<close>

definition is_failed :: "diag \<Rightarrow> bool" where
  "is_failed d = (case d of Failed_to_enter_serial_execution s \<Rightarrow> True | _ \<Rightarrow> False)"

definition attempts :: "diag list \<Rightarrow> nat" where
  "attempts m = length (filter is_failed m)"

definition loop_msg :: "diag \<Rightarrow> bool" where
  "loop_msg d = (is_failed d \<or> d = Trying_to_recover \<or> d = Only_recovery_is_power_cycle)"

lemma attempts_simps [simp]:
  "attempts [] = 0"
  "attempts (m @ n) = attempts m + attempts n"
  "attempts (Failed_to_enter_serial_execution s # m) = Suc (attempts m)"
  "attempts (Trying_to_recover # m) = attempts m"
  "attempts (Only_recovery_is_power_cycle # m) = attempts m"
  "attempts (Couldnt_enter_serial_execution # m) = attempts m"
  "attempts (CPS_bit_is_SET s # m) = attempts m"
  by (simp_all add: attempts_def is_failed_def)

lemma se_failed_msgs_facts [simp]:
  "attempts (se_failed_msgs status a) = 1"
  "list_all loop_msg (se_failed_msgs status a)"
  by (simp_all add: se_failed_msgs_def loop_msg_def is_failed_def)

lemma se_loop_prompt:
  "idle a \<Longrightarrow>
     \<exists>r i m. se_loop k counter a = Some r \<and> after (8 * Suc i) m a (state_of r)
        \<and> list_all loop_msg m \<and> attempts m \<le> max 1 (unat counter)
        \<and> (never_proben k (port a) \<and> counter \<noteq> 0 \<longrightarrow>
              (if gives_up a then (\<exists>a'. r = Exit a') \<and> attempts m = 1
               else (\<exists>st a'. r = Ok (st, 0) a') \<and> attempts m = unat counter))"
proof (induction k counter a rule: se_loop.induct)
  case (1 k counter a)
  from quietD [OF quiet_se_attempt "1.prems"]
  obtain a1 where s1: "se_attempt k a = Some (Ok () a1)" and a1: "after 0 [] a a1" by auto
  from se_read_control_ready [OF after_ready [OF a1], of k 11]
  obtain status a2 j where s2: "se_read_control k 11 a1 = Some (Ok status a2)"
    and a2: "after (8 * Suc j) [] a1 a2" and st: "status = reply_word (port a1) j"
    by auto
  from after_trans [OF a1 a2] have a02: "after (8 * Suc j) [] a a2" by simp
  from st after_reply_word [of 0 "[]" a a1 j] a1 have st0: "status = reply_word (port a) j" by simp
  show ?case
  proof (cases "status AND ucast (CONTROL_PROBEN k) = 0")
    case False
    then have r: "se_loop k counter a = Some (Ok (status, counter) a2)"
      by (subst se_loop.simps) (simp add: s1 s2 bind_res_def ret_def)
    from False st0 have "\<not> never_proben k (port a)"
      by (auto simp: never_proben_def)
    with r a02 show ?thesis
      by (intro exI [of _ "Ok (status, counter) a2"] exI [of _ j] exI [of _ "[]"]) simp
  next
    case True
    from se_failed_idle [OF after_idle [OF a2], of status]
    obtain a3 where s3: "se_failed status a2 = Some (if gives_up a2 then Exit a3 else Ok () a3)"
      and a3: "after 0 (se_failed_msgs status a2) a2 a3" by auto
    have g: "gives_up a2 = gives_up a" using rig_after(3) [OF a02] .
    from after_trans [OF a02 a3] have a03: "after (8 * Suc j) (se_failed_msgs status a2) a a3" by simp
    show ?thesis
    proof (cases "gives_up a")
      case gu: True
      with True s3 g have r: "se_loop k counter a = Some (Exit a3)"
        by (subst se_loop.simps) (simp add: s1 s2 bind_res_def)
      with a03 gu show ?thesis
        by (intro exI [of _ "Exit a3"] exI [of _ j] exI [of _ "se_failed_msgs status a2"]) simp
    next
      case ngu: False
      with s3 g have s3': "se_failed status a2 = Some (Ok () a3)" by simp
      show ?thesis
      proof (cases "1 < counter")
        case False
        with True have r: "se_loop k counter a = Some (Ok (status, counter - 1) a3)"
          by (subst se_loop.simps) (simp add: s1 s2 s3' bind_res_def ret_def)
        from False have c: "counter = 0 \<or> counter = 1"
          by (metis (no_types) not_less word_le_less_eq word_less_1 word_gt_0)
        then have "counter \<noteq> 0 \<longrightarrow> counter - 1 = 0 \<and> unat counter = 1" by auto
        with r a03 ngu show ?thesis
          by (intro exI [of _ "Ok (status, counter - 1) a3"] exI [of _ j]
                exI [of _ "se_failed_msgs status a2"]) auto
      next
        case big: True
        from "1.IH" [OF s1 s2 _ True big after_idle [OF a3]] True s3'
        obtain r i m where r: "se_loop k (counter - 1) a3 = Some r"
          and ar: "after (8 * Suc i) m a3 (state_of r)" and lm: "list_all loop_msg m"
          and le: "attempts m \<le> max 1 (unat (counter - 1))"
          and np: "never_proben k (port a3) \<and> counter - 1 \<noteq> 0 \<longrightarrow>
              (if gives_up a3 then (\<exists>a'. r = Exit a') \<and> attempts m = 1
               else (\<exists>st a'. r = Ok (st, 0) a') \<and> attempts m = unat (counter - 1))"
          by auto
        from True big have r0: "se_loop k counter a = Some r"
          by (subst se_loop.simps) (simp add: s1 s2 s3' bind_res_def r)
        from after_trans [OF a03 ar]
        have ar0: "after (8 * Suc (Suc j + i)) (se_failed_msgs status a2 @ m) a (state_of r)"
          by (simp add: distrib_left add.assoc)
        from big have cnz: "counter \<noteq> 0" by auto
        have u: "unat (counter - 1) = unat counter - 1" using cnz by (rule unat_minus_one)
        from big have u1: "1 < unat counter" by (simp add: word_less_nat_alt)
        from u u1 have "unat (counter - 1) \<noteq> 0" by simp
        then have nz: "counter - 1 \<noteq> 0" by auto
        have g3: "gives_up a3 = gives_up a" using rig_after(3) [OF a03] .
        have "never_proben k (port a) \<Longrightarrow> never_proben k (port a3)"
          using never_proben_after [OF _ a03] .
        with np nz g3 ngu have np0: "never_proben k (port a) \<longrightarrow>
              (\<exists>st a'. r = Ok (st, 0) a') \<and> attempts m = unat (counter - 1)"
          by auto
        from le u u1 have "attempts (se_failed_msgs status a2 @ m) \<le> max 1 (unat counter)"
          by simp
        moreover from np0 u u1 have "never_proben k (port a) \<and> counter \<noteq> 0 \<longrightarrow>
              (if gives_up a then (\<exists>a'. r = Exit a') \<and> attempts (se_failed_msgs status a2 @ m) = 1
               else (\<exists>st a'. r = Ok (st, 0) a') \<and> attempts (se_failed_msgs status a2 @ m) = unat counter)"
          using ngu by auto
        moreover from lm have "list_all loop_msg (se_failed_msgs status a2 @ m)" by simp
        ultimately show ?thesis
          using r0 ar0 by blast
      qed
    qed
  qed
qed

definition entry_msg :: "diag \<Rightarrow> bool" where
  "entry_msg d = (loop_msg d \<or> d = Couldnt_enter_serial_execution)"

lemma loop_entry_msgs: "list_all loop_msg m \<Longrightarrow> list_all entry_msg m"
  by (induction m) (simp_all add: entry_msg_def)

lemma status_read:
  assumes "idle a"
  shows "\<exists>a3. bind_res (run [neofoxx_sendCommand k (TAP_SW_MTAP k) 0,
                              neofoxx_setMode SET_MODE_TAP_RESET 1,
                              neofoxx_sendCommand k (MTAP_COMMAND k) 0] a)
                 (\<lambda>_. neofoxx_xferData (MTAP_COMMAND_DR_NBITS k) (MCHP_STATUS k) 1 1)
               = Some (Ok (reply_word (port a) 0) a3)
              \<and> after 8 [] a a3"
proof -
  from sendCommand_queued [OF assms, of k "TAP_SW_MTAP k"]
  obtain b1 where s1: "neofoxx_sendCommand k (TAP_SW_MTAP k) 0 a = Some (Ok () b1)"
    and b1: "queued a b1" by auto
  from b1 have rb1: "ready b1" by (simp add: queued_def)
  from setMode_reset_ready [OF rb1, of 1]
  obtain a2 where s2: "neofoxx_setMode SET_MODE_TAP_RESET 1 b1 = Some (Ok () a2)"
    and a2': "after 0 [] b1 a2" by auto
  note a2 = after_queued [OF b1 a2']
  from sendCommand_queued [OF after_idle [OF a2], of k "MTAP_COMMAND k"]
  obtain b2 where s3: "neofoxx_sendCommand k (MTAP_COMMAND k) 0 a2 = Some (Ok () b2)"
    and b2: "queued a2 b2" by auto
  from b2 have rb2: "ready b2" and pb2: "port b2 = port a2" by (simp_all add: queued_def)
  from xferData_read_ready [OF rb2, of 1 "MTAP_COMMAND_DR_NBITS k" "MCHP_STATUS k" 1]
  obtain a3 where s4: "neofoxx_xferData (MTAP_COMMAND_DR_NBITS k) (MCHP_STATUS k) 1 1 b2
                       = Some (Ok (reply_word (port b2) 0) a3)"
    and a3': "after 8 [] b2 a3" by auto
  from after_trans [OF a2 after_queued [OF b2 a3']] have a3: "after 8 [] a a3" by simp
  from after_reply_word [of 0 "[]" a a2 0] a2 pb2
  have w: "reply_word (port b2) 0 = reply_word (port a) 0" by simp
  from s1 s2 s3 s4 have "bind_res (run [neofoxx_sendCommand k (TAP_SW_MTAP k) 0,
                              neofoxx_setMode SET_MODE_TAP_RESET 1,
                              neofoxx_sendCommand k (MTAP_COMMAND k) 0] a)
                 (\<lambda>_. neofoxx_xferData (MTAP_COMMAND_DR_NBITS k) (MCHP_STATUS k) 1 1)
               = Some (Ok (reply_word (port b2) 0) a3)"
    by (simp add: bind_res_def ret_def)
  with w a3 show ?thesis by auto
qed

lemma serial_execution_prompt:
  assumes i: "idle a" and z: "serial_execution_mode a = 0"
  shows "\<exists>r i m. serial_execution k a = Some r
           \<and> after (8 * Suc i) m (a\<lparr>serial_execution_mode := 1\<rparr>) (state_of r)
           \<and> (if reply_word (port a) 0 AND ucast (MCHP_STATUS_CPS k) = 0
               then (\<exists>a'. r = Exit a') \<and> m = [CPS_bit_is_SET (ucast (reply_word (port a) 0))] \<and> i = 0
               else list_all entry_msg m \<and> attempts m \<le> 20 \<and> 1 \<le> i
                    \<and> ((\<forall>j. reply_word (port a) (Suc j) AND ucast (CONTROL_PROBEN k) = 0) \<longrightarrow>
                          (if gives_up a then (\<exists>a'. r = Exit a') \<and> attempts m = 1
                           else (\<exists>a'. r = Ok () a') \<and> attempts m = 20
                                \<and> last m = Couldnt_enter_serial_execution)))"
proof -
  let ?a0 = "a\<lparr>serial_execution_mode := 1\<rparr>"
  let ?s = "reply_word (port a) 0"
  have i0: "idle ?a0" and p0: "port ?a0 = port a" and g0: "gives_up ?a0 = gives_up a"
    using i by (simp_all add: idle_def gives_up_def jtag_or_default_def mx1_or_mx3_def)
  from status_read [OF i0, of k] p0
  obtain a3 where s: "bind_res (run [neofoxx_sendCommand k (TAP_SW_MTAP k) 0,
                              neofoxx_setMode SET_MODE_TAP_RESET 1,
                              neofoxx_sendCommand k (MTAP_COMMAND k) 0] ?a0)
                 (\<lambda>_. neofoxx_xferData (MTAP_COMMAND_DR_NBITS k) (MCHP_STATUS k) 1 1)
               = Some (Ok ?s a3)"
    and a3: "after 8 [] ?a0 a3" by auto
  have unf: "serial_execution k a =
        bind_res (bind_res (run [neofoxx_sendCommand k (TAP_SW_MTAP k) 0,
                              neofoxx_setMode SET_MODE_TAP_RESET 1,
                              neofoxx_sendCommand k (MTAP_COMMAND k) 0] ?a0)
                 (\<lambda>_. neofoxx_xferData (MTAP_COMMAND_DR_NBITS k) (MCHP_STATUS k) 1 1))
          (\<lambda>status a2.
             if status AND ucast (MCHP_STATUS_CPS k) = 0
             then exit_with (CPS_bit_is_SET (ucast status)) a2
             else bind_res (se_loop k 20 a2) (\<lambda>(status, counter) a3.
                 if counter = 0 then say Couldnt_enter_serial_execution a3 else ret () a3))"
    using z by (simp add: serial_execution_def bind_res_def split: option.splits res.splits)
  show ?thesis
  proof (cases "?s AND ucast (MCHP_STATUS_CPS k) = 0")
    case True
    then have r: "serial_execution k a = Some (Exit (fprintf_stderr (CPS_bit_is_SET (ucast ?s)) a3))"
      by (subst unf, subst s, simp add: bind_res_def exit_with_eq)
    from after_say [OF a3, of "CPS_bit_is_SET (ucast ?s)"] True r show ?thesis
      by (intro exI [of _ "Exit (fprintf_stderr (CPS_bit_is_SET (ucast ?s)) a3)"] exI [of _ 0]
            exI [of _ "[CPS_bit_is_SET (ucast ?s)]"]) simp
  next
    case False
    from se_loop_prompt [OF after_idle [OF a3], of k 20]
    obtain r i m where l: "se_loop k 20 a3 = Some r" and ar: "after (8 * Suc i) m a3 (state_of r)"
      and lm: "list_all loop_msg m" and le: "attempts m \<le> 20"
      and np: "never_proben k (port a3) \<longrightarrow>
              (if gives_up a3 then (\<exists>a'. r = Exit a') \<and> attempts m = 1
               else (\<exists>st a'. r = Ok (st, 0) a') \<and> attempts m = 20)"
      by auto
    from after_trans [OF a3 ar] have ar0: "after (8 * Suc (Suc i)) m ?a0 (state_of r)"
      by simp
    have g3: "gives_up a3 = gives_up a" using rig_after(3) [OF a3] g0 by simp
    have npa: "(\<forall>j. reply_word (port a) (Suc j) AND ucast (CONTROL_PROBEN k) = 0) \<Longrightarrow> never_proben k (port a3)"
      using after_reply_word [of 1 "[]" ?a0 a3] a3 p0 by (simp add: never_proben_def)
    show ?thesis
    proof (cases r)
      case (Exit a')
      with False l have r: "serial_execution k a = Some (Exit a')"
        by (subst unf, subst s, simp add: bind_res_def)
      from np npa g3 Exit have "(\<forall>j. reply_word (port a) (Suc j) AND ucast (CONTROL_PROBEN k) = 0) \<longrightarrow>
                          (if gives_up a then (\<exists>a'. Exit a' = (Exit a' :: unit res)) \<and> attempts m = 1
                           else False)"
        by auto
      with r ar0 Exit False lm le show ?thesis
        by (intro exI [of _ "Exit a'"] exI [of _ "Suc i"] exI [of _ m])
           (auto simp: loop_entry_msgs)
    next
      case (Ok v a')
      obtain st c where v: "v = (st, c)" by (cases v)
      show ?thesis
      proof (cases "c = 0")
        case True
        with False l Ok v have r: "serial_execution k a
                = Some (Ok () (fprintf_stderr Couldnt_enter_serial_execution a'))"
          by (subst unf, subst s, simp add: bind_res_def say_def ret_def)
        from ar0 Ok have "after (8 * Suc (Suc i)) (m @ [Couldnt_enter_serial_execution]) ?a0
                            (fprintf_stderr Couldnt_enter_serial_execution a')"
          using after_say by simp
        moreover have "list_all entry_msg (m @ [Couldnt_enter_serial_execution])"
          using lm by (simp add: loop_entry_msgs) (simp add: entry_msg_def)
        moreover from np npa g3 Ok
        have "(\<forall>j. reply_word (port a) (Suc j) AND ucast (CONTROL_PROBEN k) = 0) \<longrightarrow>
                \<not> gives_up a \<and> attempts m = 20"
          by auto
        ultimately show ?thesis
          using r False le
          by (intro exI [of _ "Ok () (fprintf_stderr Couldnt_enter_serial_execution a')"]
                exI [of _ "Suc i"] exI [of _ "m @ [Couldnt_enter_serial_execution]"]) auto
      next
        case nz: False
        with False l Ok v have r: "serial_execution k a = Some (Ok () a')"
          by (subst unf, subst s, simp add: bind_res_def ret_def)
        from np npa g3 Ok v nz
        have "\<not> (\<forall>j. reply_word (port a) (Suc j) AND ucast (CONTROL_PROBEN k) = 0)"
          by auto
        with r ar0 Ok False lm le show ?thesis
          by (intro exI [of _ "Ok () a'"] exI [of _ "Suc i"] exI [of _ m])
             (auto simp: loop_entry_msgs)
      qed
    qed
  qed
qed

definition returns :: "'a res option \<Rightarrow> bool" where
  "returns m = (case m of None \<Rightarrow> False | Some r \<Rightarrow> (case r of Ok v a \<Rightarrow> True | Exit a \<Rightarrow> False))"

definition exits :: "'a res option \<Rightarrow> bool" where
  "exits m = (case m of None \<Rightarrow> False | Some r \<Rightarrow> (case r of Ok v a \<Rightarrow> False | Exit a \<Rightarrow> True))"

definition log_of :: "'a res option \<Rightarrow> diag list" where
  "log_of m = (case m of None \<Rightarrow> [] | Some r \<Rightarrow> stderr (state_of r))"

definition flag_of :: "'a res option \<Rightarrow> u32 option" where
  "flag_of m = map_option (\<lambda>r. serial_execution_mode (state_of r)) m"

lemma observers [simp]:
  "returns (Some (Ok v a))" "\<not> returns (Some (Exit a))"
  "exits (Some (Exit a))" "\<not> exits (Some (Ok v a))"
  "log_of (Some r) = stderr (state_of r)"
  "flag_of (Some r) = Some (serial_execution_mode (state_of r))"
  by (simp_all add: returns_def exits_def log_of_def flag_of_def)

definition tone :: "nat \<Rightarrow> byte" where
  "tone i = (if i mod 8 = 0 then 0x80 else 0)"

lemma mod8_offset: "c < 8 \<Longrightarrow> (8 * j + c) mod 8 = (c :: nat)"
  by simp

lemma tone_at: "c < 8 \<Longrightarrow> tone (8 * j + c) = (if c = 0 then 0x80 else 0)"
  by (simp only: tone_def mod8_offset)

lemma tone_reply: "reply_word (port (bench i f tone)) j = 0x80"
  by (simp add: reply_word_bytes word64_of_8 bench_def prompt_line_def
        tone_at [of 0 j, simplified] tone_at [of 1 j, simplified] tone_at [of 2 j, simplified]
        tone_at [of 3 j, simplified] tone_at [of 4 j, simplified] tone_at [of 5 j, simplified]
        tone_at [of 6 j, simplified] tone_at [of 7 j, simplified])

lemma zero_reply: "reply_word (port (bench i f (\<lambda>_. 0))) j = 0"
  by (simp add: reply_word_bytes word64_of_8 bench_def prompt_line_def)

lemma bench_fields [simp]:
  "serial_execution_mode (bench i f r) = 0" "stderr (bench i f r) = []"
  "use_executive (bench i f r) = 0" "interface (bench i f r) = i" "family_name_short (bench i f r) = f"
  "rx_pos (port (bench i f r)) = 0" "tx (port (bench i f r)) = []" "way (bench i f r) = 0"
  by (simp_all add: bench_def prompt_line_def)

lemma not_entry_msg_cps: "\<not> entry_msg (CPS_bit_is_SET s)"
  by (simp add: entry_msg_def loop_msg_def is_failed_def)

text \<open>
  Claim C1, as the code has it. On a prompt line, with the flag clear: the status word is
  the first reply. When its CPS bit is clear the call exits, having printed the
  erase-first diagnostic and read nothing but the status. When the CPS bit is set the
  call goes past the check into the entry loop: it reads the control register at least
  once, and everything it prints is a message of the loop.
\<close>

theorem cps_check:
  assumes "idle a" and "serial_execution_mode a = 0"
  shows "\<exists>r i m. serial_execution k a = Some r \<and> stderr (state_of r) = stderr a @ m
           \<and> rx_pos (port (state_of r)) = rx_pos (port a) + 8 * i
           \<and> (if reply_word (port a) 0 AND ucast (MCHP_STATUS_CPS k) = 0
               then (\<exists>a'. r = Exit a') \<and> m = [CPS_bit_is_SET (ucast (reply_word (port a) 0))] \<and> i = 1
               else list_all entry_msg m \<and> 2 \<le> i)"
proof -
  from serial_execution_prompt [OF assms, of k]
  obtain r i m where r: "serial_execution k a = Some r"
    and a: "after (8 * Suc i) m (a\<lparr>serial_execution_mode := 1\<rparr>) (state_of r)"
    and c: "if reply_word (port a) 0 AND ucast (MCHP_STATUS_CPS k) = 0
            then (\<exists>a'. r = Exit a') \<and> m = [CPS_bit_is_SET (ucast (reply_word (port a) 0))] \<and> i = 0
            else list_all entry_msg m \<and> attempts m \<le> 20 \<and> 1 \<le> i"
    by (auto split: if_splits)
  from a have "stderr (state_of r) = stderr a @ m"
    and "rx_pos (port (state_of r)) = rx_pos (port a) + 8 * Suc i"
    by (simp_all add: after_def)
  with r c show ?thesis
    by (intro exI [of _ r] exI [of _ "Suc i"] exI [of _ m]) (auto split: if_splits)
qed


text \<open>
  Two targets on the bench: one that answers every read with the word \<open>0x80\<close> (CPS
  set, ProbEn never set), on an MX1 over JTAG, and one that answers with zero.
\<close>

lemma pic32_values_fields:
  "MCHP_STATUS_CPS pic32_values = 0x80" "CONTROL_PROBEN pic32_values = 0x8000"
  "CONTROL_PRACC pic32_values = 0x40000"
  "PE_READ pic32_values = 1" "PE_WORD_PROGRAM pic32_values = 3"
  "PE_QUAD_WORD_PGRM pic32_values = 13" "PE_GET_CRC pic32_values = 8"
  by (simp_all add: pic32_values_def)

definition stuck_target :: neofoxx_adapter where
  "stuck_target = bench INTERFACE_JTAG FAMILY_MX1 tone"

definition blank_target :: neofoxx_adapter where
  "blank_target = bench INTERFACE_JTAG FAMILY_MX1 (\<lambda>_. 0)"

lemma stuck_target_facts:
  "idle stuck_target" "serial_execution_mode stuck_target = 0" "stderr stuck_target = []"
  "reply_word (port stuck_target) j = 0x80" "\<not> gives_up stuck_target"
  by (simp_all add: stuck_target_def tone_reply gives_up_def mx1_or_mx3_def)

lemma blank_target_facts:
  "idle blank_target" "serial_execution_mode blank_target = 0" "stderr blank_target = []"
  "reply_word (port blank_target) j = 0"
  by (simp_all add: blank_target_def zero_reply)

lemma stuck_target_run:
  "\<exists>a'. serial_execution pic32_values stuck_target = Some (Ok () a')
        \<and> serial_execution_mode a' = 1 \<and> list_all entry_msg (stderr a')
        \<and> attempts (stderr a') = 20 \<and> last (stderr a') = Couldnt_enter_serial_execution"
proof -
  from serial_execution_prompt [OF stuck_target_facts(1,2), of pic32_values]
  obtain r n m where r: "serial_execution pic32_values stuck_target = Some r"
    and a: "after n m (stuck_target\<lparr>serial_execution_mode := 1\<rparr>) (state_of r)"
    and c: "list_all entry_msg m" "(\<exists>a'. r = Ok () a')" "attempts m = 20"
           "last m = Couldnt_enter_serial_execution"
    by (auto simp: stuck_target_facts pic32_values_fields)
  from a have "stderr (state_of r) = m" and "serial_execution_mode (state_of r) = 1"
    by (simp_all add: after_def stuck_target_facts)
  with r c show ?thesis by auto
qed

lemma blank_target_run:
  "\<exists>a'. serial_execution pic32_values blank_target = Some (Exit a')
        \<and> stderr a' = [CPS_bit_is_SET 0] \<and> serial_execution_mode a' = 1"
proof -
  from serial_execution_prompt [OF blank_target_facts(1,2), of pic32_values]
  obtain r n m where r: "serial_execution pic32_values blank_target = Some r"
    and a: "after n m (blank_target\<lparr>serial_execution_mode := 1\<rparr>) (state_of r)"
    and c: "(\<exists>a'. r = Exit a')" "m = [CPS_bit_is_SET 0]"
    by (auto simp: blank_target_facts pic32_values_fields)
  from a have "stderr (state_of r) = m" and "serial_execution_mode (state_of r) = 1"
    by (simp_all add: after_def blank_target_facts)
  with r c show ?thesis by auto
qed

theorem cps_check_witness:
  "exits (serial_execution pic32_values blank_target)
   \<and> log_of (serial_execution pic32_values blank_target) = [CPS_bit_is_SET 0]
   \<and> list_all entry_msg (log_of (serial_execution pic32_values stuck_target))"
proof -
  from cps_check [OF blank_target_facts(1,2), of pic32_values]
  have b: "exits (serial_execution pic32_values blank_target)
           \<and> log_of (serial_execution pic32_values blank_target) = [CPS_bit_is_SET 0]"
    by (auto simp: blank_target_facts pic32_values_fields)
  from cps_check [OF stuck_target_facts(1,2), of pic32_values]
  have "list_all entry_msg (log_of (serial_execution pic32_values stuck_target))"
    by (auto simp: stuck_target_facts pic32_values_fields)
  with b show ?thesis by simp
qed

text \<open>
  The claim as stated has the call fail when the CPS bit is set and go on when it is
  clear. The blank target answers the status read with zero, CPS clear, and the call
  exits with the diagnostic; the stuck target answers with \<open>0x80\<close>, CPS set, and the
  call goes through the loop and returns.
\<close>

theorem cps_set_counterexample:
  "reply_word (port blank_target) 0 AND ucast (MCHP_STATUS_CPS pic32_values) = 0
   \<and> exits (serial_execution pic32_values blank_target)
   \<and> log_of (serial_execution pic32_values blank_target) = [CPS_bit_is_SET 0]
   \<and> reply_word (port stuck_target) 0 AND ucast (MCHP_STATUS_CPS pic32_values) = 0x80
   \<and> returns (serial_execution pic32_values stuck_target)"
  using blank_target_run stuck_target_run
  by (auto simp: blank_target_facts stuck_target_facts pic32_values_fields)

text \<open>
  Claim C9. On a prompt line, against a target whose control-register reads never have
  ProbEn set (every reply after the status word), \<open>serial_execution\<close> ends: it exits at
  the status check with no pass of the loop, or it exits in the first pass (JTAG or
  default interface, family other than MX1 and MX3), or it returns after exactly 20
  passes, the last message being that it could not enter serial execution. Each pass
  that fails prints one failure message, and they are counted.
\<close>

theorem serial_execution_bounded:
  assumes "idle a" and "serial_execution_mode a = 0"
    and "\<forall>j. reply_word (port a) (Suc j) AND ucast (CONTROL_PROBEN k) = 0"
  shows "\<exists>r m. serial_execution k a = Some r \<and> stderr (state_of r) = stderr a @ m
           \<and> attempts m \<le> 20
           \<and> (if reply_word (port a) 0 AND ucast (MCHP_STATUS_CPS k) = 0
               then (\<exists>a'. r = Exit a') \<and> attempts m = 0
               else if gives_up a then (\<exists>a'. r = Exit a') \<and> attempts m = 1
               else (\<exists>a'. r = Ok () a') \<and> attempts m = 20
                    \<and> last m = Couldnt_enter_serial_execution)"
proof -
  from serial_execution_prompt [OF assms(1,2), of k]
  obtain r i m where r: "serial_execution k a = Some r"
    and a: "after (8 * Suc i) m (a\<lparr>serial_execution_mode := 1\<rparr>) (state_of r)"
    and c: "if reply_word (port a) 0 AND ucast (MCHP_STATUS_CPS k) = 0
            then (\<exists>a'. r = Exit a') \<and> m = [CPS_bit_is_SET (ucast (reply_word (port a) 0))] \<and> i = 0
            else list_all entry_msg m \<and> attempts m \<le> 20 \<and> 1 \<le> i
                 \<and> ((\<forall>j. reply_word (port a) (Suc j) AND ucast (CONTROL_PROBEN k) = 0) \<longrightarrow>
                          (if gives_up a then (\<exists>a'. r = Exit a') \<and> attempts m = 1
                           else (\<exists>a'. r = Ok () a') \<and> attempts m = 20
                                \<and> last m = Couldnt_enter_serial_execution))"
    by blast
  from a have "stderr (state_of r) = stderr a @ m"
    by (simp add: after_def)
  with r c assms(3) show ?thesis
    by (intro exI [of _ r] exI [of _ m]) (auto split: if_splits)
qed

theorem serial_execution_bounded_witness:
  "returns (serial_execution pic32_values stuck_target)
   \<and> attempts (log_of (serial_execution pic32_values stuck_target)) = 20
   \<and> last (log_of (serial_execution pic32_values stuck_target)) = Couldnt_enter_serial_execution"
proof -
  have np: "\<forall>j. reply_word (port stuck_target) (Suc j) AND ucast (CONTROL_PROBEN pic32_values) = 0"
    by (simp add: stuck_target_facts pic32_values_fields)
  from serial_execution_bounded [OF stuck_target_facts(1,2) np]
  show ?thesis
    by (auto simp: stuck_target_facts pic32_values_fields)
qed

text \<open>
  A call that finds the flag set returns at once and changes nothing.
\<close>

lemma serial_execution_sticky:
  "serial_execution_mode a \<noteq> 0 \<Longrightarrow> serial_execution k a = Some (Ok () a)"
  by (simp add: serial_execution_def ret_def)

text \<open>
  Claim C8. The code sets the flag at the start of the call, and the paths on which the
  entry fails leave the program, but for one: after 20 failed passes the call prints that
  it could not enter serial execution and is quitting, and returns. Against the stuck
  target, whose control register never shows ProbEn, the call returns with the flag set,
  and a second call on the adapter it left returns at once.
\<close>

theorem failed_entry_returns_with_flag_set:
  "reply_word (port stuck_target) (Suc j) AND ucast (CONTROL_PROBEN pic32_values) = 0
   \<and> returns (serial_execution pic32_values stuck_target)
   \<and> attempts (log_of (serial_execution pic32_values stuck_target)) = 20
   \<and> last (log_of (serial_execution pic32_values stuck_target)) = Couldnt_enter_serial_execution
   \<and> flag_of (serial_execution pic32_values stuck_target) = Some 1
   \<and> returns (bind_res (serial_execution pic32_values stuck_target)
                 (\<lambda>_. serial_execution pic32_values))"
proof -
  from stuck_target_run
  obtain a' where r: "serial_execution pic32_values stuck_target = Some (Ok () a')"
    and f: "serial_execution_mode a' = 1"
    and l: "attempts (stderr a') = 20" "last (stderr a') = Couldnt_enter_serial_execution"
    by blast
  from f have "serial_execution pic32_values a' = Some (Ok () a')"
    by (simp add: serial_execution_sticky)
  with r f l show ?thesis
    by (simp add: bind_res_def stuck_target_facts pic32_values_fields)
qed

text \<open>
  A target that answers with two 64-bit words in turn, given by their bytes: the first
  list for the replies of even index, the second for those of odd index.
\<close>

definition two_tone :: "byte list \<Rightarrow> byte list \<Rightarrow> nat \<Rightarrow> byte" where
  "two_tone ev od i = (if (i div 8) mod 2 = 0 then ev ! (i mod 8) else od ! (i mod 8))"

lemma div8_offset: "c < 8 \<Longrightarrow> (8 * j + c) div 8 = (j :: nat)"
  by simp

lemma two_tone_at:
  "c < 8 \<Longrightarrow> two_tone ev od (8 * j + c) = (if j mod 2 = 0 then ev ! c else od ! c)"
  by (simp only: two_tone_def mod8_offset div8_offset)

lemma two_tone_reply:
  "reply_word (port (bench i f (two_tone [e0, e1, e2, e3, e4, e5, e6, e7] [d0, d1, d2, d3, d4, d5, d6, d7]))) j
     = (if j mod 2 = 0 then word64_of [e0, e1, e2, e3, e4, e5, e6, e7]
        else word64_of [d0, d1, d2, d3, d4, d5, d6, d7])"
  by (simp add: reply_word_bytes bench_def prompt_line_def
        two_tone_at [of 0 _ _ j, simplified] two_tone_at [of 1 _ _ j, simplified]
        two_tone_at [of 2 _ _ j, simplified] two_tone_at [of 3 _ _ j, simplified]
        two_tone_at [of 4 _ _ j, simplified] two_tone_at [of 5 _ _ j, simplified]
        two_tone_at [of 6 _ _ j, simplified] two_tone_at [of 7 _ _ j, simplified])

lemma pe_wait_ready:
  "ready a \<Longrightarrow> (ucast (reply_word (port a) j) :: u32) AND CONTROL_PRACC k \<noteq> 0
   \<Longrightarrow> (\<forall>i<j. (ucast (reply_word (port a) i) :: u32) AND CONTROL_PRACC k = 0)
   \<Longrightarrow> \<exists>a'. pe_wait k a = Some (Ok (ucast (reply_word (port a) j)) a') \<and> after (8 * Suc j) [] a a'"
proof (induction j arbitrary: a)
  case 0
  from xferData_read_ready [OF "0.prems"(1), of 1 32
         "CONTROL_PRACC k OR CONTROL_PROBEN k OR CONTROL_PROBTRAP k OR CONTROL_EJTAGBRK k" 1]
  obtain a1 where x: "neofoxx_xferData 32
         (CONTROL_PRACC k OR CONTROL_PROBEN k OR CONTROL_PROBTRAP k OR CONTROL_EJTAGBRK k) 1 1 a
         = Some (Ok (reply_word (port a) 0) a1)"
    and a1: "after 8 [] a a1" by auto
  from "0.prems"(2) have "pe_wait k a = Some (Ok (ucast (reply_word (port a) 0)) a1)"
    by (subst pe_wait.simps) (simp add: x)
  with a1 show ?case by auto
next
  case (Suc j)
  from xferData_read_ready [OF Suc.prems(1), of 1 32
         "CONTROL_PRACC k OR CONTROL_PROBEN k OR CONTROL_PROBTRAP k OR CONTROL_EJTAGBRK k" 1]
  obtain a1 where x: "neofoxx_xferData 32
         (CONTROL_PRACC k OR CONTROL_PROBEN k OR CONTROL_PROBTRAP k OR CONTROL_EJTAGBRK k) 1 1 a
         = Some (Ok (reply_word (port a) 0) a1)"
    and a1: "after 8 [] a a1" by auto
  have sh: "reply_word (port a1) i = reply_word (port a) (Suc i)" for i
    using after_reply_word [of 1 "[]" a a1 i] a1 by simp
  from Suc.prems(3) have z: "(ucast (reply_word (port a) 0) :: u32) AND CONTROL_PRACC k = 0"
    by simp
  have "\<exists>a'. pe_wait k a1 = Some (Ok (ucast (reply_word (port a1) j)) a') \<and> after (8 * Suc j) [] a1 a'"
  proof (rule Suc.IH [OF after_ready [OF a1]])
    show "(ucast (reply_word (port a1) j) :: u32) AND CONTROL_PRACC k \<noteq> 0"
      using Suc.prems(2) by (simp add: sh)
    show "\<forall>i<j. (ucast (reply_word (port a1) i) :: u32) AND CONTROL_PRACC k = 0"
      using Suc.prems(3) by (simp add: sh)
  qed
  then obtain a' where r: "pe_wait k a1 = Some (Ok (ucast (reply_word (port a) (Suc j))) a')"
    and a': "after (8 * Suc j) [] a1 a'"
    by (auto simp: sh)
  from z have "pe_wait k a = pe_wait k a1"
    by (subst pe_wait.simps) (simp add: x)
  with r after_trans [OF a1 a'] show ?case by auto
qed

lemma get_pe_response_ready:
  assumes "ready a"
    and "(ucast (reply_word (port a) j) :: u32) AND CONTROL_PRACC k \<noteq> 0"
    and "\<forall>i<j. (ucast (reply_word (port a) i) :: u32) AND CONTROL_PRACC k = 0"
  shows "\<exists>a'. get_pe_response k a = Some (Ok (ucast (reply_word (port a) (Suc j))) a')
              \<and> after (8 * Suc (Suc j)) [] a a'"
proof -
  from sendCommand_ready [OF assms(1), of 1 k "ETAP_CONTROL k"]
  obtain a1 where s1: "neofoxx_sendCommand k (ETAP_CONTROL k) 1 a = Some (Ok () a1)"
    and a1: "after 0 [] a a1" by auto
  have w0: "reply_word (port a1) i = reply_word (port a) i" for i
    using after_reply_word [of 0 "[]" a a1 i] a1 by simp
  from pe_wait_ready [OF after_ready [OF a1], of j k] assms(2,3)
  obtain a2 where s2: "pe_wait k a1 = Some (Ok (ucast (reply_word (port a) j)) a2)"
    and a2: "after (8 * Suc j) [] a1 a2" by (auto simp: w0)
  from sendCommand_ready [OF after_ready [OF a2], of 1 k "ETAP_DATA k"]
  obtain a3 where s3: "neofoxx_sendCommand k (ETAP_DATA k) 1 a2 = Some (Ok () a3)"
    and a3: "after 0 [] a2 a3" by auto
  from after_trans [OF after_trans [OF a1 a2] a3] have a03: "after (8 * Suc j) [] a a3" by simp
  from xferData_read_ready [OF after_ready [OF a3], of 1 32 0 1]
  obtain a4 where s4: "neofoxx_xferData 32 0 1 1 a3 = Some (Ok (reply_word (port a3) 0) a4)"
    and a4: "after 8 [] a3 a4" by auto
  have w3: "reply_word (port a3) 0 = reply_word (port a) (Suc j)"
    using after_reply_word [OF a03, of 0] by simp
  from sendCommand_ready [OF after_ready [OF a4], of 1 k "ETAP_CONTROL k"]
  obtain a5 where s5: "neofoxx_sendCommand k (ETAP_CONTROL k) 1 a4 = Some (Ok () a5)"
    and a5: "after 0 [] a4 a5" by auto
  from xferData_write_ready [OF after_ready [OF a5], of 1 32 "CONTROL_PROBEN k OR CONTROL_PROBTRAP k"]
  obtain a6 where s6: "neofoxx_xferData 32 (CONTROL_PROBEN k OR CONTROL_PROBTRAP k) 0 1 a5 = Some (Ok 0 a6)"
    and a6: "after 0 [] a5 a6" by auto
  from s1 s2 s3 s4 s5 s6
  have "get_pe_response k a = Some (Ok (ucast (reply_word (port a) (Suc j))) a6)"
    by (simp add: get_pe_response_def bind_res_def ret_def ignore_def w3)
  moreover from after_trans [OF after_trans [OF after_trans [OF a03 a4] a5] a6]
  have "after (8 * Suc (Suc j)) [] a a6" by simp
  ultimately show ?thesis by auto
qed

text \<open>
  A programming executive that answers: each reply of even index still to come is a
  control word with PrACC, each reply of odd index is the response \<open>v\<close>.
\<close>

definition pe_answers :: "pic32_h \<Rightarrow> u32 \<Rightarrow> port \<Rightarrow> bool" where
  "pe_answers k v p =
     (\<forall>t. (ucast (reply_word p (2 * t)) :: u32) AND CONTROL_PRACC k \<noteq> 0
          \<and> (ucast (reply_word p (2 * t + 1)) :: u32) = v)"

lemma pe_answers_after:
  "pe_answers k v (port a) \<Longrightarrow> after (16 * n) m a a' \<Longrightarrow> pe_answers k v (port a')"
proof -
  assume p: "pe_answers k v (port a)" and a: "after (16 * n) m a a'"
  then have a8: "after (8 * (2 * n)) m a a'" by simp
  have "reply_word (port a') j = reply_word (port a) (2 * n + j)" for j
    using after_reply_word [OF a8] .
  moreover have "2 * n + 2 * t = 2 * (n + t)" and "2 * n + (2 * t + 1) = 2 * (n + t) + 1" for t
    by simp_all
  ultimately show ?thesis
    using p unfolding pe_answers_def by (metis (no_types))
qed

lemma get_pe_response_answers:
  assumes "ready a" and "pe_answers k v (port a)"
  shows "\<exists>a'. get_pe_response k a = Some (Ok v a') \<and> after 16 [] a a'"
proof -
  from assms(2) have p: "(ucast (reply_word (port a) 0) :: u32) AND CONTROL_PRACC k \<noteq> 0"
    and v: "(ucast (reply_word (port a) (Suc 0)) :: u32) = v"
    unfolding pe_answers_def using spec [of _ 0] by (simp_all, metis mult_zero_right, metis One_nat_def add.left_neutral mult_zero_right)
  from get_pe_response_ready [OF assms(1), of 0 k] p v show ?thesis by simp
qed

definition prACC_warnings :: "diag list \<Rightarrow> bool" where
  "prACC_warnings m = list_all (\<lambda>d. d = PrACC_not_set) m"

lemma fastdata_words_ready:
  "idle a \<Longrightarrow>
     \<exists>a' m. run (map (\<lambda>w. ignore (neofoxx_xferFastData_PC_slow w 0)) ws) a = Some (Ok () a')
        \<and> after (8 * length ws) m a a' \<and> prACC_warnings m"
proof (induction ws arbitrary: a)
  case Nil
  from after_refl [OF Nil] have "after (8 * length ([] :: u32 list)) [] a a \<and> prACC_warnings []"
    by (simp add: prACC_warnings_def)
  then show ?case
    by (intro exI [of _ a] exI [of _ "[]"]) (simp add: ret_def)
next
  case (Cons w ws)
  from xferFastData_ready [OF idle_ready [OF Cons.prems], of w 0]
  obtain a1 m1 where s1: "neofoxx_xferFastData_PC_slow w 0 a = Some (Ok 0 a1)"
    and a1: "after 8 m1 a a1" and m1: "prACC_warnings m1"
    by (auto simp: prACC_warnings_def split: if_splits)
  from Cons.IH [OF after_idle [OF a1]]
  obtain a2 m2 where s2: "run (map (\<lambda>w. ignore (neofoxx_xferFastData_PC_slow w 0)) ws) a1 = Some (Ok () a2)"
    and a2: "after (8 * length ws) m2 a1 a2" and m2: "prACC_warnings m2"
    by auto
  from s1 s2 have "run (map (\<lambda>w. ignore (neofoxx_xferFastData_PC_slow w 0)) (w # ws)) a = Some (Ok () a2)"
    by (simp add: bind_res_def ignore_def ret_def)
  moreover from after_trans [OF a1 a2] have "after (8 * length (w # ws)) (m1 @ m2) a a2"
    by simp
  moreover from m1 m2 have "prACC_warnings (m1 @ m2)"
    by (simp add: prACC_warnings_def)
  ultimately show ?case by blast
qed

text \<open>
  The request of a PE command: the selection of the FASTDATA register and the words of
  the command, each sent by \<open>neofoxx_xferFastData_PC_slow\<close>.
\<close>

definition pe_request :: "pic32_h \<Rightarrow> u32 list \<Rightarrow> neofoxx_adapter \<Rightarrow> unit res option" where
  "pe_request k ws =
     run (neofoxx_sendCommand k (ETAP_FASTDATA k) 1
          # map (\<lambda>w. ignore (neofoxx_xferFastData_PC_slow w 0)) ws)"

lemma pe_request_ready:
  assumes "idle a"
  shows "\<exists>a' m. pe_request k ws a = Some (Ok () a') \<and> after (8 * length ws) m a a' \<and> prACC_warnings m"
proof -
  from sendCommand_ready [OF idle_ready [OF assms], of 1 k "ETAP_FASTDATA k"]
  obtain a1 where s1: "neofoxx_sendCommand k (ETAP_FASTDATA k) 1 a = Some (Ok () a1)"
    and a1: "after 0 [] a a1" by auto
  from fastdata_words_ready [OF after_idle [OF a1], of ws]
  obtain a2 m where s2: "run (map (\<lambda>w. ignore (neofoxx_xferFastData_PC_slow w 0)) ws) a1 = Some (Ok () a2)"
    and a2: "after (8 * length ws) m a1 a2" and m: "prACC_warnings m" by auto
  from s1 s2 have "pe_request k ws a = Some (Ok () a2)"
    by (simp add: pe_request_def bind_res_def)
  with after_trans [OF a1 a2] m show ?thesis by auto
qed

lemma program_word_unfold:
  "use_executive a \<noteq> 0 \<Longrightarrow>
   neofoxx_program_word k addr word a =
     bind_res (pe_request k [push_bit 16 (PE_WORD_PROGRAM k) OR 2, addr, word]
                 (fprintf_stderr (Workaround_active ''neofoxx_program_word'')
                   (if FAMILY_MM = family_name_short a
                    then fprintf_stderr Program_word_not_available_on_MM a else a)))
       (\<lambda>_ a2. bind_res (get_pe_response k a2) (\<lambda>response a3.
          if response \<noteq> push_bit 16 (PE_WORD_PROGRAM k)
          then exit_with (Failed_to_program_word response) a3
          else ret () a3))"
  by (simp add: neofoxx_program_word_def pe_request_def Let_def say_def ret_def bind_res_def
        fprintf_stderr_def)

lemma program_quad_word_unfold:
  "use_executive a \<noteq> 0 \<Longrightarrow>
   neofoxx_program_quad_word k addr word0 word1 word2 word3 a =
     bind_res (pe_request k [push_bit 16 (PE_QUAD_WORD_PGRM k), addr, word0, word1, word2, word3]
                 (fprintf_stderr (Workaround_active ''neofoxx_program_quad_word'')
                   (if FAMILY_MK \<noteq> family_name_short a \<and> FAMILY_MZ \<noteq> family_name_short a
                    then fprintf_stderr Program_quad_word_only_on_MK_MZ a else a)))
       (\<lambda>_ a2. bind_res (get_pe_response k a2) (\<lambda>response a3.
          if response \<noteq> push_bit 16 (PE_QUAD_WORD_PGRM k)
          then exit_with (Failed_to_program_quad_words response) a3
          else ret () a3))"
  by (simp add: neofoxx_program_quad_word_def pe_request_def Let_def say_def ret_def bind_res_def
        fprintf_stderr_def)

definition tx_of :: "'a res option \<Rightarrow> byte list" where
  "tx_of m = (case m of None \<Rightarrow> [] | Some r \<Rightarrow> tx (port (state_of r)))"

lemma tx_of_Some [simp]: "tx_of (Some r) = tx (port (state_of r))"
  by (simp add: tx_of_def)

lemma le32_bytes: "le32 w = [ucast w, ucast (drop_bit 8 w), ucast (drop_bit 16 w), ucast (drop_bit 24 w)]"
proof -
  have u: "[0..<4] = [0, Suc 0, 2, 3::nat]" by (simp add: eval_nat_numeral)
  show ?thesis unfolding le32_def u by simp
qed

lemma le64_bytes:
  "le64 w = [ucast w, ucast (drop_bit 8 w), ucast (drop_bit 16 w), ucast (drop_bit 24 w),
             ucast (drop_bit 32 w), ucast (drop_bit 40 w), ucast (drop_bit 48 w), ucast (drop_bit 56 w)]"
proof -
  have u: "[0..<8] = [0, Suc 0, 2, 3, 4, 5, 6, 7::nat]" by (simp add: eval_nat_numeral)
  show ?thesis unfolding le64_def u by simp
qed

text \<open>
  The packet that selects the FASTDATA register, with the values of \<open>pic32_values\<close>:
  sync byte, length 34, the SEND command with TMS prolog (4 bits, 0011), TDI (5 bits,
  the command 14), TMS epilog (2 bits, 01), no read, and the checksum.
\<close>

definition fastdata_select_packet :: "byte list" where
  "fastdata_select_packet =
     [0x70, 34, 0,
      6, 4, 0, 0, 0, 3, 0, 0, 0, 5, 0, 0, 0, 14, 0, 0, 0, 0, 0, 0, 0, 2, 0, 0, 0, 1, 0, 0, 0, 0, 0, 0, 0,
      35]"

lemma fastdata_select_tx:
  assumes "idle a"
  shows "\<exists>a'. neofoxx_sendCommand pic32_values (ETAP_FASTDATA pic32_values) 1 a = Some (Ok () a')
              \<and> after 0 [] a a'
              \<and> tx (port a') = tx (port a) @ fastdata_select_packet"
proof -
  let ?d = "[COMMAND_SEND] @ le32 4 @ le32 0b0011 @ le32 5 @ le64 14 @ le32 2 @ le32 0b01 @ le32 0"
  let ?b = "neofoxx_send 4 0b0011 5 14 2 0b01 0 a"
  from assms have z: "bytes_to_write a = 0" by (simp add: idle_def)
  have b: "?b = (add_to_packet ?d a)\<lparr>bytes_to_read := bytes_to_read a + 0\<rparr>"
    by (simp add: neofoxx_send_eq)
  from holds_first [OF z, of ?d] have h: "holds ?b ?d"
    unfolding b by (simp add: holds_def)
  have p: "packet_of ?b = fastdata_select_packet"
    unfolding packet_of_holds [OF h]
    by (simp add: le32_bytes le64_bytes fastdata_select_packet_def PACKET_BYTE_def)
  from send_pending [OF idle_ready [OF assms], of 0 4 "0b0011" 5 14 2 "0b01"]
  have "pending 0 a ?b" by simp
  from flush_pending [OF this]
  have f: "neofoxx_flush_output ?b = Some (flushed_state ?b)" and af: "after 0 [] a (flushed_state ?b)"
    by simp_all
  have s: "neofoxx_sendCommand pic32_values (ETAP_FASTDATA pic32_values) 1 a = Some (Ok () (flushed_state ?b))"
    by (simp add: neofoxx_sendCommand_def pic32_values_def Let_def flushed_def f)
  have "tx (port (flushed_state ?b)) = tx (port a) @ fastdata_select_packet"
    by (simp add: flushed_state_fields p neofoxx_send_fields)
  with s af show ?thesis by blast
qed

lemma pe_request_tx:
  assumes "idle a"
  shows "\<exists>a' m bs. pe_request pic32_values ws a = Some (Ok () a')
           \<and> after (8 * length ws) m a a' \<and> prACC_warnings m
           \<and> tx (port a') = tx (port a) @ fastdata_select_packet @ bs"
proof -
  from fastdata_select_tx [OF assms]
  obtain a1 where s1: "neofoxx_sendCommand pic32_values (ETAP_FASTDATA pic32_values) 1 a = Some (Ok () a1)"
    and a1: "after 0 [] a a1" and t1: "tx (port a1) = tx (port a) @ fastdata_select_packet" by auto
  from fastdata_words_ready [OF after_idle [OF a1], of ws]
  obtain a2 m where s2: "run (map (\<lambda>w. ignore (neofoxx_xferFastData_PC_slow w 0)) ws) a1 = Some (Ok () a2)"
    and a2: "after (8 * length ws) m a1 a2" and m: "prACC_warnings m" by auto
  from a2 obtain bs where "tx (port a2) = tx (port a1) @ bs" by (auto simp: after_def)
  with t1 have t2: "tx (port a2) = tx (port a) @ fastdata_select_packet @ bs" by simp
  from s1 s2 have "pe_request pic32_values ws a = Some (Ok () a2)"
    by (simp add: pe_request_def bind_res_def)
  with after_trans [OF a1 a2] m t2 show ?thesis by auto
qed

text \<open>
  A PE command on a target that answers it: after the words of the request, the replies
  alternate between a control word with PrACC set and the value \<open>v\<close>.
\<close>

definition pe_answers_from :: "nat \<Rightarrow> u32 \<Rightarrow> port \<Rightarrow> bool" where
  "pe_answers_from n v p =
     (\<forall>t. (ucast (reply_word p (n + 2 * t)) :: u32) AND CONTROL_PRACC pic32_values \<noteq> 0
          \<and> (ucast (reply_word p (n + 2 * t + 1)) :: u32) = v)"

lemma pe_answers_from_after:
  assumes p: "pe_answers_from n v (port a)" and a: "after (8 * n) m a a'"
  shows "pe_answers pic32_values v (port a')"
proof -
  have "reply_word (port a') j = reply_word (port a) (n + j)" for j
    using after_reply_word [OF a] .
  with p show ?thesis
    unfolding pe_answers_def pe_answers_from_def by (simp add: add.assoc)
qed

lemma pe_command_answers:
  assumes i: "idle a" and p: "pe_answers_from (length ws) v (port a)"
  shows "\<exists>a2 a3 m bs. pe_request pic32_values ws a = Some (Ok () a2)
           \<and> get_pe_response pic32_values a2 = Some (Ok v a3)
           \<and> after (8 * length ws + 16) m a a3 \<and> prACC_warnings m
           \<and> pe_answers pic32_values v (port a3)
           \<and> tx (port a3) = tx (port a) @ fastdata_select_packet @ bs"
proof -
  from pe_request_tx [OF i, of ws]
  obtain a2 m bs where s2: "pe_request pic32_values ws a = Some (Ok () a2)"
    and a2: "after (8 * length ws) m a a2" and m: "prACC_warnings m"
    and t2: "tx (port a2) = tx (port a) @ fastdata_select_packet @ bs" by blast
  have pa: "pe_answers pic32_values v (port a2)"
    using pe_answers_from_after [OF p a2] .
  from get_pe_response_answers [OF after_ready [OF a2] pa]
  obtain a3 where s3: "get_pe_response pic32_values a2 = Some (Ok v a3)" and a3: "after 16 [] a2 a3"
    by auto
  from a3 obtain cs where "tx (port a3) = tx (port a2) @ cs" by (auto simp: after_def)
  with t2 have t3: "tx (port a3) = tx (port a) @ fastdata_select_packet @ (bs @ cs)" by simp
  from a3 have "after (16 * 1) [] a2 a3" by simp
  from pe_answers_after [OF pa this] have p3: "pe_answers pic32_values v (port a3)" .
  from after_trans [OF a2 a3] have "after (8 * length ws + 16) m a a3" by simp
  with s2 s3 m p3 t3 show ?thesis by blast
qed

definition mm_target :: neofoxx_adapter where
  "mm_target = (bench INTERFACE_JTAG FAMILY_MM
                  (two_tone [0, 0, 3, 0, 0, 0, 0, 0] [0, 0, 4, 0, 0, 0, 0, 0]))\<lparr>use_executive := 1\<rparr>"

definition mx1_target :: neofoxx_adapter where
  "mx1_target = (bench INTERFACE_JTAG FAMILY_MX1
                  (two_tone [0, 0, 4, 0, 0, 0, 0, 0] [0, 0, 13, 0, 0, 0, 0, 0]))\<lparr>use_executive := 1\<rparr>"

lemma idle_executive [simp]: "idle (a\<lparr>use_executive := x\<rparr>) = idle a"
  by (simp add: idle_def)

lemma idle_fprintf [simp]: "idle (fprintf_stderr d a) = idle a"
  by (simp add: idle_def fprintf_stderr_def)

lemma fprintf_fields [simp]:
  "port (fprintf_stderr d a) = port a" "stderr (fprintf_stderr d a) = stderr a @ [d]"
  "use_executive (fprintf_stderr d a) = use_executive a"
  "family_name_short (fprintf_stderr d a) = family_name_short a"
  by (simp_all add: fprintf_stderr_def)

lemma mm_target_answers: "pe_answers_from 3 0x30000 (port mm_target)"
  by (simp add: pe_answers_from_def mm_target_def two_tone_reply word64_of_8 pic32_values_fields)

lemma mx1_target_answers: "pe_answers_from 6 0xD0000 (port mx1_target)"
  by (simp add: pe_answers_from_def mx1_target_def two_tone_reply word64_of_8 pic32_values_fields)

lemma length_fastdata_select_packet [simp]: "length fastdata_select_packet = 37"
  by (simp add: fastdata_select_packet_def)

lemma mm_target_fields [simp]:
  "use_executive mm_target = 1" "family_name_short mm_target = FAMILY_MM"
  "stderr mm_target = []" "tx (port mm_target) = []" "idle mm_target"
  by (simp_all add: mm_target_def)

lemma mx1_target_fields [simp]:
  "use_executive mx1_target = 1" "family_name_short mx1_target = FAMILY_MX1"
  "stderr mx1_target = []" "tx (port mx1_target) = []" "idle mx1_target"
  by (simp_all add: mx1_target_def)

lemma program_word_mm_run:
  "\<exists>a3 m bs. neofoxx_program_word pic32_values addr word mm_target = Some (Ok () a3)
      \<and> stderr a3 = [Program_word_not_available_on_MM, Workaround_active ''neofoxx_program_word''] @ m
      \<and> tx (port a3) = fastdata_select_packet @ bs"
proof -
  let ?a0 = "fprintf_stderr (Workaround_active ''neofoxx_program_word'')
               (fprintf_stderr Program_word_not_available_on_MM mm_target)"
  let ?ws = "[push_bit 16 (PE_WORD_PROGRAM pic32_values) OR 2, addr, word]"
  have i: "idle ?a0" by simp
  have p: "pe_answers_from (length ?ws) 0x30000 (port ?a0)"
    using mm_target_answers by (simp add: eval_nat_numeral)
  from pe_command_answers [OF i p]
  obtain a2 a3 m bs where s2: "pe_request pic32_values ?ws ?a0 = Some (Ok () a2)"
    and s3: "get_pe_response pic32_values a2 = Some (Ok 0x30000 a3)"
    and a3: "after (8 * length ?ws + 16) m ?a0 a3"
    and t3: "tx (port a3) = tx (port ?a0) @ fastdata_select_packet @ bs" by blast
  have u: "use_executive mm_target \<noteq> 0" by simp
  have unf: "neofoxx_program_word pic32_values addr word mm_target =
     bind_res (pe_request pic32_values ?ws ?a0)
       (\<lambda>_ a2. bind_res (get_pe_response pic32_values a2) (\<lambda>response a3.
          if response \<noteq> push_bit 16 (PE_WORD_PROGRAM pic32_values)
          then exit_with (Failed_to_program_word response) a3
          else ret () a3))"
    by (subst program_word_unfold [OF u]) simp
  have "neofoxx_program_word pic32_values addr word mm_target = Some (Ok () a3)"
    by (subst unf, subst s2, simp add: bind_res_def s3 ret_def pic32_values_fields)
  moreover from a3 have "stderr a3 = [Program_word_not_available_on_MM, Workaround_active ''neofoxx_program_word''] @ m"
    by (simp add: after_def)
  moreover from t3 have "tx (port a3) = fastdata_select_packet @ bs" by simp
  ultimately show ?thesis by blast
qed

lemma program_quad_word_mx1_run:
  "\<exists>a3 m bs. neofoxx_program_quad_word pic32_values addr word0 word1 word2 word3 mx1_target = Some (Ok () a3)
      \<and> stderr a3 = [Program_quad_word_only_on_MK_MZ, Workaround_active ''neofoxx_program_quad_word''] @ m
      \<and> tx (port a3) = fastdata_select_packet @ bs"
proof -
  let ?a0 = "fprintf_stderr (Workaround_active ''neofoxx_program_quad_word'')
               (fprintf_stderr Program_quad_word_only_on_MK_MZ mx1_target)"
  let ?ws = "[push_bit 16 (PE_QUAD_WORD_PGRM pic32_values), addr, word0, word1, word2, word3]"
  have i: "idle ?a0" by simp
  have p: "pe_answers_from (length ?ws) 0xD0000 (port ?a0)"
    using mx1_target_answers by (simp add: eval_nat_numeral)
  from pe_command_answers [OF i p]
  obtain a2 a3 m bs where s2: "pe_request pic32_values ?ws ?a0 = Some (Ok () a2)"
    and s3: "get_pe_response pic32_values a2 = Some (Ok 0xD0000 a3)"
    and a3: "after (8 * length ?ws + 16) m ?a0 a3"
    and t3: "tx (port a3) = tx (port ?a0) @ fastdata_select_packet @ bs" by blast
  have u: "use_executive mx1_target \<noteq> 0" by simp
  have unf: "neofoxx_program_quad_word pic32_values addr word0 word1 word2 word3 mx1_target =
     bind_res (pe_request pic32_values ?ws ?a0)
       (\<lambda>_ a2. bind_res (get_pe_response pic32_values a2) (\<lambda>response a3.
          if response \<noteq> push_bit 16 (PE_QUAD_WORD_PGRM pic32_values)
          then exit_with (Failed_to_program_quad_words response) a3
          else ret () a3))"
    by (subst program_quad_word_unfold [OF u]) simp
  have "neofoxx_program_quad_word pic32_values addr word0 word1 word2 word3 mx1_target = Some (Ok () a3)"
    by (subst unf, subst s2, simp add: bind_res_def s3 ret_def pic32_values_fields)
  moreover from a3 have "stderr a3 = [Program_quad_word_only_on_MK_MZ, Workaround_active ''neofoxx_program_quad_word''] @ m"
    by (simp add: after_def)
  moreover from t3 have "tx (port a3) = fastdata_select_packet @ bs" by simp
  ultimately show ?thesis by blast
qed

text \<open>
  Claim C2. The code prints the diagnostic of the unsupported family and goes on: on a
  target of family MM whose PE answers, \<open>neofoxx_program_word\<close> returns normally, its
  log begins with the diagnostic, and the first packet it writes selects the FASTDATA
  register; \<open>neofoxx_program_quad_word\<close> does the same on a target of family MX1.
\<close>

theorem unsupported_family_is_programmed:
  "returns (neofoxx_program_word pic32_values addr word mm_target)
   \<and> take 2 (log_of (neofoxx_program_word pic32_values addr word mm_target))
       = [Program_word_not_available_on_MM, Workaround_active ''neofoxx_program_word'']
   \<and> take 37 (tx_of (neofoxx_program_word pic32_values addr word mm_target)) = fastdata_select_packet
   \<and> returns (neofoxx_program_quad_word pic32_values addr word0 word1 word2 word3 mx1_target)
   \<and> take 2 (log_of (neofoxx_program_quad_word pic32_values addr word0 word1 word2 word3 mx1_target))
       = [Program_quad_word_only_on_MK_MZ, Workaround_active ''neofoxx_program_quad_word'']
   \<and> take 37 (tx_of (neofoxx_program_quad_word pic32_values addr word0 word1 word2 word3 mx1_target))
       = fastdata_select_packet"
proof -
  from program_word_mm_run [of addr word]
  obtain a3 m bs where "neofoxx_program_word pic32_values addr word mm_target = Some (Ok () a3)"
      "stderr a3 = [Program_word_not_available_on_MM, Workaround_active ''neofoxx_program_word''] @ m"
      "tx (port a3) = fastdata_select_packet @ bs" by blast
  then have w: "returns (neofoxx_program_word pic32_values addr word mm_target)
   \<and> take 2 (log_of (neofoxx_program_word pic32_values addr word mm_target))
       = [Program_word_not_available_on_MM, Workaround_active ''neofoxx_program_word'']
   \<and> take 37 (tx_of (neofoxx_program_word pic32_values addr word mm_target)) = fastdata_select_packet"
    by simp
  from program_quad_word_mx1_run [of addr word0 word1 word2 word3]
  obtain b3 n cs where "neofoxx_program_quad_word pic32_values addr word0 word1 word2 word3 mx1_target = Some (Ok () b3)"
      "stderr b3 = [Program_quad_word_only_on_MK_MZ, Workaround_active ''neofoxx_program_quad_word''] @ n"
      "tx (port b3) = fastdata_select_packet @ cs" by blast
  then have "returns (neofoxx_program_quad_word pic32_values addr word0 word1 word2 word3 mx1_target)
   \<and> take 2 (log_of (neofoxx_program_quad_word pic32_values addr word0 word1 word2 word3 mx1_target))
       = [Program_quad_word_only_on_MK_MZ, Workaround_active ''neofoxx_program_quad_word'']
   \<and> take 37 (tx_of (neofoxx_program_quad_word pic32_values addr word0 word1 word2 word3 mx1_target))
       = fastdata_select_packet"
    by simp
  with w show ?thesis by simp
qed

lemma drop_push_16: "drop_bit 16 (push_bit 16 x :: u32) = take_bit 16 x"
  by (rule bit_word_eqI) (auto simp: bit_simps)

lemma crc_example:
  "calculate_crc 0xffff (take 4 (bytes_of_words [0x12345678])) = 0x543A"
  by (simp add: bytes_of_words_def le32_bytes Let_def crc_table_def)

lemma verify_data_unfold:
  "use_executive a \<noteq> 0 \<Longrightarrow>
   neofoxx_verify_data k addr nwords data a =
     bind_res (pe_request k [push_bit 16 (PE_GET_CRC k), addr, nwords * 4]
                 (fprintf_stderr (Workaround_active ''neofoxx_verify_data'') a))
       (\<lambda>_ a1. bind_res (get_pe_response k a1) (\<lambda>response a2.
          if response \<noteq> push_bit 16 (PE_GET_CRC k)
          then exit_with (Failed_to_verify response) a2
          else bind_res (get_pe_response k a2) (\<lambda>r a3.
                 if r AND 0xffff \<noteq> calculate_crc 0xffff (take (unat (nwords * 4)) (bytes_of_words data))
                 then say (Checksum_failed (r AND 0xffff)
                             (calculate_crc 0xffff (take (unat (nwords * 4)) (bytes_of_words data)))) a3
                 else ret () a3)))"
  unfolding neofoxx_verify_data_def Let_def pe_request_def
  by (simp add: say_def ret_def bind_res_def fprintf_stderr_def)

text \<open>
  The control register first shows PrACC at reply \<open>n + j\<close>: the \<open>j\<close> replies from
  \<open>n\<close> on have it clear.
\<close>

definition pracc_at :: "pic32_h \<Rightarrow> port \<Rightarrow> nat \<Rightarrow> nat \<Rightarrow> bool" where
  "pracc_at k p n j =
     ((ucast (reply_word p (n + j)) :: u32) AND CONTROL_PRACC k \<noteq> 0
      \<and> (\<forall>i<j. (ucast (reply_word p (n + i)) :: u32) AND CONTROL_PRACC k = 0))"

lemma get_pe_response_at:
  assumes a: "after (8 * n) m a0 a" and p: "pracc_at k (port a0) n j"
  shows "\<exists>a'. get_pe_response k a = Some (Ok (ucast (reply_word (port a0) (Suc (n + j)))) a')
              \<and> after (8 * (n + j + 2)) m a0 a'"
proof -
  have w: "reply_word (port a) i = reply_word (port a0) (n + i)" for i
    using after_reply_word [OF a] .
  from p have "(ucast (reply_word (port a) j) :: u32) AND CONTROL_PRACC k \<noteq> 0"
    and "\<forall>i<j. (ucast (reply_word (port a) i) :: u32) AND CONTROL_PRACC k = 0"
    by (simp_all add: pracc_at_def w)
  from get_pe_response_ready [OF after_ready [OF a] this]
  obtain a' where g: "get_pe_response k a = Some (Ok (ucast (reply_word (port a) (Suc j))) a')"
    and a': "after (8 * Suc (Suc j)) [] a a'" by blast
  have e: "8 * (n + j + 2) = 8 * n + 8 * Suc (Suc j)" by simp
  from after_trans [OF a a'] have "after (8 * (n + j + 2)) m a0 a'"
    unfolding e by simp
  with g show ?thesis by (simp add: w)
qed

lemma pracc_at_fprintf [simp]: "pracc_at k (port (fprintf_stderr d a)) n j = pracc_at k (port a) n j"
  by (simp add: pracc_at_def)

lemma verify_data_prompt:
  assumes i: "idle a" and u: "use_executive a \<noteq> 0" and p1: "pracc_at k (port a) 3 j1"
  shows "((ucast (reply_word (port a) (4 + j1)) :: u32) \<noteq> push_bit 16 (PE_GET_CRC k) \<longrightarrow>
            exits (neofoxx_verify_data k addr nwords data a)
            \<and> last (log_of (neofoxx_verify_data k addr nwords data a))
                = Failed_to_verify (ucast (reply_word (port a) (4 + j1))))
       \<and> ((ucast (reply_word (port a) (4 + j1)) :: u32) = push_bit 16 (PE_GET_CRC k)
            \<and> pracc_at k (port a) (5 + j1) j2 \<longrightarrow>
            returns (neofoxx_verify_data k addr nwords data a)
            \<and> (\<exists>m. prACC_warnings m
                  \<and> log_of (neofoxx_verify_data k addr nwords data a)
                      = stderr a @ Workaround_active ''neofoxx_verify_data'' # m
                        @ (if (ucast (reply_word (port a) (6 + j1 + j2)) :: u32) AND 0xffff
                               \<noteq> calculate_crc 0xffff (take (unat (nwords * 4)) (bytes_of_words data))
                           then [Checksum_failed ((ucast (reply_word (port a) (6 + j1 + j2)) :: u32) AND 0xffff)
                                   (calculate_crc 0xffff (take (unat (nwords * 4)) (bytes_of_words data)))]
                           else [])))"
proof -
  define a0 where "a0 = fprintf_stderr (Workaround_active ''neofoxx_verify_data'') a"
  define ws where "ws = [push_bit 16 (PE_GET_CRC k), addr, nwords * 4]"
  define response :: u32 where "response = ucast (reply_word (port a) (4 + j1))"
  define r :: u32 where "r = ucast (reply_word (port a) (6 + j1 + j2))"
  define crc where "crc = calculate_crc 0xffff (take (unat (nwords * 4)) (bytes_of_words data))"
  define V where "V = neofoxx_verify_data k addr nwords data a"
  have i0: "idle a0" and pa: "port a0 = port a"
    and e0: "stderr a0 = stderr a @ [Workaround_active ''neofoxx_verify_data'']"
    using i by (simp_all add: a0_def)
  from pe_request_ready [OF i0, of k ws]
  obtain a1 m where s1: "pe_request k ws a0 = Some (Ok () a1)"
    and a1: "after (8 * 3) m a0 a1" and m: "prACC_warnings m"
    by (auto simp: ws_def)
  from p1 have p1': "pracc_at k (port a0) 3 j1" by (simp add: pa)
  have n1: "Suc (3 + j1) = 4 + j1" and n2: "3 + j1 + 2 = 5 + j1" by simp_all
  from get_pe_response_at [OF a1 p1']
  obtain a2 where s2: "get_pe_response k a1 = Some (Ok response a2)"
    and a2: "after (8 * (5 + j1)) m a0 a2"
    unfolding n1 n2 pa response_def by blast
  have unf: "V = bind_res (pe_request k ws a0)
       (\<lambda>_ a1. bind_res (get_pe_response k a1) (\<lambda>response a2.
          if response \<noteq> push_bit 16 (PE_GET_CRC k)
          then exit_with (Failed_to_verify response) a2
          else bind_res (get_pe_response k a2) (\<lambda>r a3.
                 if r AND 0xffff \<noteq> crc
                 then say (Checksum_failed (r AND 0xffff) crc) a3
                 else ret () a3)))"
    unfolding V_def ws_def a0_def crc_def by (rule verify_data_unfold [OF u])
  have bad: "exits V \<and> last (log_of V) = Failed_to_verify response"
    if ne: "response \<noteq> push_bit 16 (PE_GET_CRC k)"
  proof -
    have "V = Some (Exit (fprintf_stderr (Failed_to_verify response) a2))"
      by (subst unf, subst s1, simp add: bind_res_def s2 ne exit_with_eq)
    then show ?thesis by simp
  qed
  have good: "returns V \<and> (\<exists>m. prACC_warnings m
                  \<and> log_of V = stderr a @ Workaround_active ''neofoxx_verify_data'' # m
                        @ (if r AND 0xffff \<noteq> crc then [Checksum_failed (r AND 0xffff) crc] else []))"
    if eq: "response = push_bit 16 (PE_GET_CRC k)" and p2: "pracc_at k (port a) (5 + j1) j2"
  proof -
    from p2 have p2': "pracc_at k (port a0) (5 + j1) j2" by (simp add: pa)
    have n3: "Suc (5 + j1 + j2) = 6 + j1 + j2" by simp
    from get_pe_response_at [OF a2 p2']
    obtain a3 where s3: "get_pe_response k a2 = Some (Ok r a3)"
      and a3: "after (8 * (5 + j1 + j2 + 2)) m a0 a3"
      unfolding n3 pa r_def by blast
    from a3 have e3: "stderr a3 = stderr a @ Workaround_active ''neofoxx_verify_data'' # m"
      by (simp add: after_def e0)
    have "V = (if r AND 0xffff \<noteq> crc
               then Some (Ok () (fprintf_stderr (Checksum_failed (r AND 0xffff) crc) a3))
               else Some (Ok () a3))"
      by (subst unf, subst s1, simp add: bind_res_def s2 eq s3 say_def ret_def)
    with e3 have "returns V \<and> log_of V = stderr a @ Workaround_active ''neofoxx_verify_data'' # m
                        @ (if r AND 0xffff \<noteq> crc then [Checksum_failed (r AND 0xffff) crc] else [])"
      by simp
    with m show ?thesis by blast
  qed
  from bad good show ?thesis
    unfolding V_def response_def r_def crc_def by blast
qed

text \<open>
  Three targets whose control register shows PrACC at every second reply, on an MX1 over
  JTAG with the executive in use. Between the control words the PE answers \<open>0x80000\<close>
  (the GET_CRC opcode, and a CRC of zero), \<open>0x30000\<close> (another opcode), or
  \<open>0x80002\<close> (the GET_CRC opcode with low bits set).
\<close>

definition crc_target :: neofoxx_adapter where
  "crc_target = (bench INTERFACE_JTAG FAMILY_MX1
                  (two_tone [0, 0, 4, 0, 0, 0, 0, 0] [0, 0, 8, 0, 0, 0, 0, 0]))\<lparr>use_executive := 1\<rparr>"

definition wrong_echo_target :: neofoxx_adapter where
  "wrong_echo_target = (bench INTERFACE_JTAG FAMILY_MX1
                  (two_tone [0, 0, 4, 0, 0, 0, 0, 0] [0, 0, 3, 0, 0, 0, 0, 0]))\<lparr>use_executive := 1\<rparr>"

definition low_bits_target :: neofoxx_adapter where
  "low_bits_target = (bench INTERFACE_JTAG FAMILY_MX1
                  (two_tone [0, 0, 4, 0, 0, 0, 0, 0] [2, 0, 8, 0, 0, 0, 0, 0]))\<lparr>use_executive := 1\<rparr>"

lemma crc_target_facts:
  "idle crc_target" "use_executive crc_target \<noteq> 0" "stderr crc_target = []"
  "reply_word (port crc_target) j = (if j mod 2 = 0 then 0x40000 else 0x80000)"
  by (simp_all add: crc_target_def two_tone_reply word64_of_8)

lemma wrong_echo_target_facts:
  "idle wrong_echo_target" "use_executive wrong_echo_target \<noteq> 0" "stderr wrong_echo_target = []"
  "reply_word (port wrong_echo_target) j = (if j mod 2 = 0 then 0x40000 else 0x30000)"
  by (simp_all add: wrong_echo_target_def two_tone_reply word64_of_8)

lemma low_bits_target_facts:
  "idle low_bits_target" "use_executive low_bits_target \<noteq> 0" "stderr low_bits_target = []"
  "reply_word (port low_bits_target) j = (if j mod 2 = 0 then 0x40000 else 0x80002)"
  by (simp_all add: low_bits_target_def two_tone_reply word64_of_8)

lemma pracc_at_targets:
  "pracc_at pic32_values (port crc_target) 3 1" "pracc_at pic32_values (port crc_target) (5 + 1) 0"
  "pracc_at pic32_values (port wrong_echo_target) 3 1"
  "pracc_at pic32_values (port low_bits_target) 3 1"
  by (simp_all add: pracc_at_def crc_target_facts wrong_echo_target_facts low_bits_target_facts
        pic32_values_fields)

text \<open>
  Claim C3, as the code has it. On a prompt line with the executive in use, where the
  control register first shows PrACC \<open>j1\<close> polls after the three words of the request:
  the first response is the reply that follows. When it is not exactly the GET_CRC
  opcode shifted left by 16, which is the case whenever its high 16 bits are not the
  opcode, the call exits with the verify diagnostic. When it is exactly that word and the
  control register shows PrACC again after \<open>j2\<close> polls, the call returns normally; its
  log is the workaround notice, the PrACC warnings of the request and, only when the low
  16 bits of the second response differ from the CRC of the \<open>nwords * 4\<close> bytes of the
  data, the checksum diagnostic.
\<close>

theorem verify_data_check:
  assumes "idle a" and "use_executive a \<noteq> 0" and "pracc_at k (port a) 3 j1"
    and "unat (nwords * 4) \<le> 4 * length data"
  shows "((ucast (reply_word (port a) (4 + j1)) :: u32) \<noteq> push_bit 16 (PE_GET_CRC k) \<longrightarrow>
            exits (neofoxx_verify_data k addr nwords data a)
            \<and> last (log_of (neofoxx_verify_data k addr nwords data a))
                = Failed_to_verify (ucast (reply_word (port a) (4 + j1))))
       \<and> (drop_bit 16 (ucast (reply_word (port a) (4 + j1)) :: u32) \<noteq> take_bit 16 (PE_GET_CRC k) \<longrightarrow>
            exits (neofoxx_verify_data k addr nwords data a))
       \<and> ((ucast (reply_word (port a) (4 + j1)) :: u32) = push_bit 16 (PE_GET_CRC k)
            \<and> pracc_at k (port a) (5 + j1) j2 \<longrightarrow>
            returns (neofoxx_verify_data k addr nwords data a)
            \<and> (\<exists>m. prACC_warnings m
                  \<and> log_of (neofoxx_verify_data k addr nwords data a)
                      = stderr a @ Workaround_active ''neofoxx_verify_data'' # m
                        @ (if (ucast (reply_word (port a) (6 + j1 + j2)) :: u32) AND 0xffff
                               \<noteq> calculate_crc 0xffff (take (unat (nwords * 4)) (bytes_of_words data))
                           then [Checksum_failed ((ucast (reply_word (port a) (6 + j1 + j2)) :: u32) AND 0xffff)
                                   (calculate_crc 0xffff (take (unat (nwords * 4)) (bytes_of_words data)))]
                           else [])))"
proof -
  note v = verify_data_prompt [OF assms(1-3), of addr nwords data j2]
  have "(ucast (reply_word (port a) (4 + j1)) :: u32) \<noteq> push_bit 16 (PE_GET_CRC k)"
    if "drop_bit 16 (ucast (reply_word (port a) (4 + j1)) :: u32) \<noteq> take_bit 16 (PE_GET_CRC k)"
    using that drop_push_16 [of "PE_GET_CRC k"] by auto
  with v show ?thesis by blast
qed

theorem verify_data_check_witness:
  "exits (neofoxx_verify_data pic32_values 0x1D000000 1 [0x12345678] wrong_echo_target)
   \<and> last (log_of (neofoxx_verify_data pic32_values 0x1D000000 1 [0x12345678] wrong_echo_target))
       = Failed_to_verify 0x30000
   \<and> returns (neofoxx_verify_data pic32_values 0x1D000000 1 [0x12345678] crc_target)
   \<and> last (log_of (neofoxx_verify_data pic32_values 0x1D000000 1 [0x12345678] crc_target))
       = Checksum_failed 0 0x543A"
proof -
  have len: "unat (1 * 4 :: u32) \<le> 4 * length [0x12345678 :: u32]" by simp
  from verify_data_check [OF wrong_echo_target_facts(1,2) pracc_at_targets(3) len, of "0x1D000000" 0]
  have w: "exits (neofoxx_verify_data pic32_values 0x1D000000 1 [0x12345678] wrong_echo_target)
   \<and> last (log_of (neofoxx_verify_data pic32_values 0x1D000000 1 [0x12345678] wrong_echo_target))
       = Failed_to_verify 0x30000"
    by (simp add: wrong_echo_target_facts pic32_values_fields)
  from verify_data_check [OF crc_target_facts(1,2) pracc_at_targets(1) len, of "0x1D000000" 0]
    pracc_at_targets(2)
  have "returns (neofoxx_verify_data pic32_values 0x1D000000 1 [0x12345678] crc_target)
   \<and> last (log_of (neofoxx_verify_data pic32_values 0x1D000000 1 [0x12345678] crc_target))
       = Checksum_failed 0 0x543A"
    by (auto simp: crc_target_facts pic32_values_fields crc_example)
  with w show ?thesis by simp
qed

text \<open>
  The claim as stated has the call return normally whenever the high 16 bits of the first
  response echo the opcode. The third target answers \<open>0x80002\<close>: its high 16 bits are
  the GET_CRC opcode, and the call exits with the verify diagnostic.
\<close>

theorem low_bits_exit_counterexample:
  "(ucast (reply_word (port low_bits_target) 5) :: u32) = 0x80002
   \<and> drop_bit 16 (0x80002 :: u32) = PE_GET_CRC pic32_values
   \<and> exits (neofoxx_verify_data pic32_values 0x1D000000 1 [0x12345678] low_bits_target)
   \<and> last (log_of (neofoxx_verify_data pic32_values 0x1D000000 1 [0x12345678] low_bits_target))
       = Failed_to_verify 0x80002"
  using verify_data_prompt [OF low_bits_target_facts(1,2) pracc_at_targets(4), of "0x1D000000" 1 "[0x12345678]" 0]
  by (simp add: low_bits_target_facts pic32_values_fields drop_bit_eq_div)



definition addresses :: "u32 \<Rightarrow> u32 \<Rightarrow> nat \<Rightarrow> u32 list" where
  "addresses addr step n = map (\<lambda>i. addr + step * of_nat i) [0..<n]"

lemma addresses_0 [simp]: "addresses addr step 0 = []"
  by (simp add: addresses_def)


lemma length_addresses [simp]: "length (addresses addr step n) = n"
  by (simp add: addresses_def)








text \<open>
  A target whose PE is prompt: the control register shows PrACC at every reply of even
  index. The polls of \<open>get_pe_response\<close> fall on these replies when the words sent
  before are even in number, as they are in a READ burst.
\<close>

definition pe_prompt :: "pic32_h \<Rightarrow> port \<Rightarrow> bool" where
  "pe_prompt k p = (\<forall>t. (ucast (reply_word p (2 * t)) :: u32) AND CONTROL_PRACC k \<noteq> 0)"

lemma after_16_reply_word:
  "after (16 * n) m a a' \<Longrightarrow> reply_word (port a') j = reply_word (port a) (2 * n + j)"
proof -
  assume "after (16 * n) m a a'"
  then have "after (8 * (2 * n)) m a a'" by simp
  then show ?thesis by (rule after_reply_word)
qed

lemma pe_prompt_after:
  assumes p: "pe_prompt k (port a)" and a: "after (16 * n) m a a'"
  shows "pe_prompt k (port a')"
proof -
  have "(ucast (reply_word (port a') (2 * t)) :: u32) AND CONTROL_PRACC k \<noteq> 0" for t
  proof -
    have e: "2 * n + 2 * t = 2 * (n + t)" by simp
    from p have "(ucast (reply_word (port a) (2 * (n + t))) :: u32) AND CONTROL_PRACC k \<noteq> 0"
      unfolding pe_prompt_def by (rule spec)
    then show ?thesis
      unfolding after_16_reply_word [OF a] e .
  qed
  then show ?thesis by (simp add: pe_prompt_def)
qed

lemma get_pe_response_prompt:
  assumes "ready a" and "pe_prompt k (port a)"
  shows "\<exists>a'. get_pe_response k a = Some (Ok (ucast (reply_word (port a) 1)) a') \<and> after 16 [] a a'"
proof -
  from assms(2) have "(ucast (reply_word (port a) (2 * 0)) :: u32) AND CONTROL_PRACC k \<noteq> 0"
    unfolding pe_prompt_def by (rule spec)
  then have p: "(ucast (reply_word (port a) 0) :: u32) AND CONTROL_PRACC k \<noteq> 0" by simp
  from get_pe_response_ready [OF assms(1), of 0 k] p show ?thesis by simp
qed



text \<open>
  The replies of a READ burst on a prompt PE. A burst takes 68 replies: two for the words
  of the request, two for the response (the control poll and the echo), and two for each
  of the 32 data words. Burst \<open>b\<close> has its echo at reply \<open>68 * b + 3\<close> and its data
  words at the replies \<open>68 * b + 5, 68 * b + 7, ...\<close>.
\<close>

definition burst_echo :: "port \<Rightarrow> nat \<Rightarrow> u32" where
  "burst_echo p b = ucast (reply_word p (68 * b + 3))"

definition burst_words :: "port \<Rightarrow> nat \<Rightarrow> u32 list" where
  "burst_words p b = map (\<lambda>i. ucast (reply_word p (68 * b + (2 * i + 5)))) [0..<32]"

lemma length_burst_words [simp]: "length (burst_words p b) = 32"
  by (simp add: burst_words_def)

lemma pe_read_burst_unfold:
  "pe_read_burst k addr data a =
     bind_res (pe_request k [push_bit 16 (PE_READ k) OR 32, addr] a) (\<lambda>_ a1.
     bind_res (get_pe_response k a1) (\<lambda>response a2.
       if response \<noteq> push_bit 16 (PE_READ k)
       then exit_with (Bad_READ_response response) a2
       else get_pe_words k 32 data a2))"
  by (simp add: pe_read_burst_def pe_request_def)


lemma pe_read_burst_bad_echo:
  assumes i: "idle a" and p: "pe_prompt k (port a)"
    and e: "burst_echo (port a) 0 \<noteq> push_bit 16 (PE_READ k)"
  shows "\<exists>a'. pe_read_burst k addr data a = Some (Exit a')"
proof -
  from pe_request_ready [OF i, of k "[push_bit 16 (PE_READ k) OR 32, addr]"]
  obtain a1 m where s1: "pe_request k [push_bit 16 (PE_READ k) OR 32, addr] a = Some (Ok () a1)"
    and a1: "after (16 * 1) m a a1" by auto
  have w1: "reply_word (port a1) j = reply_word (port a) (2 + j)" for j
    using after_16_reply_word [OF a1] by simp
  from get_pe_response_prompt [OF after_ready [OF a1] pe_prompt_after [OF p a1]]
  obtain a2 where s2': "get_pe_response k a1 = Some (Ok (ucast (reply_word (port a1) 1)) a2)" by auto
  have v: "(ucast (reply_word (port a1) 1) :: u32) = burst_echo (port a) 0"
    by (simp add: burst_echo_def w1)
  have s2: "get_pe_response k a1 = Some (Ok (burst_echo (port a) 0) a2)"
    using s2' unfolding v .
  show ?thesis
    by (subst pe_read_burst_unfold, subst s1, simp add: bind_res_def s2 e exit_with_eq)
qed



text \<open>
  A target in serial execution: the control register shows ProbEn at every reply. On its
  line the instruction injector goes through its loop once, and a command that sends
  instructions returns after some number of replies.
\<close>

definition proben_line :: "pic32_h \<Rightarrow> port \<Rightarrow> bool" where
  "proben_line k p = (\<forall>j. (ucast (reply_word p j) :: u32) AND CONTROL_PROBEN k \<noteq> 0)"











lemma length_bursts [simp]: "length (concat (map (burst_words p) [0..<n])) = 32 * n"
  by (induction n) simp_all



lemma burst_fprintf [simp]:
  "burst_echo (port (fprintf_stderr d a)) b = burst_echo (port a) b"
  "burst_words (port (fprintf_stderr d a)) = burst_words (port a)"
  "pe_prompt k (port (fprintf_stderr d a)) = pe_prompt k (port a)"
  "proben_line k (port (fprintf_stderr d a)) = proben_line k (port a)"
  "serial_execution_mode (fprintf_stderr d a) = serial_execution_mode a"
  by (simp_all add: fprintf_stderr_def)







lemma idle_serial [simp]: "idle (a\<lparr>serial_execution_mode := x\<rparr>) = idle a"
  by (simp add: idle_def)









end
